(* ===== verification/Prelude.thy ===== *)
theory Prelude
  imports Main "HOL-Library.Char_ord" "HOL-Library.List_Lexorder" "HOL-Library.Code_Target_Nat"
begin

text \<open>
  Shared by every component: the string functions of the Rust standard library that the
  source uses, \<open>clamp\<close>, list and option lemmas, and the development's theorem
  collections.

  Strings are byte strings: a \<^typ>\<open>string\<close> is the UTF-8 bytes of a Rust \<open>String\<close>, so
  \<^const>\<open>length\<close> is Rust's \<open>len()\<close>. White space and letter case are modelled on the ASCII
  range; bytes from 128 on are left as they are by \<open>trim\<close> and \<open>lower\<close>.
\<close>

named_theorems norm_simps "normal forms of trimmed and lower-cased strings"
named_theorems table_simps "lookups in a table after an update of it"

subsection \<open>Characters\<close>

definition code_of :: "char \<Rightarrow> nat" where
  "code_of c = of_char c"

definition is_space :: "char \<Rightarrow> bool" where
  "is_space c \<longleftrightarrow> code_of c = 32 \<or> (9 \<le> code_of c \<and> code_of c \<le> 13)"

definition is_ascii :: "char \<Rightarrow> bool" where
  "is_ascii c \<longleftrightarrow> code_of c < 128"

definition is_control :: "char \<Rightarrow> bool" where
  "is_control c \<longleftrightarrow> code_of c < 32 \<or> code_of c = 127"

definition is_upper :: "char \<Rightarrow> bool" where
  "is_upper c \<longleftrightarrow> 65 \<le> code_of c \<and> code_of c \<le> 90"

definition lower_char :: "char \<Rightarrow> char" where
  "lower_char c = (if is_upper c then char_of (code_of c + 32) else c)"

lemma code_of_lower_char:
  "code_of (lower_char c) = (if is_upper c then code_of c + 32 else code_of c)"
proof (cases "is_upper c")
  case True
  then have "code_of c + 32 < 256" by (simp add: is_upper_def)
  with True show ?thesis by (simp add: lower_char_def code_of_def)
qed (simp add: lower_char_def)

lemma lower_char_idem [simp]: "lower_char (lower_char c) = lower_char c"
  using code_of_lower_char [of c] by (auto simp: lower_char_def is_upper_def)

lemma is_space_lower_char [simp]: "is_space (lower_char c) = is_space c"
  using code_of_lower_char [of c] by (auto simp: is_space_def is_upper_def)

lemma lower_char_not_upper: "\<not> is_upper (lower_char c)"
  using code_of_lower_char [of c] by (auto simp: is_upper_def split: if_splits)

lemma lower_char_id: "\<not> is_upper c \<Longrightarrow> lower_char c = c"
  by (simp add: lower_char_def)

lemma not_is_upper_slash [simp]: "\<not> is_upper (CHR ''/'')"
  by (simp add: is_upper_def code_of_def)

lemma lower_char_eq_iff_not_letter:
  assumes "\<not> is_upper d" and "code_of d < 97 \<or> 122 < code_of d"
  shows "lower_char c = d \<longleftrightarrow> c = d"
proof
  assume eq: "lower_char c = d"
  show "c = d"
  proof (cases "is_upper c")
    case True
    with code_of_lower_char [of c] eq assms show ?thesis by (auto simp: is_upper_def)
  next
    case False
    with eq show ?thesis by (simp add: lower_char_id)
  qed
qed (use assms in \<open>simp add: lower_char_id\<close>)

subsection \<open>Strings\<close>

definition trim_start :: "string \<Rightarrow> string" where
  "trim_start s = dropWhile is_space s"

definition trim_end :: "string \<Rightarrow> string" where
  "trim_end s = rev (dropWhile is_space (rev s))"

definition trim :: "string \<Rightarrow> string" where
  "trim s = trim_end (trim_start s)"

definition lower :: "string \<Rightarrow> string" where
  "lower s = map lower_char s"

lemma length_lower [simp]: "length (lower s) = length s"
  by (simp add: lower_def)

lemma lower_idem [simp]: "lower (lower s) = lower s"
  by (simp add: lower_def)

lemma lower_Nil_iff [simp]: "lower s = [] \<longleftrightarrow> s = []"
  by (simp add: lower_def)

lemma length_dropWhile_le: "length (dropWhile P xs) \<le> length xs"
  by (induction xs) auto

lemma length_trim: "length (trim s) \<le> length s"
  unfolding trim_def trim_end_def trim_start_def
  by (metis length_dropWhile_le length_rev order_trans)

lemma set_trim: "set (trim s) \<subseteq> set s"
  unfolding trim_def trim_end_def trim_start_def
  by (metis set_dropWhileD set_rev subsetI)

lemma dropWhile_id_hd: "(\<forall>x xs'. xs = x # xs' \<longrightarrow> \<not> P x) \<Longrightarrow> dropWhile P xs = xs"
  by (cases xs) auto

lemma hd_trim_start: "trim_start s = x # xs \<Longrightarrow> \<not> is_space x"
  unfolding trim_start_def by (metis dropWhile_eq_Cons_conv)

lemma trim_end_append:
  "trim_end (xs @ [c]) = (if is_space c then trim_end xs else xs @ [c])"
  by (simp add: trim_end_def)

lemma trim_end_prefix: "\<exists>ys. s = trim_end s @ ys"
proof (induction s rule: rev_induct)
  case (snoc c xs)
  then obtain ys where "xs = trim_end xs @ ys" by blast
  then have "xs @ [c] = trim_end xs @ (ys @ [c])" by (metis append.assoc)
  then have "\<exists>zs. xs @ [c] = trim_end xs @ zs" by blast
  then show ?case by (simp add: trim_end_append)
qed (simp add: trim_end_def)

lemma trim_hd: "trim s = x # xs \<Longrightarrow> \<not> is_space x"
proof -
  assume a: "trim s = x # xs"
  obtain ys where "trim_start s = trim_end (trim_start s) @ ys"
    using trim_end_prefix by blast
  with a have "trim_start s = x # xs @ ys" by (simp add: trim_def)
  then show ?thesis by (rule hd_trim_start)
qed

lemma trim_last: "trim s \<noteq> [] \<Longrightarrow> \<not> is_space (last (trim s))"
proof -
  assume "trim s \<noteq> []"
  then have "dropWhile is_space (rev (trim_start s)) \<noteq> []"
    by (simp add: trim_def trim_end_def)
  then have "\<not> is_space (hd (dropWhile is_space (rev (trim_start s))))"
    by (rule hd_dropWhile)
  then show ?thesis
    by (simp add: trim_def trim_end_def last_rev)
qed

lemma trim_unchanged:
  assumes "s = [] \<or> (\<not> is_space (hd s) \<and> \<not> is_space (last s))"
  shows "trim s = s"
proof (cases "s = []")
  case True
  then show ?thesis by (simp add: trim_def trim_start_def trim_end_def)
next
  case False
  with assms have h: "\<not> is_space (hd s)" "\<not> is_space (last s)" by auto
  have "trim_start s = s"
    using h(1) False by (cases s) (auto simp: trim_start_def)
  moreover have "trim_end s = s"
    using h(2) False by (cases s rule: rev_cases) (auto simp: trim_end_append)
  ultimately show ?thesis by (simp add: trim_def)
qed

lemma trim_idem [simp]: "trim (trim s) = trim s"
proof (rule trim_unchanged)
  show "trim s = [] \<or> (\<not> is_space (hd (trim s)) \<and> \<not> is_space (last (trim s)))"
    using trim_hd [of s] trim_last [of s] by (cases "trim s") auto
qed

lemma trim_Nil [simp]: "trim [] = []"
  by (simp add: trim_def trim_start_def trim_end_def)

lemma trim_lower [simp]: "trim (lower s) = lower (trim s)"
proof -
  have "dropWhile is_space (map lower_char xs) = map lower_char (dropWhile is_space xs)" for xs
    by (induction xs) auto
  then show ?thesis
    by (simp add: trim_def trim_start_def trim_end_def lower_def rev_map)
qed

text \<open>\<open>split_once\<close> and \<open>rsplit_once\<close> at a one-byte separator.\<close>

fun split_once :: "char \<Rightarrow> string \<Rightarrow> (string \<times> string) option" where
  "split_once c [] = None"
| "split_once c (x # xs) =
     (if x = c then Some ([], xs)
      else map_option (\<lambda>(a, b). (x # a, b)) (split_once c xs))"

definition rsplit_once :: "char \<Rightarrow> string \<Rightarrow> (string \<times> string) option" where
  "rsplit_once c s = map_option (\<lambda>(a, b). (rev b, rev a)) (split_once c (rev s))"

lemma split_once_None: "split_once c s = None \<longleftrightarrow> c \<notin> set s"
  by (induction s) auto

lemma split_once_Some:
  "split_once c s = Some (a, b) \<longleftrightarrow> s = a @ c # b \<and> c \<notin> set a"
proof (induction s arbitrary: a)
  case (Cons x xs)
  show ?case
    by (cases a) (auto simp: Cons.IH split: option.splits)
qed simp

lemma split_once_append [simp]: "c \<notin> set a \<Longrightarrow> split_once c (a @ c # b) = Some (a, b)"
  by (simp add: split_once_Some)

lemma rsplit_once_Some:
  "rsplit_once c s = Some (a, b) \<longleftrightarrow> s = a @ c # b \<and> c \<notin> set b"
proof -
  have "rsplit_once c s = Some (a, b) \<longleftrightarrow> split_once c (rev s) = Some (rev b, rev a)"
    by (auto simp: rsplit_once_def)
  also have "\<dots> \<longleftrightarrow> rev s = rev b @ c # rev a \<and> c \<notin> set b"
    by (simp add: split_once_Some)
  also have "\<dots> \<longleftrightarrow> s = a @ c # b \<and> c \<notin> set b"
    by (metis append.assoc append_Cons append_Nil rev.simps(2) rev_append rev_rev_ident)
  finally show ?thesis .
qed

lemma rsplit_once_append [simp]: "c \<notin> set b \<Longrightarrow> rsplit_once c (a @ c # b) = Some (a, b)"
  by (simp add: rsplit_once_Some)

text \<open>Splitting at every occurrence of a separator, as \<open>str::split\<close> does.\<close>

fun split_on :: "char \<Rightarrow> string \<Rightarrow> string list" where
  "split_on c [] = [[]]"
| "split_on c (x # xs) =
     (if x = c then [] # split_on c xs
      else (case split_on c xs of [] \<Rightarrow> [[x]] | w # ws \<Rightarrow> (x # w) # ws))"

definition starts_with :: "string \<Rightarrow> string \<Rightarrow> bool" where
  "starts_with p s \<longleftrightarrow> take (length p) s = p"

definition strip_prefix :: "string \<Rightarrow> string \<Rightarrow> string option" where
  "strip_prefix p s = (if starts_with p s then Some (drop (length p) s) else None)"

text \<open>Rust's decimal rendering of unsigned and signed integers.\<close>

definition digit_char :: "nat \<Rightarrow> char" where
  "digit_char d = char_of (48 + d)"

fun show_nat :: "nat \<Rightarrow> string" where
  "show_nat n = (if n < 10 then [digit_char n] else show_nat (n div 10) @ [digit_char (n mod 10)])"

declare show_nat.simps [simp del]

definition show_int :: "int \<Rightarrow> string" where
  "show_int i = (if i < 0 then CHR ''-'' # show_nat (nat (- i)) else show_nat (nat i))"

lemma code_of_less [simp]: "code_of c < 256"
  by (simp add: code_of_def)

lemma char_of_code_of [simp]: "char_of (code_of c) = c"
  by (simp add: code_of_def)

definition digit_value :: "char \<Rightarrow> nat" where
  "digit_value c = code_of c - 48"

definition is_digit :: "char \<Rightarrow> bool" where
  "is_digit c \<longleftrightarrow> 48 \<le> code_of c \<and> code_of c \<le> 57"

definition read_nat :: "string \<Rightarrow> nat" where
  "read_nat s = foldl (\<lambda>n c. 10 * n + digit_value c) 0 s"

lemma code_of_char_of [simp]: "n < 256 \<Longrightarrow> code_of (char_of n) = n"
  by (simp add: code_of_def)

lemma digit_value_char: "d < 10 \<Longrightarrow> digit_value (digit_char d) = d"
  by (simp add: digit_value_def digit_char_def)

lemma is_digit_char: "d < 10 \<Longrightarrow> is_digit (digit_char d)"
  by (simp add: is_digit_def digit_char_def)

lemma read_show_nat: "read_nat (show_nat n) = n"
proof (induction n rule: show_nat.induct)
  case (1 n)
  show ?case
  proof (cases "n < 10")
    case True
    then show ?thesis by (simp add: show_nat.simps [of n] read_nat_def digit_value_char)
  next
    case False
    with 1 have "read_nat (show_nat (n div 10)) = n div 10" by simp
    with False show ?thesis
      by (simp add: show_nat.simps [of n] read_nat_def digit_value_char)
  qed
qed

lemma show_nat_digits: "c \<in> set (show_nat n) \<Longrightarrow> is_digit c"
proof (induction n rule: show_nat.induct)
  case (1 n)
  show ?case
  proof (cases "n < 10")
    case True
    with 1 show ?thesis by (simp add: show_nat.simps [of n] is_digit_char)
  next
    case False
    with 1 show ?thesis by (auto simp: show_nat.simps [of n] is_digit_char)
  qed
qed

lemma show_nat_inject [simp]: "show_nat m = show_nat n \<longleftrightarrow> m = n"
  by (metis read_show_nat)

lemma show_nat_not_Nil [simp]: "show_nat n \<noteq> []"
  by (simp add: show_nat.simps [of n])

text \<open>\<open>str::parse::<i64>\<close>: an optional sign, at least one digit, and the range of \<open>i64\<close>.\<close>

definition parse_i64 :: "string \<Rightarrow> int option" where
  "parse_i64 s =
     (let (neg, ds) = (case s of [] \<Rightarrow> (False, [])
            | c # cs \<Rightarrow> if c = CHR ''-'' then (True, cs) else if c = CHR ''+'' then (False, cs) else (False, s));
          n = (if neg then - int (read_nat ds) else int (read_nat ds))
      in if ds = [] \<or> \<not> list_all is_digit ds \<or> n < - (2 ^ 63) \<or> 2 ^ 63 \<le> n then None else Some n)"

lemma show_nat_hd_digit: "\<exists>c cs. show_nat n = c # cs \<and> is_digit c"
  using show_nat_digits [of _ n] by (cases "show_nat n") (auto simp del: show_nat.simps)

lemma parse_show_int:
  assumes "- (2 ^ 63) \<le> i" and "i < 2 ^ 63"
  shows "parse_i64 (show_int i) = Some i"
proof (cases "i < 0")
  case True
  have "list_all is_digit (show_nat (nat (- i)))" using show_nat_digits by (auto simp: list_all_iff)
  with True assms show ?thesis by (simp add: parse_i64_def show_int_def read_show_nat Let_def)
next
  case False
  obtain c cs where c: "show_nat (nat i) = c # cs" "is_digit c" using show_nat_hd_digit by blast
  then have "c \<noteq> CHR ''-''" "c \<noteq> CHR ''+''" by (auto simp: is_digit_def code_of_def)
  moreover have "list_all is_digit (c # cs)" using show_nat_digits [of _ "nat i"] c by (auto simp: list_all_iff)
  moreover have "read_nat (c # cs) = nat i" using read_show_nat [of "nat i"] c by simp
  ultimately show ?thesis using False assms c by (simp add: parse_i64_def show_int_def Let_def)
qed

lemma show_int_no_dot: "CHR ''.'' \<notin> set (show_int i)"
proof -
  have "\<not> is_digit (CHR ''.'')" by (simp add: is_digit_def code_of_def)
  then show ?thesis by (auto simp: show_int_def dest: show_nat_digits)
qed

subsection \<open>Integers\<close>

definition clamp :: "int \<Rightarrow> int \<Rightarrow> int \<Rightarrow> int" where
  "clamp lo hi x = (if x < lo then lo else if hi < x then hi else x)"

lemma clamp_bounds: "lo \<le> hi \<Longrightarrow> lo \<le> clamp lo hi x \<and> clamp lo hi x \<le> hi"
  by (auto simp: clamp_def)

subsection \<open>Tables\<close>

text \<open>
  A table is the list of its rows in insertion order. \<open>update_where\<close> is the effect of an
  \<open>UPDATE\<close>, \<open>filter\<close> of a \<open>DELETE\<close> or a \<open>WHERE\<close>, \<open>List.find\<close> of a lookup by a unique key.
\<close>

definition update_where :: "('a \<Rightarrow> bool) \<Rightarrow> ('a \<Rightarrow> 'a) \<Rightarrow> 'a list \<Rightarrow> 'a list" where
  "update_where P f xs = map (\<lambda>x. if P x then f x else x) xs"

lemma length_update_where [simp]: "length (update_where P f xs) = length xs"
  by (simp add: update_where_def)

lemma update_where_Nil [simp]: "update_where P f [] = []"
  by (simp add: update_where_def)

lemma update_where_Cons [simp]:
  "update_where P f (x # xs) = (if P x then f x else x) # update_where P f xs"
  by (simp add: update_where_def)

lemma map_update_where [table_simps]:
  "(\<And>x. P x \<Longrightarrow> g (f x) = g x) \<Longrightarrow> map g (update_where P f xs) = map g xs"
  by (induction xs) auto

lemma set_update_where:
  "y \<in> set (update_where P f xs) \<longleftrightarrow>
     (\<exists>x \<in> set xs. y = (if P x then f x else x))"
  by (auto simp: update_where_def)

lemma update_where_noop: "(\<And>x. x \<in> set xs \<Longrightarrow> \<not> P x) \<Longrightarrow> update_where P f xs = xs"
  by (induction xs) auto

lemma find_update_where:
  "(\<And>x. P x \<Longrightarrow> Q (f x) = Q x) \<Longrightarrow>
   List.find Q (update_where P f xs) =
     map_option (\<lambda>x. if P x then f x else x) (List.find Q xs)"
  by (induction xs) auto

lemma find_update_where_on:
  "(\<And>x. x \<in> set xs \<Longrightarrow> P x \<Longrightarrow> Q (f x) = Q x) \<Longrightarrow>
   List.find Q (update_where P f xs) =
     map_option (\<lambda>x. if P x then f x else x) (List.find Q xs)"
  by (induction xs) auto

lemma map_update_where_on:
  "(\<And>x. x \<in> set xs \<Longrightarrow> P x \<Longrightarrow> g (f x) = g x) \<Longrightarrow> map g (update_where P f xs) = map g xs"
  by (induction xs) auto

lemma find_append [table_simps]:
  "List.find P (xs @ ys) = (case List.find P xs of None \<Rightarrow> List.find P ys | Some x \<Rightarrow> Some x)"
  by (induction xs) auto

lemma find_Some_set: "List.find P xs = Some x \<Longrightarrow> x \<in> set xs \<and> P x"
  by (induction xs) (auto split: if_splits)

lemma find_None_iff_set: "List.find P xs = None \<longleftrightarrow> (\<forall>x \<in> set xs. \<not> P x)"
  by (induction xs) auto

lemma find_filter: "List.find P (filter Q xs) = List.find (\<lambda>x. Q x \<and> P x) xs"
  by (induction xs) auto

lemma find_cong_set:
  "(\<And>x. x \<in> set xs \<Longrightarrow> P x = Q x) \<Longrightarrow> List.find P xs = List.find Q xs"
  by (induction xs) auto

lemma find_unique:
  assumes "distinct (map key xs)" and "x \<in> set xs" and "key x = k"
  shows "List.find (\<lambda>y. key y = k) xs = Some x"
  using assms by (induction xs) (auto simp: rev_image_eqI)

lemma find_key_conj:
  assumes "distinct (map key xs)"
  shows "List.find (\<lambda>y. key y = k \<and> Q y) xs =
    (case List.find (\<lambda>y. key y = k) xs of None \<Rightarrow> None | Some y \<Rightarrow> if Q y then Some y else None)"
  using assms
proof (induction xs)
  case (Cons x xs)
  show ?case
  proof (cases "key x = k")
    case True
    with Cons.prems have "List.find (\<lambda>y. key y = k \<and> Q y) xs = None"
      by (auto simp: find_None_iff_set image_iff)
    with True show ?thesis by simp
  next
    case False
    with Cons show ?thesis by simp
  qed
qed simp

lemma find_key_filter:
  assumes "distinct (map key xs)"
  shows "List.find (\<lambda>y. key y = k) (filter Q xs) =
    (case List.find (\<lambda>y. key y = k) xs of None \<Rightarrow> None | Some y \<Rightarrow> if Q y then Some y else None)"
  using find_key_conj [OF assms, of k Q] by (simp add: find_filter conj_commute)

lemma set_tl_subset: "set (tl xs) \<subseteq> set xs"
  by (cases xs) auto

lemma distinct_map_filter: "distinct (map f xs) \<Longrightarrow> distinct (map f (filter P xs))"
  by (induction xs) auto

lemma distinct_key_eq:
  "distinct (map key xs) \<Longrightarrow> x \<in> set xs \<Longrightarrow> y \<in> set xs \<Longrightarrow> key x = key y \<Longrightarrow> x = y"
  by (metis distinct_map inj_onD)

text \<open>Stable sorting, the meaning given to \<open>ORDER BY\<close>: equal keys stay in table order.\<close>

definition order_by :: "('a \<Rightarrow> 'k::linorder) \<Rightarrow> 'a list \<Rightarrow> 'a list" where
  "order_by k xs = sort_key k xs"

lemma set_order_by [simp]: "set (order_by k xs) = set xs"
  by (simp add: order_by_def)

lemma length_order_by [simp]: "length (order_by k xs) = length xs"
  by (simp add: order_by_def)

lemma order_by_Nil [simp]: "order_by k [] = []"
  by (simp add: order_by_def)

lemma order_by_Nil_iff [simp]: "order_by k xs = [] \<longleftrightarrow> xs = []"
  by (metis length_0_conv length_order_by)

lemma sorted_order_by: "sorted (map k (order_by k xs))"
  by (simp add: order_by_def)

lemma order_by_hd_least:
  "order_by k xs = x # ys \<Longrightarrow> y \<in> set xs \<Longrightarrow> k x \<le> k y"
  by (metis list.set_intros list.simps(9) set_ConsD set_order_by sorted_simps(2) sorted_order_by
      imageI list.set_map order_refl)

end
