(* ===== verification/Errors.thy ===== *)
theory Errors
  imports Prelude "HOL-Library.Word"
begin

text \<open>
  The error type of the store layer (\<open>error.rs\<close>) and the results of the handlers.

  \<open>BusError\<close> carries a prose message built with \<open>format!\<close>. The model keeps one constructor
  of a \<open>why\<close> type per place where the source builds an error, with the values interpolated into
  the message; the fixed English text around them is not modelled. \<open>Db\<close> carries no detail,
  as the source never shows it to a caller.
\<close>

type_synonym uuid = "128 word"
  \<comment> \<open>compared by value, which is the byte order of \<open>Uuid\<close>\<close>
text \<open>Evaluation of small literals of a wide word type.\<close>

lemma take_bit_int_small [code]:
  "take_bit n (k :: int) = (if 32 \<le> n \<and> 0 \<le> k \<and> k < 4294967296 then k else k mod 2 ^ n)"
proof (cases "32 \<le> n \<and> 0 \<le> k \<and> k < 4294967296")
  case True
  have "(2::int) ^ 32 \<le> 2 ^ n" using True by (intro power_increasing) auto
  with True show ?thesis by (simp add: take_bit_int_eq_self)
next
  case False
  then show ?thesis by (simp only: if_False take_bit_eq_mod)
qed

type_synonym timestamp = int
  \<comment> \<open>microseconds since the epoch, the resolution of \<open>timestamptz\<close>\<close>

definition seconds :: "int \<Rightarrow> timestamp" where
  "seconds n = n * 1000000"

lemma seconds_less_iff [simp]: "seconds a < seconds b \<longleftrightarrow> a < b"
  by (simp add: seconds_def)

lemma seconds_le_iff [simp]: "seconds a \<le> seconds b \<longleftrightarrow> a \<le> b"
  by (simp add: seconds_def)

lemma seconds_pos: "0 < n \<Longrightarrow> 0 < seconds n"
  by (simp add: seconds_def)

datatype task_status = Open | Claimed | Done | Cancelled

datatype session_why =
    SessionTooLong nat
  | SessionNotAscii
  | SessionControl
  | SessionTemplate
  | SessionSlash

text \<open>\<open>holder_reason\<close>: the holder is another session of the caller, or somebody else.\<close>

datatype holder_why =
    OwnOtherSession "string option" "int option"
  | HeldByOther string "string option" "int option"

text \<open>The reasons, by the module of \<open>src/store\<close> that gives them.\<close>

datatype text_why =
    MetadataUnserialisable string
  | MetadataTooLarge string nat
  | TextTooLong string nat nat
  | QueryEmpty
  | NoAgent string
  | NoChannel string
  | NoAuthContext

datatype task_why =
    TaskKeyEmpty
  | TaskKeyTooLong
  | TaskTitleEmpty
  | TaskExists string
  | TooManyDependencies nat
  | SelfDependency
  | DependencyMissing string
  | NoTask string
  | BadTaskStatus
  | NotYourClaim string holder_why
  | NoActiveClaim string "task_status option"
  | TaskAlready string task_status

datatype lock_why =
    LockNameEmpty
  | LockNameTooLong
  | LockHeldByOwnSession string "string option"
  | LockHeldBy string string "string option"

datatype note_why =
    NoteKeyEmpty
  | NoteTooLong nat
  | TooManyTags nat
  | NoteVanished

datatype message_why =
    ChannelNameEmpty
  | ChannelNameTooLong
  | AddressWithoutAgent
  | AddressBadSession string session_why
  | AddressEmptySession string string
  | BodyEmpty
  | BodyTooLong nat
  | AnnounceOnDirect
  | ChannelAndTo
  | NoTarget
  | NoDefaultChannel string
  | AddressIsSelf
  | NoMessage int
  | NotYourQuestion int
  | QuestionMissing
  | NobodyToAnswer

datatype file_why =
    FilenameEmpty
  | FilenameTooLong
  | BadBase64 string
  | AttachmentEmpty string
  | AttachmentTooLarge string nat
  | TooManyAttachments
  | TaskAttachmentsFull string
  | MessageAttachmentsFull int
  | NotYourMessage
  | NoAttachment int
  | TaskXorMessage
  | QuotaExceeded int int int

datatype admin_why =
    PruneWindowTooSmall
  | PruneWindowTooLarge int
  | BadPresenceStatus

datatype why =
    TextWhy text_why
  | TaskWhy task_why
  | LockWhy lock_why
  | NoteWhy note_why
  | MessageWhy message_why
  | FileWhy file_why
  | AdminWhy admin_why

datatype bus_error =
    NotFound why
  | Invalid why
  | Conflict why
  | Unauthenticated why
  | Db

type_synonym 'a bus_result = "bus_error + 'a"

text \<open>
  \<open>From<BusError> for ErrorData\<close>: which of rmcp's three error codes a caller sees, and
  whether the detail goes with it.
\<close>

datatype error_code = InvalidParams | InvalidRequest | InternalError

fun to_error_data :: "bus_error \<Rightarrow> error_code \<times> why option" where
  "to_error_data (NotFound m) = (InvalidParams, Some m)"
| "to_error_data (Invalid m) = (InvalidParams, Some m)"
| "to_error_data (Conflict m) = (InvalidParams, Some m)"
| "to_error_data (Unauthenticated m) = (InvalidRequest, Some m)"
| "to_error_data Db = (InternalError, None)"

lemma to_error_data_internal_iff: "fst (to_error_data e) = InternalError \<longleftrightarrow> e = Db"
  by (cases e) auto

lemma to_error_data_hides_db: "snd (to_error_data e) = None \<longleftrightarrow> e = Db"
  by (cases e) auto

subsection \<open>Results\<close>

text \<open>\<open>ok_or\<close> and the \<open>?\<close> operator on pure results.\<close>

definition ok_or :: "'a option \<Rightarrow> bus_error \<Rightarrow> 'a bus_result" where
  "ok_or m e = (case m of None \<Rightarrow> Inl e | Some a \<Rightarrow> Inr a)"

definition and_then :: "'a bus_result \<Rightarrow> ('a \<Rightarrow> 'b bus_result) \<Rightarrow> 'b bus_result" where
  "and_then r f = (case r of Inl e \<Rightarrow> Inl e | Inr a \<Rightarrow> f a)"

lemma and_then_simps [simp]: "and_then (Inl e) f = Inl e" "and_then (Inr a) f = f a"
  by (simp_all add: and_then_def)

lemma and_then_Inr: "and_then r f = Inr b \<longleftrightarrow> (\<exists>a. r = Inr a \<and> f a = Inr b)"
  by (cases r) auto

lemma ok_or_Inr [simp]: "ok_or m e = Inr a \<longleftrightarrow> m = Some a"
  by (cases m) (auto simp: ok_or_def)

lemma ok_or_simps [simp]: "ok_or None e = Inl e" "ok_or (Some a) e = Inr a"
  by (simp_all add: ok_or_def)

fun map_results :: "('a \<Rightarrow> 'b bus_result) \<Rightarrow> 'a list \<Rightarrow> 'b list bus_result" where
  "map_results f [] = Inr []"
| "map_results f (x # xs) = and_then (f x) (\<lambda>y. and_then (map_results f xs) (\<lambda>ys. Inr (y # ys)))"

lemma map_results_Inr_length: "map_results f xs = Inr ys \<Longrightarrow> length ys = length xs"
  by (induction xs arbitrary: ys) (auto simp: and_then_Inr)

end
