(* ===== verification/Schema.thy ===== *)
theory Schema
  imports Errors
begin

text \<open>
  The state the program keeps: the tables of \<open>migrations/*.sql\<close> as lists of row records
  (insertion order), the sequences behind the \<open>BIGSERIAL\<close> keys, and the log of
  \<open>pg_notify\<close> payloads. Then the caller's identity (\<open>AuthCtx\<close>), the functions of
  third-party code the source calls (\<open>externals\<close>), and the triggers that publish events
  and enqueue webhook deliveries.
\<close>

subsection \<open>JSON values\<close>

datatype json =
    JNull
  | JBool bool
  | JNum int
  | JStr string
  | JArr "json list"
  | JObj "(string \<times> json) list"

fun json_get :: "json \<Rightarrow> string \<Rightarrow> json option" where
  "json_get (JObj kvs) k = map_of kvs k"
| "json_get _ k = None"

fun as_str :: "json \<Rightarrow> string option" where
  "as_str (JStr s) = Some s"
| "as_str _ = None"

fun as_i64 :: "json \<Rightarrow> int option" where
  "as_i64 (JNum i) = Some i"
| "as_i64 _ = None"

fun as_bool :: "json \<Rightarrow> bool option" where
  "as_bool (JBool b) = Some b"
| "as_bool _ = None"

definition json_opt :: "('a \<Rightarrow> json) \<Rightarrow> 'a option \<Rightarrow> json" where
  "json_opt f m = (case m of None \<Rightarrow> JNull | Some a \<Rightarrow> f a)"

lemma json_opt_simps [simp]: "json_opt f None = JNull" "json_opt f (Some a) = f a"
  by (simp_all add: json_opt_def)

subsection \<open>Tables\<close>

record team_row =
  tm_id :: uuid
  tm_slug :: string
  tm_name :: string
  tm_limit :: "int option"

record agent_row =
  ag_id :: uuid
  ag_team :: uuid
  ag_name :: string
  ag_display :: "string option"
  ag_disabled :: "timestamp option"

record token_row =
  tk_id :: uuid
  tk_agent :: uuid
  tk_hash :: string
  tk_prefix :: string
  tk_label :: "string option"
  tk_created :: timestamp
  tk_last_used :: "timestamp option"
  tk_revoked :: "timestamp option"

record presence_row =
  pr_agent :: uuid
  pr_session :: string
  pr_status :: string
  pr_repo :: "string option"
  pr_branch :: "string option"
  pr_activity :: "string option"
  pr_updated :: timestamp
  pr_expires :: timestamp

record channel_row =
  ch_id :: uuid
  ch_team :: uuid
  ch_name :: string
  ch_topic :: "string option"
  ch_created_by :: "uuid option"
  ch_created :: timestamp

record message_row =
  ms_id :: int
  ms_team :: uuid
  ms_channel :: "uuid option"
  ms_recipient :: "uuid option"
  ms_recipient_session :: "string option"
  ms_sender :: uuid
  ms_sender_session :: "string option"
  ms_announce :: bool
  ms_body :: string
  ms_reply_to :: "int option"
  ms_metadata :: json
  ms_created :: timestamp

record cursor_row =
  rc_agent :: uuid
  rc_scope :: string
  rc_last :: int

record task_row =
  ts_id :: uuid
  ts_team :: uuid
  ts_key :: string
  ts_title :: string
  ts_description :: "string option"
  ts_status :: task_status
  ts_claimed_by :: "uuid option"
  ts_claimed_session :: "string option"
  ts_claimed_at :: "timestamp option"
  ts_lease :: "timestamp option"
  ts_result :: "string option"
  ts_metadata :: json
  ts_created_by :: "uuid option"
  ts_created :: timestamp
  ts_updated :: timestamp

record event_row =
  te_id :: int
  te_task :: uuid
  te_agent :: "uuid option"
  te_event :: string
  te_detail :: "string option"
  te_created :: timestamp

record note_row =
  nt_id :: uuid
  nt_team :: uuid
  nt_scope :: string
  nt_key :: string
  nt_value :: string
  nt_tags :: "string list"
  nt_updated_by :: "uuid option"
  nt_updated :: timestamp

record revision_row =
  rv_id :: int
  rv_note :: uuid
  rv_value :: string
  rv_updated_by :: "uuid option"
  rv_created :: timestamp

record lock_row =
  lk_team :: uuid
  lk_name :: string
  lk_holder :: uuid
  lk_session :: "string option"
  lk_purpose :: "string option"
  lk_acquired :: timestamp
  lk_expires :: timestamp

record attachment_row =
  at_id :: int
  at_team :: uuid
  at_message :: "int option"
  at_task :: "uuid option"
  at_uploader :: uuid
  at_filename :: string
  at_type :: string
  at_size :: int
  at_data :: string
  at_created :: timestamp

record webhook_row =
  wh_id :: uuid
  wh_team :: uuid
  wh_url :: string
  wh_kind :: string
  wh_events :: "string list"
  wh_channel :: "string option"
  wh_enabled :: bool

datatype delivery_status = Pending | Sent | Failed

record delivery_row =
  dl_id :: int
  dl_webhook :: uuid
  dl_team :: uuid
  dl_kind :: string
  dl_summary :: string
  dl_payload :: json
  dl_status :: delivery_status
  dl_attempts :: int
  dl_next :: timestamp
  dl_error :: "string option"
  dl_updated :: timestamp

record db =
  teams :: "team_row list"
  agents :: "agent_row list"
  tokens :: "token_row list"
  presences :: "presence_row list"
  channels :: "channel_row list"
  messages :: "message_row list"
  cursors :: "cursor_row list"
  tasks :: "task_row list"
  task_deps :: "(uuid \<times> uuid) list"
  task_events :: "event_row list"
  note_table :: "note_row list"
  revisions :: "revision_row list"
  locks :: "lock_row list"
  attachments :: "attachment_row list"
  webhooks :: "webhook_row list"
  deliveries :: "delivery_row list"
  notified :: "json list"
  message_seq :: int
  event_seq :: int
  revision_seq :: int
  attachment_seq :: int
  delivery_seq :: int

definition empty_db :: db where
  "empty_db = \<lparr> teams = [], agents = [], tokens = [], presences = [], channels = [],
     messages = [], cursors = [], tasks = [], task_deps = [], task_events = [], note_table = [],
     revisions = [], locks = [], attachments = [], webhooks = [], deliveries = [],
     notified = [], message_seq = 1, event_seq = 1, revision_seq = 1, attachment_seq = 1,
     delivery_seq = 1 \<rparr>"

subsection \<open>The caller\<close>

record auth_ctx =
  agent_id :: uuid
  agent_name :: string
  team_id :: uuid
  team_slug :: string
  session :: string

text \<open>\<open>COALESCE(x, '')\<close>: a missing session is the shared one.\<close>

definition coalesce :: "string option \<Rightarrow> string" where
  "coalesce m = (case m of None \<Rightarrow> [] | Some s \<Rightarrow> s)"

lemma coalesce_simps [simp]: "coalesce None = []" "coalesce (Some s) = s"
  by (simp_all add: coalesce_def)

text \<open>\<open>filter(|s| !s.is_empty())\<close> on an optional string.\<close>

definition non_empty :: "string option \<Rightarrow> string option" where
  "non_empty m = (case m of None \<Rightarrow> None | Some s \<Rightarrow> if s = [] then None else Some s)"

lemma non_empty_simps [simp]:
  "non_empty None = None" "non_empty (Some []) = None" "s \<noteq> [] \<Longrightarrow> non_empty (Some s) = Some s"
  by (simp_all add: non_empty_def)

lemma coalesce_non_empty [simp]: "coalesce (non_empty m) = coalesce m"
  by (cases m) (auto simp: non_empty_def)

text \<open>
  \<open>COALESCE(EXCLUDED.c, old.c)\<close>: an omitted value keeps the old one.
\<close>

definition or_keep :: "'a option \<Rightarrow> 'a option \<Rightarrow> 'a option" where
  "or_keep new old = (case new of None \<Rightarrow> old | Some a \<Rightarrow> Some a)"

lemma or_keep_simps [simp]:
  "or_keep None old = old" "or_keep (Some a) old = Some a" "or_keep new None = new"
  by (simp_all add: or_keep_def split: option.splits)

subsection \<open>Third-party functions\<close>

text \<open>
  What the source takes from crates and from Postgres beyond SQL itself. The model's
  definitions take them as one argument; a theorem that relies on their documented
  behaviour says so in a hypothesis.
\<close>

record externals =
  uuid_text :: "uuid \<Rightarrow> string"            \<comment> \<open>\<open>Uuid\<close>'s \<open>Display\<close>, and \<open>uuid::text\<close> in Postgres\<close>
  uuid_parse :: "string \<Rightarrow> uuid option"    \<comment> \<open>\<open>Uuid::parse_str\<close>\<close>
  json_size :: "json \<Rightarrow> nat option"        \<comment> \<open>\<open>serde_json::to_vec(v).len()\<close>\<close>
  b64_decode :: "string \<Rightarrow> string option"  \<comment> \<open>\<open>base64\<close> crate, standard alphabet\<close>
  b64_encode :: "string \<Rightarrow> string"
  sha256 :: "string \<Rightarrow> string"             \<comment> \<open>\<open>sha2\<close> crate\<close>
  hex_encode :: "string \<Rightarrow> string"         \<comment> \<open>\<open>hex\<close> crate\<close>
  hex_decode :: "string \<Rightarrow> string option"
  header_str :: "string \<Rightarrow> string option"  \<comment> \<open>\<open>HeaderValue::to_str\<close>\<close>
  text_match :: "string \<Rightarrow> string \<Rightarrow> bool" \<comment> \<open>\<open>to_tsvector('simple', doc) @@ plainto_tsquery('simple', q)\<close>\<close>

definition uuid_roundtrip :: "externals \<Rightarrow> bool" where
  "uuid_roundtrip x \<longleftrightarrow> (\<forall>u. uuid_parse x (uuid_text x u) = Some u)"

subsection \<open>Lookups\<close>

definition agent_name_of :: "db \<Rightarrow> uuid \<Rightarrow> string option" where
  "agent_name_of d a = map_option ag_name (List.find (\<lambda>r. ag_id r = a) (agents d))"

definition channel_name_of :: "db \<Rightarrow> uuid \<Rightarrow> string option" where
  "channel_name_of d c = map_option ch_name (List.find (\<lambda>r. ch_id r = c) (channels d))"

fun status_name :: "task_status \<Rightarrow> string" where
  "status_name Open = ''open''"
| "status_name Claimed = ''claimed''"
| "status_name Done = ''done''"
| "status_name Cancelled = ''cancelled''"

lemma status_name_inject [simp]: "status_name a = status_name b \<longleftrightarrow> a = b"
  by (cases a; cases b) auto

subsection \<open>Triggers\<close>

text \<open>
  \<open>enqueue_webhook_deliveries\<close> (migration 0005): one pending delivery per enabled webhook
  of the team that subscribes to the kind and, for a message, whose channel filter matches.
\<close>

definition webhook_matches :: "uuid \<Rightarrow> string \<Rightarrow> string option \<Rightarrow> webhook_row \<Rightarrow> bool" where
  "webhook_matches team kind channel w \<longleftrightarrow>
     wh_team w = team \<and> wh_enabled w \<and> kind \<in> set (wh_events w) \<and>
     (kind \<noteq> ''message'' \<or> wh_channel w = None
        \<or> (channel \<noteq> None \<and> wh_channel w = channel))"

definition new_delivery ::
  "timestamp \<Rightarrow> uuid \<Rightarrow> string \<Rightarrow> string \<Rightarrow> json \<Rightarrow> int \<Rightarrow> webhook_row \<Rightarrow> delivery_row" where
  "new_delivery now team kind summary payload i w =
     \<lparr> dl_id = i, dl_webhook = wh_id w, dl_team = team, dl_kind = kind, dl_summary = summary,
       dl_payload = payload, dl_status = Pending, dl_attempts = 0, dl_next = now,
       dl_error = None, dl_updated = now \<rparr>"

fun add_deliveries ::
  "timestamp \<Rightarrow> uuid \<Rightarrow> string \<Rightarrow> string \<Rightarrow> json \<Rightarrow> webhook_row list \<Rightarrow> db \<Rightarrow> db" where
  "add_deliveries now team kind summary payload [] d = d"
| "add_deliveries now team kind summary payload (w # ws) d =
     add_deliveries now team kind summary payload ws
       (d\<lparr>deliveries := deliveries d @ [new_delivery now team kind summary payload (delivery_seq d) w],
          delivery_seq := delivery_seq d + 1\<rparr>)"

definition enqueue_deliveries ::
  "timestamp \<Rightarrow> uuid \<Rightarrow> string \<Rightarrow> string \<Rightarrow> json \<Rightarrow> string option \<Rightarrow> db \<Rightarrow> db" where
  "enqueue_deliveries now team kind summary payload channel d =
     add_deliveries now team kind summary payload
       (filter (webhook_matches team kind channel) (webhooks d)) d"

definition publish :: "json \<Rightarrow> db \<Rightarrow> db" where
  "publish payload d = d\<lparr>notified := notified d @ [payload]\<rparr>"

text \<open>\<open>notify_message\<close> (migration 0010) and \<open>enqueue_message_webhook\<close> (0005).\<close>

definition message_payload :: "externals \<Rightarrow> message_row \<Rightarrow> json" where
  "message_payload x m = JObj
     [(''kind'', JStr ''message''),
      (''team_id'', JStr (uuid_text x (ms_team m))),
      (''id'', JNum (ms_id m)),
      (''channel_id'', json_opt (JStr \<circ> uuid_text x) (ms_channel m)),
      (''recipient_agent_id'', json_opt (JStr \<circ> uuid_text x) (ms_recipient m)),
      (''recipient_session'', json_opt JStr (ms_recipient_session m)),
      (''sender_agent_id'', JStr (uuid_text x (ms_sender m))),
      (''sender_session'', json_opt JStr (ms_sender_session m)),
      (''announce'', JBool (ms_announce m))]"

definition enqueue_message_webhook :: "timestamp \<Rightarrow> message_row \<Rightarrow> db \<Rightarrow> db" where
  "enqueue_message_webhook now m d =
     (if ms_recipient m \<noteq> None then d
      else
        let sender = coalesce (agent_name_of d (ms_sender m));
            channel = Option.bind (ms_channel m) (channel_name_of d);
            body = take 500 (ms_body m)
        in enqueue_deliveries now (ms_team m) ''message''
             (''#'' @ coalesce channel @ '' '' @ sender @ '': '' @ body)
             (JObj [(''kind'', JStr ''message''), (''channel'', json_opt JStr channel),
                    (''from'', JStr sender), (''body'', JStr body)])
             channel d)"

definition fire_message :: "externals \<Rightarrow> timestamp \<Rightarrow> message_row \<Rightarrow> db \<Rightarrow> db" where
  "fire_message x now m d = publish (message_payload x m) (enqueue_message_webhook now m d)"

text \<open>\<open>notify_task\<close> (0002) and \<open>enqueue_task_webhook\<close> (0005).\<close>

definition task_payload :: "externals \<Rightarrow> task_row \<Rightarrow> json" where
  "task_payload x t = JObj
     [(''kind'', JStr ''task''),
      (''team_id'', JStr (uuid_text x (ts_team t))),
      (''key'', JStr (ts_key t)),
      (''status'', JStr (status_name (ts_status t))),
      (''claimed_by'', json_opt (JStr \<circ> uuid_text x) (ts_claimed_by t))]"

definition by_holder :: "string option \<Rightarrow> string" where
  "by_holder h = (case h of None \<Rightarrow> [] | Some n \<Rightarrow> '' by '' @ n)"

definition enqueue_task_webhook :: "timestamp \<Rightarrow> task_row option \<Rightarrow> task_row \<Rightarrow> db \<Rightarrow> db" where
  "enqueue_task_webhook now old new d =
     (if map_option ts_status old = Some (ts_status new) then d
      else
        let holder = Option.bind (ts_claimed_by new) (agent_name_of d)
        in enqueue_deliveries now (ts_team new) ''task''
             (''task '' @ ts_key new @ '' is now '' @ status_name (ts_status new) @ by_holder holder)
             (JObj [(''kind'', JStr ''task''), (''key'', JStr (ts_key new)),
                    (''title'', JStr (ts_title new)),
                    (''status'', JStr (status_name (ts_status new))),
                    (''claimed_by'', json_opt JStr holder)])
             None d)"

definition fire_task :: "externals \<Rightarrow> timestamp \<Rightarrow> task_row option \<Rightarrow> task_row \<Rightarrow> db \<Rightarrow> db" where
  "fire_task x now old new d = publish (task_payload x new) (enqueue_task_webhook now old new d)"

text \<open>\<open>notify_lock\<close> (0002) and \<open>enqueue_lock_webhook\<close> (0005): no webhook on an update.\<close>

datatype row_op = Inserted | Updated | Deleted

definition lock_payload :: "externals \<Rightarrow> row_op \<Rightarrow> lock_row \<Rightarrow> json" where
  "lock_payload x op l =
     (if op = Deleted
      then JObj [(''kind'', JStr ''lock''), (''event'', JStr ''released''),
                 (''team_id'', JStr (uuid_text x (lk_team l))), (''name'', JStr (lk_name l))]
      else JObj [(''kind'', JStr ''lock''), (''event'', JStr ''acquired''),
                 (''team_id'', JStr (uuid_text x (lk_team l))), (''name'', JStr (lk_name l)),
                 (''holder_agent_id'', JStr (uuid_text x (lk_holder l)))])"

definition enqueue_lock_webhook :: "timestamp \<Rightarrow> row_op \<Rightarrow> lock_row \<Rightarrow> db \<Rightarrow> db" where
  "enqueue_lock_webhook now op l d =
     (if op = Updated then d
      else
        let event = (if op = Deleted then ''released'' else ''acquired'');
            holder = agent_name_of d (lk_holder l)
        in enqueue_deliveries now (lk_team l) ''lock''
             (''lock '' @ lk_name l @ '' '' @ event @ by_holder holder)
             (JObj [(''kind'', JStr ''lock''), (''name'', JStr (lk_name l)),
                    (''event'', JStr event), (''holder'', json_opt JStr holder)])
             None d)"

definition fire_lock :: "externals \<Rightarrow> timestamp \<Rightarrow> row_op \<Rightarrow> lock_row \<Rightarrow> db \<Rightarrow> db" where
  "fire_lock x now op l d = publish (lock_payload x op l) (enqueue_lock_webhook now op l d)"

text \<open>\<open>notify_note\<close> (0002) and \<open>enqueue_note_webhook\<close> (0005).\<close>

definition note_payload :: "externals \<Rightarrow> note_row \<Rightarrow> json" where
  "note_payload x n = JObj
     [(''kind'', JStr ''note''),
      (''team_id'', JStr (uuid_text x (nt_team n))),
      (''scope'', JStr (nt_scope n)),
      (''key'', JStr (nt_key n)),
      (''updated_by'', json_opt (JStr \<circ> uuid_text x) (nt_updated_by n))]"

definition fire_note :: "externals \<Rightarrow> timestamp \<Rightarrow> note_row \<Rightarrow> db \<Rightarrow> db" where
  "fire_note x now n d =
     publish (note_payload x n)
       (enqueue_deliveries now (nt_team n) ''note''
          (''note '' @ nt_scope n @ ''/'' @ nt_key n @ '' was updated'')
          (JObj [(''kind'', JStr ''note''), (''scope'', JStr (nt_scope n)),
                 (''key'', JStr (nt_key n))])
          None d)"

subsection \<open>What triggers leave alone\<close>

text \<open>
  A trigger writes the notification log and the delivery outbox only. \<open>same_core d e\<close>
  says that all other tables agree.
\<close>

definition core :: "db \<Rightarrow> db" where
  "core d = d\<lparr>notified := [], deliveries := [], delivery_seq := 0\<rparr>"

lemma core_publish [simp]: "core (publish p d) = core d"
  by (simp add: core_def publish_def)

lemma core_add_deliveries [simp]: "core (add_deliveries now team kind s p ws d) = core d"
  by (induction ws arbitrary: d) (simp_all add: core_def)

lemma core_enqueue [simp]: "core (enqueue_deliveries now team kind s p c d) = core d"
  by (simp add: enqueue_deliveries_def)

lemma core_fire [simp]:
  "core (fire_message x now m d) = core d"
  "core (fire_task x now old t d) = core d"
  "core (fire_lock x now op l d) = core d"
  "core (fire_note x now n d) = core d"
  by (simp_all add: fire_message_def fire_task_def fire_lock_def fire_note_def Let_def
      enqueue_message_webhook_def enqueue_task_webhook_def enqueue_lock_webhook_def)

lemma core_eqD:
  assumes "core d = core e"
  shows "teams d = teams e" "agents d = agents e" "tokens d = tokens e"
    "presences d = presences e" "channels d = channels e" "messages d = messages e"
    "cursors d = cursors e" "tasks d = tasks e" "task_deps d = task_deps e"
    "task_events d = task_events e" "note_table d = note_table e" "revisions d = revisions e"
    "locks d = locks e" "attachments d = attachments e" "webhooks d = webhooks e"
    "message_seq d = message_seq e" "event_seq d = event_seq e"
    "revision_seq d = revision_seq e" "attachment_seq d = attachment_seq e"
  using assms by (cases d; cases e; simp add: core_def)+

lemmas fire_message_frame [simp] = core_eqD [OF core_fire(1)]
lemmas fire_task_frame [simp] = core_eqD [OF core_fire(2)]
lemmas fire_lock_frame [simp] = core_eqD [OF core_fire(3)]
lemmas fire_note_frame [simp] = core_eqD [OF core_fire(4)]

end
