(* ===== verification/Store_Monad.thy ===== *)
theory Store_Monad
  imports Schema
begin

text \<open>
  A handler of \<open>src/store\<close> is a computation over a connection: it runs SQL statements one
  after another and returns a value or a \<^typ>\<open>bus_error\<close>.

  A connection holds the database, the clock and a schedule. Each statement consumes one
  \<open>tick\<close> of the schedule: time passes, the other sessions of the bus do something to the
  database, and the statement itself may fail (\<open>sqlx::Error\<close>). The empty schedule is the
  quiet case: no time passes, nobody else is active, nothing fails. \<open>now()\<close> is the clock
  at the statement, or at the start of the transaction.
\<close>

record tick =
  fails :: bool
  takes :: nat
  others :: "db \<Rightarrow> db"

record conn =
  data :: db
  clock :: timestamp
  sched :: "tick list"

type_synonym 'a io = "conn \<Rightarrow> 'a bus_result \<times> conn"

definition next_tick :: "conn \<Rightarrow> bool \<times> conn" where
  "next_tick c = (case sched c of
       [] \<Rightarrow> (False, c)
     | t # ts \<Rightarrow> (fails t, c\<lparr>sched := ts, clock := clock c + int (takes t), data := others t (data c)\<rparr>))"

text \<open>One statement. \<open>None\<close> is a constraint violation or a missing row of \<open>fetch_one\<close>.\<close>

definition sql :: "(timestamp \<Rightarrow> db \<Rightarrow> ('a \<times> db) option) \<Rightarrow> 'a io" where
  "sql f c = (let (failed, c1) = next_tick c in
     if failed then (Inl Db, c1)
     else (case f (clock c1) (data c1) of
         None \<Rightarrow> (Inl Db, c1)
       | Some (a, d) \<Rightarrow> (Inr a, c1\<lparr>data := d\<rparr>)))"

definition query :: "(timestamp \<Rightarrow> db \<Rightarrow> 'a) \<Rightarrow> 'a io" where
  "query f = sql (\<lambda>now d. Some (f now d, d))"

definition execute :: "(timestamp \<Rightarrow> db \<Rightarrow> 'a \<times> db) \<Rightarrow> 'a io" where
  "execute f = sql (\<lambda>now d. Some (f now d))"

definition ret :: "'a \<Rightarrow> 'a io" where
  "ret a c = (Inr a, c)"

definition raise :: "bus_error \<Rightarrow> 'a io" where
  "raise e c = (Inl e, c)"

definition lift :: "'a bus_result \<Rightarrow> 'a io" where
  "lift r c = (r, c)"

text \<open>The \<open>?\<close> operator: go on with the value, return early with the error.\<close>

definition bind_io :: "'a io \<Rightarrow> ('a \<Rightarrow> 'b io) \<Rightarrow> 'b io" where
  "bind_io m f c = (case m c of (Inl e, c1) \<Rightarrow> (Inl e, c1) | (Inr a, c1) \<Rightarrow> f a c1)"

text \<open>\<open>let _ = \<dots>\<close> and \<open>unwrap_or\<close>: the error is dropped.\<close>

definition attempt :: "'a io \<Rightarrow> 'a option io" where
  "attempt m c = (case m c of (Inl e, c1) \<Rightarrow> (Inr None, c1) | (Inr a, c1) \<Rightarrow> (Inr (Some a), c1))"

definition catch_io :: "'a io \<Rightarrow> (bus_error \<Rightarrow> 'a io) \<Rightarrow> 'a io" where
  "catch_io m h c = (case m c of (Inl e, c1) \<Rightarrow> h e c1 | (Inr a, c1) \<Rightarrow> (Inr a, c1))"

text \<open>Running a list of statements in order.\<close>

fun each :: "('a \<Rightarrow> 'b io) \<Rightarrow> 'a list \<Rightarrow> 'b list io" where
  "each f [] = ret []"
| "each f (x # xs) = bind_io (f x) (\<lambda>y. bind_io (each f xs) (\<lambda>ys. ret (y # ys)))"

text \<open>
  A transaction: one tick for \<open>BEGIN\<close>, one failure flag for \<open>COMMIT\<close>. Inside, \<open>now()\<close> is
  fixed and the other sessions are not interleaved; an error or a decision not to commit
  puts the data back.
\<close>

definition isolate :: "tick \<Rightarrow> tick" where
  "isolate t = t\<lparr>takes := 0, others := id\<rparr>"

definition transaction :: "('a \<Rightarrow> bool) \<Rightarrow> 'a io \<Rightarrow> 'a io" where
  "transaction commit m c = (let (failed, c0) = next_tick c in
     if failed then (Inl Db, c0)
     else (let (r, c1) = m (c0\<lparr>sched := map isolate (sched c0)\<rparr>);
               rest = drop (length (sched c0) - length (sched c1)) (sched c0)
           in case r of
                Inl e \<Rightarrow> (Inl e, c0\<lparr>sched := rest\<rparr>)
              | Inr a \<Rightarrow>
                  (if rest \<noteq> [] \<and> fails (hd rest) then (Inl Db, c0\<lparr>sched := tl rest\<rparr>)
                   else if commit a then (Inr a, c1\<lparr>sched := tl rest\<rparr>)
                   else (Inr a, c0\<lparr>sched := tl rest\<rparr>))))"

abbreviation in_tx :: "'a io \<Rightarrow> 'a io" where
  "in_tx \<equiv> transaction (\<lambda>_. True)"

subsection \<open>Laws\<close>

lemma bind_ret [simp]: "bind_io (ret a) f = f a"
  by (simp add: fun_eq_iff bind_io_def ret_def)

lemma bind_raise [simp]: "bind_io (raise e) f = raise e"
  by (simp add: fun_eq_iff bind_io_def raise_def)

lemma bind_assoc: "bind_io (bind_io m f) g = bind_io m (\<lambda>a. bind_io (f a) g)"
  by (auto simp: fun_eq_iff bind_io_def split: prod.splits sum.splits)

lemma lift_simps [simp]: "lift (Inl e) = raise e" "lift (Inr a) = ret a"
  by (auto simp: fun_eq_iff lift_def raise_def ret_def)

lemma run_bind:
  "bind_io m f c = (case m c of (Inl e, c1) \<Rightarrow> (Inl e, c1) | (Inr a, c1) \<Rightarrow> f a c1)"
  by (rule bind_io_def)

text \<open>How a computation runs when nothing else is going on.\<close>

definition quiet :: "conn \<Rightarrow> bool" where
  "quiet c \<longleftrightarrow> sched c = []"

named_theorems quiet_simps "one step of a handler on a quiet connection"

lemma quiet_update [simp]: "quiet (c\<lparr>data := d\<rparr>) = quiet c"
  by (simp add: quiet_def)

lemma next_tick_quiet: "quiet c \<Longrightarrow> next_tick c = (False, c)"
  by (simp add: quiet_def next_tick_def)

lemma sql_quiet [quiet_simps]:
  "quiet c \<Longrightarrow> sql f c = (case f (clock c) (data c) of
      None \<Rightarrow> (Inl Db, c) | Some (a, d) \<Rightarrow> (Inr a, c\<lparr>data := d\<rparr>))"
  by (simp add: sql_def next_tick_quiet)

lemma query_quiet [quiet_simps]: "quiet c \<Longrightarrow> query f c = (Inr (f (clock c) (data c)), c)"
  by (simp add: query_def sql_quiet)

lemma execute_quiet [quiet_simps]:
  "quiet c \<Longrightarrow> execute f c = (case f (clock c) (data c) of (a, d) \<Rightarrow> (Inr a, c\<lparr>data := d\<rparr>))"
  by (simp add: execute_def sql_quiet split: prod.splits)

lemma ret_quiet [quiet_simps]: "ret a c = (Inr a, c)"
  by (simp add: ret_def)

lemma raise_quiet [quiet_simps]: "raise e c = (Inl e, c)"
  by (simp add: raise_def)

lemma bind_quiet [quiet_simps]:
  "bind_io m f c = (case m c of (Inl e, c1) \<Rightarrow> (Inl e, c1) | (Inr a, c1) \<Rightarrow> f a c1)"
  by (rule bind_io_def)

lemma transaction_quiet [quiet_simps]:
  assumes "quiet c"
  shows "transaction commit m c = (case m c of
      (Inl e, c1) \<Rightarrow> (Inl e, c)
    | (Inr a, c1) \<Rightarrow> (Inr a, if commit a then c1\<lparr>sched := []\<rparr> else c))"
proof -
  have q: "sched c = []" using assms by (simp add: quiet_def)
  then have eq: "c\<lparr>sched := map isolate (sched c)\<rparr> = c" by (cases c) simp
  show ?thesis
    by (simp add: transaction_def next_tick_quiet [OF assms] eq)
      (simp add: q Let_def split: prod.splits sum.splits)
qed

subsection \<open>Invariants under every schedule\<close>

text \<open>
  \<open>keeps I m\<close>: whatever fails, however long statements take and whatever the other
  sessions do in between, as long as they keep \<open>I\<close> themselves, \<open>m\<close> leaves \<open>I\<close> true.
\<close>

definition admissible :: "(db \<Rightarrow> bool) \<Rightarrow> conn \<Rightarrow> bool" where
  "admissible I c \<longleftrightarrow> I (data c) \<and> (\<forall>t \<in> set (sched c). \<forall>d. I d \<longrightarrow> I (others t d))"

definition keeps :: "(db \<Rightarrow> bool) \<Rightarrow> 'a io \<Rightarrow> bool" where
  "keeps I m \<longleftrightarrow> (\<forall>c. admissible I c \<longrightarrow> admissible I (snd (m c)))"

named_theorems keeps_intros "rules that derive that a computation keeps an invariant"

lemma keepsD: "keeps I m \<Longrightarrow> admissible I c \<Longrightarrow> admissible I (snd (m c))"
  by (simp add: keeps_def)

lemma keeps_data: "keeps I m \<Longrightarrow> admissible I c \<Longrightarrow> I (data (snd (m c)))"
  by (simp add: keeps_def admissible_def)

lemma admissible_next_tick: "admissible I c \<Longrightarrow> next_tick c = (b, c1) \<Longrightarrow> admissible I c1"
  by (auto simp: admissible_def next_tick_def split: list.splits)

lemma keeps_ret [keeps_intros]: "keeps I (ret a)"
  by (simp add: keeps_def ret_def)

lemma keeps_raise [keeps_intros]: "keeps I (raise e)"
  by (simp add: keeps_def raise_def)

lemma keeps_lift [keeps_intros]: "keeps I (lift r)"
  by (simp add: keeps_def lift_def)

lemma keeps_bind [keeps_intros]:
  "keeps I m \<Longrightarrow> (\<And>a. keeps I (f a)) \<Longrightarrow> keeps I (bind_io m f)"
  by (fastforce simp: keeps_def bind_io_def split: prod.splits sum.splits)

lemma keeps_attempt [keeps_intros]: "keeps I m \<Longrightarrow> keeps I (attempt m)"
  by (fastforce simp: keeps_def attempt_def split: prod.splits sum.splits)

lemma keeps_catch [keeps_intros]:
  "keeps I m \<Longrightarrow> (\<And>e. keeps I (h e)) \<Longrightarrow> keeps I (catch_io m h)"
  by (fastforce simp: keeps_def catch_io_def split: prod.splits sum.splits)

lemma keeps_each [keeps_intros]: "(\<And>x. keeps I (f x)) \<Longrightarrow> keeps I (each f xs)"
  by (induction xs) (auto intro!: keeps_intros)

lemma keeps_sql:
  assumes "\<And>now d a d'. I d \<Longrightarrow> f now d = Some (a, d') \<Longrightarrow> I d'"
  shows "keeps I (sql f)"
  unfolding keeps_def
proof (intro allI impI)
  fix c assume adm: "admissible I c"
  obtain b c1 where nt: "next_tick c = (b, c1)" by force
  then have c1: "admissible I c1" using adm admissible_next_tick by blast
  then show "admissible I (snd (sql f c))"
    using assms [of "data c1" "clock c1"]
    by (auto simp: sql_def nt admissible_def split: option.splits)
qed

lemma keeps_query [keeps_intros]: "keeps I (query f)"
  unfolding query_def by (rule keeps_sql) simp

lemma keeps_execute:
  assumes "\<And>now d. I d \<Longrightarrow> I (snd (f now d))"
  shows "keeps I (execute f)"
  unfolding execute_def using assms by (intro keeps_sql) (metis option.inject snd_conv)

lemma keeps_transaction [keeps_intros]:
  assumes "keeps I m"
  shows "keeps I (transaction commit m)"
  unfolding keeps_def
proof (intro allI impI)
  fix c assume adm: "admissible I c"
  obtain b c0 where nt: "next_tick c = (b, c0)" by force
  then have c0: "admissible I c0" using adm admissible_next_tick by blast
  let ?ci = "c0\<lparr>sched := map isolate (sched c0)\<rparr>"
  have ci: "admissible I ?ci" using c0 by (auto simp: admissible_def isolate_def)
  obtain r c1 where m: "m ?ci = (r, c1)" by force
  then have c1: "I (data c1)" using keeps_data [OF assms ci] by simp
  let ?rest = "drop (length (sched c0) - length (sched c1)) (sched c0)"
  have rest: "t \<in> set (sched c0)" if "t \<in> set ?rest \<or> t \<in> set (tl ?rest)" for t
    using that set_tl_subset [of ?rest]
      set_drop_subset [of "length (sched c0) - length (sched c1)" "sched c0"] by (auto dest: subsetD)
  then show "admissible I (snd (transaction commit m c))"
    using c0 c1
    by (auto simp: transaction_def nt m admissible_def Let_def split: sum.splits)
qed

text \<open>
  A property of the database that no statement of a computation can touch carries over
  with \<open>I d = (f d = v)\<close>: a frame rule.
\<close>

lemma keeps_frame:
  assumes "keeps (\<lambda>d. f d = v) m" and "quiet c" and "f (data c) = v"
  shows "f (data (snd (m c))) = v"
  using keeps_data [OF assms(1), of c] assms(2,3) by (simp add: admissible_def quiet_def)

subsection \<open>Conditions that survive the other sessions\<close>

text \<open>
  \<open>valid R P m Q\<close>: if every step of the other sessions relates the database before and
  after it by \<open>R\<close>, a run of \<open>m\<close> from a database with \<open>P\<close> ends with \<open>Q\<close> of its result and
  the database. The conditions between statements have to be stable under \<open>R\<close>.
\<close>

definition rely :: "(db \<Rightarrow> db \<Rightarrow> bool) \<Rightarrow> conn \<Rightarrow> bool" where
  "rely R c \<longleftrightarrow> (\<forall>t \<in> set (sched c). \<forall>d. R d (others t d))"

definition stable :: "(db \<Rightarrow> db \<Rightarrow> bool) \<Rightarrow> (db \<Rightarrow> bool) \<Rightarrow> bool" where
  "stable R P \<longleftrightarrow> (\<forall>d d'. P d \<longrightarrow> R d d' \<longrightarrow> P d')"

definition valid ::
  "(db \<Rightarrow> db \<Rightarrow> bool) \<Rightarrow> (db \<Rightarrow> bool) \<Rightarrow> 'a io \<Rightarrow> ('a bus_result \<Rightarrow> db \<Rightarrow> bool) \<Rightarrow> bool" where
  "valid R P m Q \<longleftrightarrow> (\<forall>c. rely R c \<longrightarrow> P (data c) \<longrightarrow>
     rely R (snd (m c)) \<and> Q (fst (m c)) (data (snd (m c))))"

lemma validD:
  "valid R P m Q \<Longrightarrow> rely R c \<Longrightarrow> P (data c) \<Longrightarrow> Q (fst (m c)) (data (snd (m c)))"
  by (simp add: valid_def)

lemma valid_conseq:
  "valid R P m Q \<Longrightarrow> (\<And>d. P' d \<Longrightarrow> P d) \<Longrightarrow> (\<And>r d. Q r d \<Longrightarrow> Q' r d) \<Longrightarrow> valid R P' m Q'"
  by (simp add: valid_def)

lemma valid_ret: "(\<And>d. P d \<Longrightarrow> Q (Inr a) d) \<Longrightarrow> valid R P (ret a) Q"
  by (simp add: valid_def ret_def)

lemma valid_raise: "(\<And>d. P d \<Longrightarrow> Q (Inl e) d) \<Longrightarrow> valid R P (raise e) Q"
  by (simp add: valid_def raise_def)

lemma valid_lift: "(\<And>d. P d \<Longrightarrow> Q r d) \<Longrightarrow> valid R P (lift r) Q"
  by (simp add: valid_def lift_def)

lemma valid_bind:
  assumes m: "valid R P m M" and err: "\<And>e d. M (Inl e) d \<Longrightarrow> Q (Inl e) d"
    and f: "\<And>a. valid R (M (Inr a)) (f a) Q"
  shows "valid R P (bind_io m f) Q"
  unfolding valid_def
proof (intro allI impI)
  fix c assume c: "rely R c" "P (data c)"
  obtain r c1 where m1: "m c = (r, c1)" by force
  with m c have "rely R c1" "M r (data c1)" by (auto simp: valid_def dest!: spec [of _ c])
  then show "rely R (snd (bind_io m f c)) \<and>
      Q (fst (bind_io m f c)) (data (snd (bind_io m f c)))"
    using err f by (cases r) (auto simp: bind_io_def m1 valid_def)
qed

lemma next_tick_rely:
  assumes "next_tick c = (b, c1)" and "rely R c" and "stable R P" and "P (data c)"
  shows "rely R c1 \<and> P (data c1)"
  using assms by (auto simp: next_tick_def rely_def stable_def split: list.splits)

lemma valid_sql:
  assumes "stable R P" and "\<And>d. P d \<Longrightarrow> Q (Inl Db) d"
    and "\<And>now d a d'. P d \<Longrightarrow> f now d = Some (a, d') \<Longrightarrow> Q (Inr a) d'"
  shows "valid R P (sql f) Q"
  unfolding valid_def
proof (intro allI impI)
  fix c assume c: "rely R c" "P (data c)"
  obtain b c1 where nt: "next_tick c = (b, c1)" by force
  from next_tick_rely [OF nt c(1) assms(1) c(2)] have c1: "rely R c1" "P (data c1)" by auto
  show "rely R (snd (sql f c)) \<and> Q (fst (sql f c)) (data (snd (sql f c)))"
  proof (cases "f (clock c1) (data c1)")
    case None
    with c1 assms(2) show ?thesis by (auto simp: sql_def nt)
  next
    case (Some p)
    with c1 assms(2,3) show ?thesis by (cases p) (auto simp: sql_def nt rely_def)
  qed
qed

lemma valid_query:
  assumes "stable R P" and "\<And>d. P d \<Longrightarrow> Q (Inl Db) d" and "\<And>now d. P d \<Longrightarrow> Q (Inr (f now d)) d"
  shows "valid R P (query f) Q"
  unfolding query_def using assms by (intro valid_sql) auto

lemma valid_each:
  assumes "\<And>x. x \<in> set xs \<Longrightarrow> valid R I (f x) (\<lambda>r. I)"
  shows "valid R I (each f xs) (\<lambda>r. I)"
  using assms
proof (induction xs)
  case (Cons x xs)
  then show ?case by (auto intro!: valid_bind valid_ret)
qed (auto intro: valid_ret)

lemma stable_conj: "stable R P \<Longrightarrow> stable R Q \<Longrightarrow> stable R (\<lambda>d. P d \<and> Q d)"
  by (auto simp: stable_def)

text \<open>A list of read-only steps, each of which finds something that stays true.\<close>

lemma valid_each_reads:
  assumes step: "\<And>x P. stable R P \<Longrightarrow>
      valid R P (f x) (\<lambda>r d. P d \<and> (\<forall>a. r = Inr a \<longrightarrow> S a d))"
    and S: "\<And>a. stable R (S a)" and P: "stable R P"
  shows "valid R P (each f xs) (\<lambda>r d. P d \<and> (\<forall>ys. r = Inr ys \<longrightarrow> (\<forall>y \<in> set ys. S y d)))"
  using P
proof (induction xs arbitrary: P)
  case (Cons x xs)
  have rest: "valid R (\<lambda>d. P d \<and> S a d) (bind_io (each f xs) (\<lambda>ys. ret (a # ys)))
      (\<lambda>r d. P d \<and> (\<forall>ys. r = Inr ys \<longrightarrow> (\<forall>y \<in> set ys. S y d)))" for a
    by (rule valid_bind [OF Cons.IH [OF stable_conj [OF Cons.prems S]]]) (auto intro!: valid_ret)
  have "valid R P (f x) (\<lambda>r d. P d \<and> (\<forall>a. r = Inr a \<longrightarrow> S a d))"
    by (rule step [OF Cons.prems])
  then show ?case
    by (auto intro!: valid_bind valid_conseq [OF rest])
qed (auto intro!: valid_ret)

text \<open>
  Inside a transaction nobody else is active: what a computation establishes on its own,
  whenever it succeeds, the committed transaction keeps under every schedule.
\<close>

lemma keeps_tx:
  assumes "valid (=) I m (\<lambda>r d. \<forall>a. r = Inr a \<longrightarrow> I d)"
  shows "keeps I (transaction commit m)"
  unfolding keeps_def
proof (intro allI impI)
  fix c assume adm: "admissible I c"
  obtain b c0 where nt: "next_tick c = (b, c0)" by force
  then have c0: "admissible I c0" using adm admissible_next_tick by blast
  let ?ci = "c0\<lparr>sched := map isolate (sched c0)\<rparr>"
  obtain r c1 where m: "m ?ci = (r, c1)" by force
  have "rely (=) ?ci" by (auto simp: rely_def isolate_def)
  with assms c0 m have ok: "\<forall>a. r = Inr a \<longrightarrow> I (data c1)"
    by (auto dest!: validD [where c = ?ci] simp: admissible_def)
  let ?rest = "drop (length (sched c0) - length (sched c1)) (sched c0)"
  have rest: "t \<in> set (sched c0)" if "t \<in> set ?rest \<or> t \<in> set (tl ?rest)" for t
    using that set_tl_subset [of ?rest]
      set_drop_subset [of "length (sched c0) - length (sched c1)" "sched c0"] by (auto dest: subsetD)
  then show "admissible I (snd (transaction commit m c))"
    using c0 ok
    by (auto simp: transaction_def nt m admissible_def Let_def split: sum.splits)
qed

lemma stable_eq [simp]: "stable (=) P"
  by (simp add: stable_def)

text \<open>All or nothing: a transaction that fails in any way leaves the data as it was.\<close>

lemma valid_tx:
  assumes "valid (=) P m Q" and "stable R P"
  shows "valid R P (in_tx m) (\<lambda>r d. case r of Inl e \<Rightarrow> P d | Inr a \<Rightarrow> Q (Inr a) d)"
  unfolding valid_def
proof (intro allI impI)
  fix c assume c: "rely R c" "P (data c)"
  obtain b c0 where nt: "next_tick c = (b, c0)" by force
  from next_tick_rely [OF nt c(1) assms(2) c(2)] have c0: "rely R c0" "P (data c0)" by auto
  let ?ci = "c0\<lparr>sched := map isolate (sched c0)\<rparr>"
  obtain r c1 where m: "m ?ci = (r, c1)" by force
  have "rely (=) ?ci" by (auto simp: rely_def isolate_def)
  with assms(1) c0 m have ok: "Q r (data c1)"
    by (auto dest!: validD [where c = ?ci])
  let ?rest = "drop (length (sched c0) - length (sched c1)) (sched c0)"
  have rest: "t \<in> set (sched c0)" if "t \<in> set ?rest \<or> t \<in> set (tl ?rest)" for t
    using that set_tl_subset [of ?rest]
      set_drop_subset [of "length (sched c0) - length (sched c1)" "sched c0"] by (auto dest: subsetD)
  then show "rely R (snd (in_tx m c)) \<and>
      (case fst (in_tx m c) of Inl e \<Rightarrow> P (data (snd (in_tx m c)))
       | Inr a \<Rightarrow> Q (Inr a) (data (snd (in_tx m c))))"
    using c0 ok by (auto simp: transaction_def nt m rely_def Let_def split: sum.splits)
qed

lemma valid_point:
  "(\<And>d0. P d0 \<Longrightarrow> valid R (\<lambda>d. d = d0) m Q) \<Longrightarrow> valid R P m Q"
  by (fastforce simp: valid_def)

lemma valid_pure: "(b \<Longrightarrow> valid R P m Q) \<Longrightarrow> valid R (\<lambda>d. b \<and> P d) m Q"
  by (auto simp: valid_def)

text \<open>A computation that only reads, when the other sessions are idle.\<close>

definition reads_only :: "'a io \<Rightarrow> bool" where
  "reads_only m \<longleftrightarrow> (\<forall>P. valid (=) P m (\<lambda>r. P))"

named_theorems reads_intros "rules that derive that a computation only reads"

lemma reads_onlyD: "reads_only m \<Longrightarrow> valid (=) P m (\<lambda>r. P)"
  by (simp add: reads_only_def)

lemma reads_ret [reads_intros]: "reads_only (ret a)"
  by (simp add: reads_only_def valid_ret)

lemma reads_raise [reads_intros]: "reads_only (raise e)"
  by (simp add: reads_only_def valid_raise)

lemma reads_lift [reads_intros]: "reads_only (lift r)"
  by (simp add: reads_only_def valid_lift)

lemma reads_query [reads_intros]: "reads_only (query f)"
  by (simp add: reads_only_def valid_query)

lemma reads_bind [reads_intros]:
  "reads_only m \<Longrightarrow> (\<And>a. reads_only (f a)) \<Longrightarrow> reads_only (bind_io m f)"
  unfolding reads_only_def by (blast intro: valid_bind)

lemma reads_attempt [reads_intros]: "reads_only m \<Longrightarrow> reads_only (attempt m)"
  by (fastforce simp: reads_only_def valid_def attempt_def split: prod.splits sum.splits)

lemma reads_then_valid:
  assumes "reads_only m" and "\<And>a. valid (=) P (f a) Q" and "\<And>e d. P d \<Longrightarrow> Q (Inl e) d"
  shows "valid (=) P (bind_io m f) Q"
  by (rule valid_bind [OF reads_onlyD [OF assms(1), of P]]) (use assms in auto)

end
