(* ===== verification/Common.thy ===== *)
theory Common
  imports Store_Monad
begin

text \<open>
  \<open>store/mod.rs\<close>: the normalisers, validators and name lookups every store module uses,
  and the interface \<open>canonical_names\<close> that the normalisers promise: normalising twice is
  normalising once, so a stored name is found under its own spelling.
\<close>

subsection \<open>Normalised names\<close>

locale canonical_names =
  fixes norm :: "string \<Rightarrow> 'e + string"
  assumes canonical: "norm s = Inr k \<Longrightarrow> norm k = Inr k"
begin

lemma same_name_iff:
  "norm s = Inr k \<Longrightarrow> norm t = Inr k' \<Longrightarrow> (norm s = norm t) = (k = k')"
  by simp

lemma stored_name_found: "norm s = Inr k \<Longrightarrow> norm k = norm s"
  using canonical by simp

end

definition strip_hashes :: "string \<Rightarrow> string" where
  "strip_hashes s = dropWhile (\<lambda>c. c = CHR ''#'') s"

definition normalize_channel :: "string \<Rightarrow> string" where
  "normalize_channel name = lower (trim (strip_hashes (trim name)))"

subsection \<open>Validators\<close>

definition MAX_METADATA_BYTES :: nat where
  "MAX_METADATA_BYTES = 16 * 1024"

definition check_metadata :: "externals \<Rightarrow> string \<Rightarrow> json option \<Rightarrow> unit bus_result" where
  "check_metadata x field metadata = (case metadata of
       None \<Rightarrow> Inr ()
     | Some value \<Rightarrow>
         and_then (ok_or (json_size x value) (Invalid (TextWhy (MetadataUnserialisable field))))
           (\<lambda>size. if MAX_METADATA_BYTES < size
                   then Inl (Invalid (TextWhy (MetadataTooLarge field size)))
                   else Inr ()))"

definition check_text :: "string \<Rightarrow> string \<Rightarrow> nat \<Rightarrow> string bus_result" where
  "check_text field v mx =
     (if mx < length v then Inl (Invalid (TextWhy (TextTooLong field (length v) mx)))
      else
        let trimmed = trim v
        in if mx < length trimmed
           then Inl (Invalid (TextWhy (TextTooLong field (length trimmed) mx)))
           else Inr trimmed)"

text \<open>\<open>check_text\<close> on an optional field, as each caller spells it out.\<close>

definition check_opt_text :: "string \<Rightarrow> string option \<Rightarrow> nat \<Rightarrow> string option bus_result" where
  "check_opt_text field v mx = (case v of
       None \<Rightarrow> Inr None
     | Some t \<Rightarrow> and_then (check_text field t mx) (\<lambda>s. Inr (Some s)))"

text \<open>The second length test never fires: trimming does not lengthen a string.\<close>

lemma check_text_eq:
  "check_text field v mx =
     (if mx < length v then Inl (Invalid (TextWhy (TextTooLong field (length v) mx)))
      else Inr (trim v))"
  using length_trim [of v] by (auto simp: check_text_def Let_def)

lemma check_text_Inr:
  "check_text field v mx = Inr s \<longleftrightarrow> length v \<le> mx \<and> s = trim v"
  by (auto simp: check_text_eq)

lemma check_opt_text_Inr:
  "check_opt_text field v mx = Inr r \<longleftrightarrow>
     r = map_option trim v \<and> (\<forall>t. v = Some t \<longrightarrow> length t \<le> mx)"
  by (cases v) (auto simp: check_opt_text_def and_then_Inr check_text_Inr)

lemma check_text_bounded: "check_text field v mx = Inr s \<Longrightarrow> length s \<le> mx \<and> trim s = s"
  using length_trim [of v] by (auto simp: check_text_Inr)

lemma check_metadata_Inr:
  "check_metadata x field m = Inr u \<longleftrightarrow>
     (\<forall>v. m = Some v \<longrightarrow> (\<exists>n. json_size x v = Some n \<and> n \<le> MAX_METADATA_BYTES))"
proof (cases m)
  case (Some v)
  then show ?thesis
    by (cases "json_size x v") (auto simp: check_metadata_def)
qed (simp add: check_metadata_def)

interpretation text_names: canonical_names "\<lambda>s. check_text field s mx" for field mx
proof
  show "check_text field k mx = Inr k" if "check_text field s mx = Inr k" for s k
    using check_text_bounded [OF that] by (simp add: check_text_Inr)
qed

subsection \<open>Sessions and identities\<close>

definition session_label :: "auth_ctx \<Rightarrow> string option" where
  "session_label auth = (if session auth = [] then None else Some (session auth))"

lemma coalesce_session_label [simp]: "coalesce (session_label auth) = session auth"
  by (simp add: session_label_def)

lemma non_empty_session [simp]: "non_empty (Some (session auth)) = session_label auth"
  by (simp add: non_empty_def session_label_def)

lemma agent_name_of_frame: "agents d' = agents d \<Longrightarrow> agent_name_of d' a = agent_name_of d a"
  by (simp add: agent_name_of_def)

definition find_agent :: "db \<Rightarrow> uuid \<Rightarrow> string \<Rightarrow> uuid option" where
  "find_agent d team name =
     map_option ag_id (List.find (\<lambda>a. ag_team a = team \<and> ag_name a = name) (agents d))"

definition agent_id_by_name :: "uuid \<Rightarrow> string \<Rightarrow> uuid io" where
  "agent_id_by_name team raw =
     (let name = trim raw in
      bind_io (query (\<lambda>now d. find_agent d team name)) (\<lambda>row.
      lift (ok_or row (NotFound (TextWhy (NoAgent name))))))"

definition find_channel :: "db \<Rightarrow> uuid \<Rightarrow> string \<Rightarrow> uuid option" where
  "find_channel d team name =
     map_option ch_id (List.find (\<lambda>c. ch_team c = team \<and> ch_name c = name) (channels d))"

definition channel_id_by_name :: "uuid \<Rightarrow> string \<Rightarrow> uuid io" where
  "channel_id_by_name team raw =
     (let name = normalize_channel raw in
      bind_io (query (\<lambda>now d. find_channel d team name)) (\<lambda>row.
      lift (ok_or row (NotFound (TextWhy (NoChannel name))))))"

lemma agent_id_by_name_quiet [quiet_simps]:
  "quiet c \<Longrightarrow> agent_id_by_name team raw c =
     (ok_or (find_agent (data c) team (trim raw)) (NotFound (TextWhy (NoAgent (trim raw)))), c)"
  by (simp add: agent_id_by_name_def Let_def quiet_simps lift_def)

lemma channel_id_by_name_quiet [quiet_simps]:
  "quiet c \<Longrightarrow> channel_id_by_name team raw c =
     (ok_or (find_channel (data c) team (normalize_channel raw))
        (NotFound (TextWhy (NoChannel (normalize_channel raw)))), c)"
  by (simp add: channel_id_by_name_def Let_def quiet_simps lift_def)

lemma keeps_agent_id_by_name [keeps_intros]: "keeps I (agent_id_by_name team raw)"
  by (auto simp: agent_id_by_name_def Let_def intro!: keeps_intros)

lemma keeps_channel_id_by_name [keeps_intros]: "keeps I (channel_id_by_name team raw)"
  by (auto simp: channel_id_by_name_def Let_def intro!: keeps_intros)

lemma reads_agent_id_by_name [reads_intros]: "reads_only (agent_id_by_name team raw)"
  by (auto simp: agent_id_by_name_def Let_def intro!: reads_intros)

lemma reads_channel_id_by_name [reads_intros]: "reads_only (channel_id_by_name team raw)"
  by (auto simp: channel_id_by_name_def Let_def intro!: reads_intros)

subsection \<open>Attachment metadata\<close>

text \<open>
  \<open>AttachmentMeta\<close>, and the sub-select every message and task query embeds: the metadata
  of the attachments of one parent, in id order. The source passes it through a JSON array
  and parses it back; here it is the list itself.
\<close>

record attachment_meta =
  am_id :: int
  am_filename :: string
  am_type :: string
  am_size :: int

definition meta_of :: "attachment_row \<Rightarrow> attachment_meta" where
  "meta_of a = \<lparr> am_id = at_id a, am_filename = at_filename a, am_type = at_type a,
     am_size = at_size a \<rparr>"

definition task_metas :: "db \<Rightarrow> uuid \<Rightarrow> attachment_meta list" where
  "task_metas d t = map meta_of (order_by at_id (filter (\<lambda>a. at_task a = Some t) (attachments d)))"

definition message_metas :: "db \<Rightarrow> int \<Rightarrow> attachment_meta list" where
  "message_metas d m =
     map meta_of (order_by at_id (filter (\<lambda>a. at_message a = Some m) (attachments d)))"

end
