(* ===== verification/Leases.thy ===== *)
theory Leases
  imports Common
begin

text \<open>
  The contract that locks and task claims share: a resource has at most one holder (an
  agent in one of its sessions) and an expiry; taking it succeeds exactly when it is
  available and free, lapsed or already the caller's; only the holder gives it up.

  The locale states the laws of one \<open>take\<close> and one \<open>give\<close> statement. What clients of a
  lease rely on is proved from them: a holder keeps a resource until its expiry whatever
  sequence of statements the other sessions run.
\<close>

type_synonym holder = "uuid \<times> string"

datatype ('k, 'a) lease_op =
    Take timestamp holder 'k 'a
  | Give timestamp holder 'k

fun op_time :: "('k, 'a) lease_op \<Rightarrow> timestamp" where
  "op_time (Take now w k a) = now"
| "op_time (Give now w k) = now"

fun op_by :: "('k, 'a) lease_op \<Rightarrow> holder" where
  "op_by (Take now w k a) = w"
| "op_by (Give now w k) = w"

fun op_on :: "('k, 'a) lease_op \<Rightarrow> 'k" where
  "op_on (Take now w k a) = k"
| "op_on (Give now w k) = k"

fun run_op ::
  "(timestamp \<Rightarrow> holder \<Rightarrow> 'k \<Rightarrow> 'a \<Rightarrow> 'd \<Rightarrow> bool \<times> 'd) \<Rightarrow>
   (timestamp \<Rightarrow> holder \<Rightarrow> 'k \<Rightarrow> 'd \<Rightarrow> bool \<times> 'd) \<Rightarrow> ('k, 'a) lease_op \<Rightarrow> 'd \<Rightarrow> 'd" where
  "run_op tk gv (Take now w k a) d = snd (tk now w k a d)"
| "run_op tk gv (Give now w k) d = snd (gv now w k d)"

locale lease_table =
  fixes inv :: "'d \<Rightarrow> bool"
    and held :: "'d \<Rightarrow> 'k \<Rightarrow> (holder \<times> timestamp) option"
    and avail :: "'d \<Rightarrow> 'k \<Rightarrow> bool"
    and dur :: "'a \<Rightarrow> timestamp"
    and take :: "timestamp \<Rightarrow> holder \<Rightarrow> 'k \<Rightarrow> 'a \<Rightarrow> 'd \<Rightarrow> bool \<times> 'd"
    and give :: "timestamp \<Rightarrow> holder \<Rightarrow> 'k \<Rightarrow> 'd \<Rightarrow> bool \<times> 'd"
  assumes take_inv: "inv d \<Longrightarrow> inv (snd (take now w k a d))"
    and give_inv: "inv d \<Longrightarrow> inv (snd (give now w k d))"
    and take_iff: "inv d \<Longrightarrow> fst (take now w k a d) \<longleftrightarrow>
      avail d k \<and> (\<forall>v e. held d k = Some (v, e) \<longrightarrow> v = w \<or> e < now)"
    and take_won: "inv d \<Longrightarrow> fst (take now w k a d) \<Longrightarrow>
      held (snd (take now w k a d)) k = Some (w, now + dur a)"
    and take_lost: "inv d \<Longrightarrow> \<not> fst (take now w k a d) \<Longrightarrow>
      held (snd (take now w k a d)) k = held d k"
    and take_frame: "inv d \<Longrightarrow> k' \<noteq> k \<Longrightarrow> held (snd (take now w k a d)) k' = held d k'"
    and give_iff: "inv d \<Longrightarrow> fst (give now w k d) \<longleftrightarrow> (\<exists>e. held d k = Some (w, e))"
    and give_won: "inv d \<Longrightarrow> fst (give now w k d) \<Longrightarrow> held (snd (give now w k d)) k = None"
    and give_lost: "inv d \<Longrightarrow> \<not> fst (give now w k d) \<Longrightarrow>
      held (snd (give now w k d)) k = held d k"
    and give_frame: "inv d \<Longrightarrow> k' \<noteq> k \<Longrightarrow> held (snd (give now w k d)) k' = held d k'"
begin

abbreviation apply_op :: "('k, 'a) lease_op \<Rightarrow> 'd \<Rightarrow> 'd" where
  "apply_op \<equiv> run_op take give"

lemma apply_op_inv: "inv d \<Longrightarrow> inv (apply_op op d)"
  by (cases op) (auto intro: take_inv give_inv)

lemma apply_op_keeps_holder:
  assumes "inv d" and "held d k = Some (w, e)"
    and "op_time op \<le> e" and "op_on op = k \<longrightarrow> op_by op \<noteq> w"
  shows "held (apply_op op d) k = Some (w, e)"
proof (cases op)
  case (Take now v k' a)
  show ?thesis
  proof (cases "k' = k")
    case True
    with Take assms have "\<not> fst (take now v k a d)"
      by (auto simp: take_iff)
    with Take True assms show ?thesis by (simp add: take_lost)
  next
    case False
    with Take assms show ?thesis by (simp add: take_frame)
  qed
next
  case (Give now v k')
  show ?thesis
  proof (cases "k' = k")
    case True
    with Give assms have "\<not> fst (give now v k d)"
      by (auto simp: give_iff)
    with Give True assms show ?thesis by (simp add: give_lost)
  next
    case False
    with Give assms show ?thesis by (simp add: give_frame)
  qed
qed

text \<open>Nobody else can end or take over a live lease, whatever they try and in any order.\<close>

lemma held_until_expiry:
  assumes "inv d" and "held d k = Some (w, e)"
    and "\<forall>op \<in> set ops. op_time op \<le> e"
    and "\<forall>op \<in> set ops. op_on op = k \<longrightarrow> op_by op \<noteq> w"
  shows "held (fold apply_op ops d) k = Some (w, e)"
  using assms
proof (induction ops arbitrary: d)
  case (Cons op ops)
  then have "inv (apply_op op d)" and "held (apply_op op d) k = Some (w, e)"
    by (auto intro: apply_op_inv apply_op_keeps_holder)
  with Cons show ?case by simp
qed simp

lemma fold_inv: "inv d \<Longrightarrow> inv (fold apply_op ops d)"
  by (induction ops arbitrary: d) (auto intro: apply_op_inv)

text \<open>
  Two winners of one resource: the second is the first again, the first has touched it in
  between, or the first one's time has run out.
\<close>

lemma no_second_winner:
  assumes "inv d" and "fst (take t w k a d)"
    and "\<forall>op \<in> set ops. op_time op \<le> t'" and "t' \<le> t + dur a"
    and "\<forall>op \<in> set ops. op_on op = k \<longrightarrow> op_by op \<noteq> w"
    and "v \<noteq> w"
  shows "\<not> fst (take t' v k a' (fold apply_op ops (snd (take t w k a d))))"
proof -
  let ?d1 = "snd (take t w k a d)"
  have "inv ?d1" using assms(1) by (rule take_inv)
  moreover have "held ?d1 k = Some (w, t + dur a)" using assms(1,2) by (rule take_won)
  moreover have "\<forall>op \<in> set ops. op_time op \<le> t + dur a" using assms(3,4) by fastforce
  ultimately have "held (fold apply_op ops ?d1) k = Some (w, t + dur a)"
    using assms(5) by (rule held_until_expiry)
  moreover have "inv (fold apply_op ops ?d1)" using \<open>inv ?d1\<close> by (rule fold_inv)
  ultimately show ?thesis using assms(4,6) by (auto simp: take_iff)
qed

text \<open>A crashed holder cannot jam the resource: once its lease has lapsed anybody wins it.\<close>

lemma lapsed_can_be_taken:
  "inv d \<Longrightarrow> avail d k \<Longrightarrow> held d k = Some (v, e) \<Longrightarrow> e < now \<Longrightarrow> fst (take now w k a d)"
  by (simp add: take_iff)

lemma given_can_be_taken:
  assumes "inv d" and "fst (give now w k d)" and "avail (snd (give now w k d)) k"
  shows "fst (take now' v k a (snd (give now w k d)))"
  using assms by (simp add: take_iff give_inv give_won)

text \<open>Taking again before the lease lapses extends it.\<close>

lemma holder_extends:
  assumes "inv d" and "avail d k" and "held d k = Some (w, e)"
  shows "held (snd (take now w k a d)) k = Some (w, now + dur a)"
  using assms by (simp add: take_won take_iff)

end

end
