(* ===== verification/Samples.thy ===== *)
theory Samples
  imports Common
begin

text \<open>
  A small concrete world for the worked instances of the theorems: one team with the agents
  \<open>ana\<close>, \<open>bob\<close> and \<open>eve\<close> and two channels, and concrete functions in the place of
  third-party ones. \<open>Uuid\<close>s are written as decimal numbers here, base64 and hex are the
  nibble coding, and the stand-in for SHA-256 only keeps lengths; every hypothesis on
  \<^typ>\<open>externals\<close> used anywhere holds of them.
\<close>

subsection \<open>Nibbles\<close>

definition nibble_char :: "nat \<Rightarrow> char" where
  "nibble_char n = (if n < 10 then char_of (48 + n) else char_of (87 + n))"

definition nibble_value :: "char \<Rightarrow> nat option" where
  "nibble_value c =
     (if 48 \<le> code_of c \<and> code_of c \<le> 57 then Some (code_of c - 48)
      else if 97 \<le> code_of c \<and> code_of c \<le> 102 then Some (code_of c - 87)
      else None)"

fun nibbles :: "string \<Rightarrow> string" where
  "nibbles [] = []"
| "nibbles (c # cs) =
     nibble_char (code_of c div 16) # nibble_char (code_of c mod 16) # nibbles cs"

fun unnibbles :: "string \<Rightarrow> string option" where
  "unnibbles [] = Some []"
| "unnibbles [c] = None"
| "unnibbles (h # l # cs) =
     (case (nibble_value h, nibble_value l, unnibbles cs) of
        (Some a, Some b, Some s) \<Rightarrow> Some (char_of (16 * a + b) # s)
      | _ \<Rightarrow> None)"

lemma nibble_value_char: "n < 16 \<Longrightarrow> nibble_value (nibble_char n) = Some n"
  by (auto simp: nibble_char_def nibble_value_def)

lemma unnibbles_nibbles: "unnibbles (nibbles s) = Some s"
proof (induction s)
  case (Cons c cs)
  have "16 * (code_of c div 16) + code_of c mod 16 = code_of c" by simp
  moreover have "code_of c div 16 < 16" using code_of_less [of c] by linarith
  ultimately show ?case
    by (simp add: Cons nibble_value_char)
qed simp

subsection \<open>The stand-ins\<close>

definition demo_uuid_parse :: "string \<Rightarrow> uuid option" where
  "demo_uuid_parse s =
     (if s \<noteq> [] \<and> list_all is_digit s then Some (word_of_nat (read_nat s)) else None)"

definition demo_ext :: externals where
  "demo_ext = \<lparr> uuid_text = (\<lambda>u. show_nat (unat u)), uuid_parse = demo_uuid_parse,
     json_size = (\<lambda>j. Some 0), b64_decode = unnibbles, b64_encode = nibbles,
     sha256 = (\<lambda>s. take 32 (s @ replicate 32 CHR ''*'')), hex_encode = nibbles,
     hex_decode = unnibbles,
     header_str = (\<lambda>s. if list_all is_ascii s then Some s else None), text_match = (\<lambda>doc q. doc = q) \<rparr>"

lemma demo_uuid_roundtrip: "uuid_roundtrip demo_ext"
  by (auto simp: uuid_roundtrip_def demo_ext_def demo_uuid_parse_def read_show_nat list_all_iff
      show_nat_digits)

subsection \<open>A team\<close>

definition ana :: auth_ctx where
  "ana = \<lparr> agent_id = 1, agent_name = ''ana'', team_id = 7, team_slug = ''t'', session = [] \<rparr>"

definition ana_web :: auth_ctx where
  "ana_web = ana\<lparr>session := ''web''\<rparr>"

definition bob :: auth_ctx where
  "bob = \<lparr> agent_id = 2, agent_name = ''bob'', team_id = 7, team_slug = ''t'', session = [] \<rparr>"

definition eve :: auth_ctx where
  "eve = \<lparr> agent_id = 3, agent_name = ''eve'', team_id = 7, team_slug = ''t'', session = ''w'' \<rparr>"

definition demo_agent :: "auth_ctx \<Rightarrow> agent_row" where
  "demo_agent a = \<lparr> ag_id = agent_id a, ag_team = team_id a, ag_name = agent_name a,
     ag_display = None, ag_disabled = None \<rparr>"

definition demo_channel :: "uuid \<Rightarrow> string \<Rightarrow> channel_row" where
  "demo_channel i n = \<lparr> ch_id = i, ch_team = 7, ch_name = n, ch_topic = None,
     ch_created_by = None, ch_created = 0 \<rparr>"

definition demo_db :: db where
  "demo_db = empty_db
     \<lparr> teams := [\<lparr> tm_id = 7, tm_slug = ''t'', tm_name = ''T'', tm_limit = None \<rparr>],
       agents := map demo_agent [ana, bob, eve],
       channels := [demo_channel 20 ''general'', demo_channel 21 ''web''] \<rparr>"

definition demo_conn :: conn where
  "demo_conn = \<lparr> data = demo_db, clock = seconds 1000, sched = [] \<rparr>"

lemmas demo_simps = ana_def ana_web_def bob_def eve_def demo_agent_def demo_channel_def
  demo_db_def demo_conn_def empty_db_def

lemma quiet_demo_conn [simp]: "quiet demo_conn" "quiet (demo_conn\<lparr>clock := t\<rparr>)"
  by (simp_all add: quiet_def demo_conn_def)

end
