(* ===== verification/Locks.thy ===== *)
theory Locks
  imports Leases Samples
begin

text \<open>
  \<open>store/locks.rs\<close>: named advisory locks with a time to live. The table \<open>locks\<close> has one
  row per (team, name); an expired row is as good as none. Acquiring is one
  \<open>INSERT .. ON CONFLICT DO UPDATE .. WHERE\<close>, releasing one \<open>DELETE\<close>.
\<close>

subsection \<open>Names, rows and results\<close>

definition DEFAULT_TTL_SECS :: int where
  "DEFAULT_TTL_SECS = 300"

definition MAX_TTL_SECS :: int where
  "MAX_TTL_SECS = 86400"

definition normalize_lock_name :: "string \<Rightarrow> string bus_result" where
  "normalize_lock_name raw =
     (let name = lower (trim raw)
      in if name = [] then Inl (Invalid (LockWhy LockNameEmpty))
         else if 128 < length name then Inl (Invalid (LockWhy LockNameTooLong))
         else Inr name)"

record lock_view =
  lr_name :: string
  lr_holder :: string
  lr_session :: "string option"
  lr_purpose :: "string option"
  lr_acquired :: timestamp
  lr_expires :: timestamp

record lock_info =
  li_name :: string
  li_holder :: string
  li_session :: "string option"
  li_purpose :: "string option"
  li_acquired :: timestamp
  li_expires :: timestamp

definition lock_info_of :: "lock_view \<Rightarrow> lock_info" where
  "lock_info_of r =
     \<lparr> li_name = lr_name r, li_holder = lr_holder r, li_session = non_empty (lr_session r),
       li_purpose = lr_purpose r, li_acquired = lr_acquired r, li_expires = lr_expires r \<rparr>"

text \<open>"held by {holder}{session} until {until}", with "?" and "unknown" as the fallbacks.\<close>

datatype lock_reason = HeldUntil string "string option" "timestamp option"

record lock_result =
  lres_acquired :: bool
  lres_lock :: "lock_info option"
  lres_reason :: "lock_reason option"

record ack =
  ack_ok :: bool
  ack_detail :: string

definition quoted :: "string \<Rightarrow> string" where
  "quoted s = CHR 0x27 # s @ [CHR 0x27]"

text \<open>\<open>LOCK_SELECT\<close>: the join drops a row whose holder is not in \<open>agents\<close>.\<close>

definition lock_view_of :: "db \<Rightarrow> lock_row \<Rightarrow> lock_view option" where
  "lock_view_of d l = map_option (\<lambda>holder.
     \<lparr> lr_name = lk_name l, lr_holder = holder, lr_session = lk_session l,
       lr_purpose = lk_purpose l, lr_acquired = lk_acquired l, lr_expires = lk_expires l \<rparr>)
     (agent_name_of d (lk_holder l))"

definition lock_key :: "lock_row \<Rightarrow> uuid \<times> string" where
  "lock_key l = (lk_team l, lk_name l)"

definition find_lock :: "db \<Rightarrow> uuid \<times> string \<Rightarrow> lock_row option" where
  "find_lock d k = List.find (\<lambda>l. lock_key l = k) (locks d)"

definition select_lock :: "uuid \<Rightarrow> string \<Rightarrow> db \<Rightarrow> lock_view option" where
  "select_lock team name d = Option.bind (find_lock d (team, name)) (lock_view_of d)"

subsection \<open>Statements\<close>

definition lock_held_by :: "uuid \<Rightarrow> string \<Rightarrow> lock_row \<Rightarrow> bool" where
  "lock_held_by agent sess l \<longleftrightarrow> lk_holder l = agent \<and> coalesce (lk_session l) = sess"

definition excluded_lock ::
  "uuid \<Rightarrow> uuid \<Rightarrow> string \<Rightarrow> string \<Rightarrow> int \<Rightarrow> string option \<Rightarrow> timestamp \<Rightarrow> lock_row" where
  "excluded_lock team agent sess name ttl purpose now =
     \<lparr> lk_team = team, lk_name = name, lk_holder = agent, lk_session = Some sess,
       lk_purpose = purpose, lk_acquired = now, lk_expires = now + seconds ttl \<rparr>"

definition take_over :: "lock_row \<Rightarrow> lock_row \<Rightarrow> lock_row" where
  "take_over new old = old
     \<lparr> lk_holder := lk_holder new, lk_session := lk_session new,
       lk_purpose := or_keep (lk_purpose new) (lk_purpose old),
       lk_acquired := (if lock_held_by (lk_holder new) (coalesce (lk_session new)) old
                       then lk_acquired old else lk_acquired new),
       lk_expires := lk_expires new \<rparr>"

definition acquire_stmt ::
  "externals \<Rightarrow> uuid \<Rightarrow> uuid \<Rightarrow> string \<Rightarrow> string \<Rightarrow> int \<Rightarrow> string option
     \<Rightarrow> timestamp \<Rightarrow> db \<Rightarrow> bool \<times> db" where
  "acquire_stmt x team agent sess name ttl purpose now d =
     (let new = excluded_lock team agent sess name ttl purpose now
      in case find_lock d (team, name) of
           None \<Rightarrow> (True, fire_lock x now Inserted new (d\<lparr>locks := locks d @ [new]\<rparr>))
         | Some old \<Rightarrow>
             if lk_expires old < now \<or> lock_held_by agent sess old
             then (True, fire_lock x now Updated (take_over new old)
                     (d\<lparr>locks := update_where (\<lambda>l. lock_key l = (team, name)) (take_over new) (locks d)\<rparr>))
             else (False, d))"

definition release_stmt ::
  "externals \<Rightarrow> uuid \<Rightarrow> uuid \<Rightarrow> string \<Rightarrow> string \<Rightarrow> timestamp \<Rightarrow> db \<Rightarrow> bool \<times> db" where
  "release_stmt x team agent sess name now d =
     (case List.find (\<lambda>l. lock_key l = (team, name) \<and> lock_held_by agent sess l) (locks d) of
        None \<Rightarrow> (False, d)
      | Some old \<Rightarrow>
          (True, fire_lock x now Deleted old
             (d\<lparr>locks := filter (\<lambda>l. \<not> (lock_key l = (team, name) \<and> lock_held_by agent sess l)) (locks d)\<rparr>)))"

subsection \<open>Handlers\<close>

definition lock_ttl :: "int option \<Rightarrow> int" where
  "lock_ttl ttl = clamp 5 MAX_TTL_SECS (case ttl of None \<Rightarrow> DEFAULT_TTL_SECS | Some t \<Rightarrow> t)"

definition held_result :: "lock_view option \<Rightarrow> lock_result" where
  "held_result current =
     \<lparr> lres_acquired = False, lres_lock = map_option lock_info_of current,
       lres_reason = Some (HeldUntil
         (case current of None \<Rightarrow> ''?'' | Some l \<Rightarrow> lr_holder l)
         (non_empty (Option.bind current lr_session))
         (map_option lr_expires current)) \<rparr>"

definition acquire_lock ::
  "externals \<Rightarrow> auth_ctx \<Rightarrow> string \<Rightarrow> int option \<Rightarrow> string option \<Rightarrow> lock_result io" where
  "acquire_lock x auth raw ttl_seconds purpose =
     bind_io (lift (normalize_lock_name raw)) (\<lambda>name.
     bind_io (execute (acquire_stmt x (team_id auth) (agent_id auth) (session auth) name
                (lock_ttl ttl_seconds) purpose)) (\<lambda>acquired.
     bind_io (query (\<lambda>now. select_lock (team_id auth) name)) (\<lambda>current.
     ret (if acquired
          then \<lparr> lres_acquired = True, lres_lock = map_option lock_info_of current,
                 lres_reason = None \<rparr>
          else held_result current))))"

definition live_lock :: "uuid \<Rightarrow> string \<Rightarrow> timestamp \<Rightarrow> db \<Rightarrow> lock_view option" where
  "live_lock team name now d =
     Option.bind (select_lock team name d) (\<lambda>l. if now < lr_expires l then Some l else None)"

definition release_lock :: "externals \<Rightarrow> auth_ctx \<Rightarrow> string \<Rightarrow> ack io" where
  "release_lock x auth raw =
     bind_io (lift (normalize_lock_name raw)) (\<lambda>name.
     bind_io (execute (release_stmt x (team_id auth) (agent_id auth) (session auth) name)) (\<lambda>released.
     if released
     then ret \<lparr> ack_ok = True, ack_detail = ''released lock '' @ quoted name \<rparr>
     else bind_io (query (live_lock (team_id auth) name)) (\<lambda>current.
       case current of
         Some l \<Rightarrow>
           if lr_holder l = agent_name auth
           then raise (Conflict (LockWhy (LockHeldByOwnSession name (non_empty (lr_session l)))))
           else raise (Conflict (LockWhy (LockHeldBy name (lr_holder l) (non_empty (lr_session l)))))
       | None \<Rightarrow> ret \<lparr> ack_ok = False, ack_detail = ''lock '' @ quoted name @ '' was not held'' \<rparr>)))"

definition select_live_locks :: "uuid \<Rightarrow> timestamp \<Rightarrow> db \<Rightarrow> lock_view list" where
  "select_live_locks team now d =
     order_by lr_name (List.map_filter (lock_view_of d)
       (filter (\<lambda>l. lk_team l = team \<and> now < lk_expires l) (locks d)))"

definition list_locks :: "auth_ctx \<Rightarrow> lock_info list io" where
  "list_locks auth =
     bind_io (query (select_live_locks (team_id auth))) (\<lambda>rows. ret (map lock_info_of rows))"

subsection \<open>One row per name\<close>

definition wf_locks :: "db \<Rightarrow> bool" where
  "wf_locks d \<longleftrightarrow> distinct (map lock_key (locks d))"

lemma lock_key_excluded [simp]:
  "lock_key (excluded_lock team agent sess name ttl purpose now) = (team, name)"
  by (simp add: lock_key_def excluded_lock_def)

lemma lock_key_take_over [simp]: "lock_key (take_over new old) = lock_key old"
  by (simp add: lock_key_def take_over_def)

lemma find_lock_fire [simp]:
  "find_lock (fire_lock x now op l d) k = find_lock d k"
  by (simp add: find_lock_def)

lemma find_lock_key: "find_lock d k = Some l \<Longrightarrow> l \<in> set (locks d) \<and> lock_key l = k"
  unfolding find_lock_def by (drule find_Some_set) simp

lemma wf_locks_find:
  "wf_locks d \<Longrightarrow> l \<in> set (locks d) \<Longrightarrow> find_lock d (lock_key l) = Some l"
  unfolding wf_locks_def find_lock_def by (rule find_unique) auto

lemma find_lock_acquire:
  "find_lock (snd (acquire_stmt x team agent sess name ttl purpose now d)) k =
     (if k \<noteq> (team, name) then find_lock d k
      else case find_lock d k of
          None \<Rightarrow> Some (excluded_lock team agent sess name ttl purpose now)
        | Some old \<Rightarrow>
            if lk_expires old < now \<or> lock_held_by agent sess old
            then Some (take_over (excluded_lock team agent sess name ttl purpose now) old)
            else Some old)"
proof (cases "find_lock d (team, name)")
  case None
  then show ?thesis
    by (auto simp: acquire_stmt_def Let_def find_lock_def find_append split: option.splits)
next
  case (Some old)
  let ?new = "excluded_lock team agent sess name ttl purpose now"
  have "find_lock (d\<lparr>locks := update_where (\<lambda>l. lock_key l = (team, name)) (take_over ?new) (locks d)\<rparr>) k
     = map_option (\<lambda>l. if lock_key l = (team, name) then take_over ?new l else l) (find_lock d k)"
    by (simp add: find_lock_def find_update_where)
  moreover have "lock_key l = k" if "find_lock d k = Some l" for l
    using find_lock_key [OF that] by simp
  ultimately show ?thesis
    using Some by (cases "find_lock d k") (auto simp: acquire_stmt_def Let_def)
qed

lemma acquire_stmt_won:
  "fst (acquire_stmt x team agent sess name ttl purpose now d) \<longleftrightarrow>
     (\<forall>old. find_lock d (team, name) = Some old \<longrightarrow>
        lk_expires old < now \<or> lock_held_by agent sess old)"
  by (auto simp: acquire_stmt_def Let_def split: option.splits)

lemma wf_acquire_stmt:
  assumes "wf_locks d"
  shows "wf_locks (snd (acquire_stmt x team agent sess name ttl purpose now d))"
proof (cases "find_lock d (team, name)")
  case None
  then have "(team, name) \<notin> lock_key ` set (locks d)"
    by (auto simp: find_lock_def find_None_iff_set)
  with None assms show ?thesis by (simp add: acquire_stmt_def Let_def wf_locks_def)
next
  case (Some old)
  with assms show ?thesis
    by (simp add: acquire_stmt_def Let_def wf_locks_def map_update_where)
qed

lemma release_stmt_found:
  assumes "wf_locks d"
  shows "List.find (\<lambda>l. lock_key l = k \<and> lock_held_by agent sess l) (locks d) =
    (case find_lock d k of None \<Rightarrow> None
      | Some l \<Rightarrow> if lock_held_by agent sess l then Some l else None)"
  using assms unfolding wf_locks_def find_lock_def by (rule find_key_conj)

lemma release_stmt_won:
  "wf_locks d \<Longrightarrow> fst (release_stmt x team agent sess name now d) \<longleftrightarrow>
     (\<exists>l. find_lock d (team, name) = Some l \<and> lock_held_by agent sess l)"
  by (auto simp: release_stmt_def release_stmt_found split: option.splits)

lemma find_lock_release:
  assumes "wf_locks d"
  shows "find_lock (snd (release_stmt x team agent sess name now d)) k =
     (case find_lock d k of None \<Rightarrow> None
      | Some l \<Rightarrow> if k = (team, name) \<and> lock_held_by agent sess l then None else Some l)"
proof -
  let ?hit = "\<lambda>l. lock_key l = (team, name) \<and> lock_held_by agent sess l"
  have gone: "List.find (\<lambda>l. lock_key l = k) (filter (\<lambda>l. \<not> ?hit l) (locks d)) =
      (case find_lock d k of None \<Rightarrow> None
       | Some l \<Rightarrow> if k = (team, name) \<and> lock_held_by agent sess l then None else Some l)"
    using find_key_filter [OF assms [unfolded wf_locks_def], of k "\<lambda>l. \<not> ?hit l"] find_lock_key [of d k]
    by (auto simp: find_lock_def split: option.splits)
  show ?thesis
  proof (cases "List.find ?hit (locks d)")
    case None
    then show ?thesis
      using find_lock_key [of d k]
      by (auto simp: release_stmt_def find_None_iff_set split: option.splits)
  next
    case (Some l)
    then show ?thesis using gone by (simp add: release_stmt_def find_lock_def)
  qed
qed

lemma wf_release_stmt:
  "wf_locks d \<Longrightarrow> wf_locks (snd (release_stmt x team agent sess name now d))"
  by (auto simp: release_stmt_def wf_locks_def distinct_map_filter split: option.splits)

lemmas lock_row_simps = take_over_def excluded_lock_def lock_held_by_def

subsection \<open>Locks are leases\<close>

definition lock_held :: "db \<Rightarrow> uuid \<times> string \<Rightarrow> (holder \<times> timestamp) option" where
  "lock_held d k = map_option (\<lambda>l. ((lk_holder l, coalesce (lk_session l)), lk_expires l)) (find_lock d k)"

definition lock_take ::
  "externals \<Rightarrow> timestamp \<Rightarrow> holder \<Rightarrow> uuid \<times> string \<Rightarrow> int \<times> string option \<Rightarrow> db \<Rightarrow> bool \<times> db" where
  "lock_take x now w k a = acquire_stmt x (fst k) (fst w) (snd w) (snd k) (fst a) (snd a) now"

definition lock_give ::
  "externals \<Rightarrow> timestamp \<Rightarrow> holder \<Rightarrow> uuid \<times> string \<Rightarrow> db \<Rightarrow> bool \<times> db" where
  "lock_give x now w k = release_stmt x (fst k) (fst w) (snd w) (snd k) now"

interpretation lock_lease: lease_table wf_locks lock_held "\<lambda>d k. True" "\<lambda>a. seconds (fst a)"
  "lock_take x" "lock_give x" for x
proof
  fix d now w k a k'
  assume wf: "wf_locks d"
  show "wf_locks (snd (lock_take x now w k a d))" "wf_locks (snd (lock_give x now w k d))"
    using wf by (simp_all add: lock_take_def lock_give_def wf_acquire_stmt wf_release_stmt)
  show "fst (lock_take x now w k a d) \<longleftrightarrow>
      True \<and> (\<forall>v e. lock_held d k = Some (v, e) \<longrightarrow> v = w \<or> e < now)"
    by (cases w) (auto simp: lock_take_def acquire_stmt_won lock_held_def lock_held_by_def)
  show "fst (lock_take x now w k a d) \<Longrightarrow>
      lock_held (snd (lock_take x now w k a d)) k = Some (w, now + seconds (fst a))"
    by (cases w)
      (auto simp: lock_take_def acquire_stmt_won lock_held_def find_lock_acquire lock_row_simps
        split: option.splits)
  show "\<not> fst (lock_take x now w k a d) \<Longrightarrow>
      lock_held (snd (lock_take x now w k a d)) k = lock_held d k"
    by (auto simp: lock_take_def acquire_stmt_won lock_held_def find_lock_acquire)
  show "k' \<noteq> k \<Longrightarrow> lock_held (snd (lock_take x now w k a d)) k' = lock_held d k'"
    by (simp add: lock_take_def lock_held_def find_lock_acquire)
  show "fst (lock_give x now w k d) \<longleftrightarrow> (\<exists>e. lock_held d k = Some (w, e))"
    using wf by (cases w) (auto simp: lock_give_def release_stmt_won lock_held_def lock_held_by_def)
  show "fst (lock_give x now w k d) \<Longrightarrow> lock_held (snd (lock_give x now w k d)) k = None"
    using wf by (auto simp: lock_give_def release_stmt_won find_lock_release lock_held_def)
  show "\<not> fst (lock_give x now w k d) \<Longrightarrow>
      lock_held (snd (lock_give x now w k d)) k = lock_held d k"
    using wf by (auto simp: lock_give_def release_stmt_won find_lock_release lock_held_def
        split: option.splits)
  show "k' \<noteq> k \<Longrightarrow> lock_held (snd (lock_give x now w k d)) k' = lock_held d k'"
    using wf by (auto simp: lock_give_def find_lock_release lock_held_def split: option.splits)
qed

subsection \<open>Every handler keeps the table well formed\<close>

lemma keeps_acquire_lock [keeps_intros]:
  "keeps wf_locks (acquire_lock x auth raw ttl purpose)"
  unfolding acquire_lock_def
  by (intro keeps_intros keeps_execute wf_acquire_stmt)

lemma keeps_release_lock [keeps_intros]: "keeps wf_locks (release_lock x auth raw)"
  unfolding release_lock_def
  by (auto intro!: keeps_intros keeps_execute wf_release_stmt split: option.splits)

lemma keeps_list_locks [keeps_intros]: "keeps I (list_locks auth)"
  unfolding list_locks_def by (intro keeps_intros)

subsection \<open>Names\<close>

lemma normalize_lock_name_Inr:
  "normalize_lock_name raw = Inr name \<longleftrightarrow>
     name = lower (trim raw) \<and> name \<noteq> [] \<and> length name \<le> 128"
  by (auto simp: normalize_lock_name_def Let_def)

interpretation lock_names: canonical_names normalize_lock_name
  by standard (auto simp: normalize_lock_name_Inr)

subsection \<open>What the handlers answer\<close>

definition lock_free :: "auth_ctx \<Rightarrow> string \<Rightarrow> timestamp \<Rightarrow> db \<Rightarrow> bool" where
  "lock_free auth name now d \<longleftrightarrow>
     (case find_lock d (team_id auth, name) of
        None \<Rightarrow> True
      | Some l \<Rightarrow> lk_expires l < now \<or> lock_held_by (agent_id auth) (session auth) l)"

lemma acquire_stmt_fst:
  "fst (acquire_stmt x (team_id auth) (agent_id auth) (session auth) name ttl purpose now d) =
     lock_free auth name now d"
  by (auto simp: acquire_stmt_won lock_free_def split: option.splits)

lemma agents_acquire_stmt [simp]:
  "agents (snd (acquire_stmt x team agent sess name ttl purpose now d)) = agents d"
  by (auto simp: acquire_stmt_def Let_def split: option.splits)

lemma agents_release_stmt [simp]:
  "agents (snd (release_stmt x team agent sess name now d)) = agents d"
  by (auto simp: release_stmt_def split: option.splits)

lemma acquire_lock_quiet:
  assumes "quiet c" and "normalize_lock_name raw = Inr name"
  shows "acquire_lock x auth raw ttl purpose c =
    (let r = acquire_stmt x (team_id auth) (agent_id auth) (session auth) name
           (lock_ttl ttl) purpose (clock c) (data c);
         current = select_lock (team_id auth) name (snd r)
     in (Inr (if lock_free auth name (clock c) (data c) then \<lparr> lres_acquired = True, lres_lock = map_option lock_info_of current,
                            lres_reason = None \<rparr>
              else held_result current), c\<lparr>data := snd r\<rparr>))"
  using assms
  by (simp add: acquire_lock_def quiet_simps Let_def case_prod_unfold acquire_stmt_fst)

definition acquired_info ::
  "auth_ctx \<Rightarrow> string \<Rightarrow> string \<Rightarrow> int option \<Rightarrow> string option \<Rightarrow> timestamp \<Rightarrow> db \<Rightarrow> lock_info" where
  "acquired_info auth me name ttl purpose now d =
     (let old = find_lock d (team_id auth, name);
          mine = (case old of None \<Rightarrow> False
                  | Some l \<Rightarrow> lock_held_by (agent_id auth) (session auth) l)
      in \<lparr> li_name = name, li_holder = me, li_session = session_label auth,
           li_purpose = or_keep purpose (Option.bind old lk_purpose),
           li_acquired = (if mine then lk_acquired (the old) else now),
           li_expires = now + seconds (lock_ttl ttl) \<rparr>)"

lemma acquire_lock_run:
  assumes "quiet c" and "normalize_lock_name raw = Inr name"
    and "agent_name_of (data c) (agent_id auth) = Some me"
  shows "if lock_free auth name (clock c) (data c)
    then \<exists>d. acquire_lock x auth raw ttl purpose c =
        (Inr \<lparr> lres_acquired = True,
               lres_lock = Some (acquired_info auth me name ttl purpose (clock c) (data c)),
               lres_reason = None \<rparr>, c\<lparr>data := d\<rparr>)
      \<and> lock_held d (team_id auth, name)
          = Some ((agent_id auth, session auth), clock c + seconds (lock_ttl ttl))
    else \<exists>l. find_lock (data c) (team_id auth, name) = Some l
      \<and> acquire_lock x auth raw ttl purpose c
          = (Inr (held_result (lock_view_of (data c) l)), c)"
proof (cases "lock_free auth name (clock c) (data c)")
  case True
  let ?r = "acquire_stmt x (team_id auth) (agent_id auth) (session auth) name
      (lock_ttl ttl) purpose (clock c) (data c)"
  let ?k = "(team_id auth, name)"
  have me: "agent_name_of (snd ?r) (agent_id auth) = Some me"
    using assms(3) agent_name_of_frame [OF agents_acquire_stmt] by metis
  have row: "find_lock (snd ?r) ?k = Some l \<Longrightarrow>
      map_option lock_info_of (lock_view_of (snd ?r) l)
        = Some (acquired_info auth me name ttl purpose (clock c) (data c))
      \<and> lk_holder l = agent_id auth \<and> coalesce (lk_session l) = session auth
      \<and> lk_expires l = clock c + seconds (lock_ttl ttl)" for l
    using True me find_lock_key [of "data c" ?k]
    by (auto simp: find_lock_acquire lock_free_def acquired_info_def lock_view_of_def
        lock_info_of_def lock_row_simps Let_def lock_key_def split: option.splits if_splits)
  have "find_lock (snd ?r) ?k \<noteq> None"
    by (auto simp: find_lock_acquire split: option.splits)
  then obtain l where l: "find_lock (snd ?r) ?k = Some l" by blast
  have "acquire_lock x auth raw ttl purpose c =
      (Inr \<lparr> lres_acquired = True,
             lres_lock = Some (acquired_info auth me name ttl purpose (clock c) (data c)),
             lres_reason = None \<rparr>, c\<lparr>data := snd ?r\<rparr>)"
    using row [OF l] l True
    by (simp add: acquire_lock_quiet [OF assms(1,2)] select_lock_def Let_def)
  with True row [OF l] l show ?thesis by (auto simp: lock_held_def)
next
  case False
  then obtain l where l: "find_lock (data c) (team_id auth, name) = Some l"
    by (auto simp: lock_free_def split: option.splits)
  with False have "acquire_stmt x (team_id auth) (agent_id auth) (session auth) name
      (lock_ttl ttl) purpose (clock c) (data c) = (False, data c)"
    by (simp add: lock_free_def acquire_stmt_def Let_def)
  with False l show ?thesis
    by (simp add: acquire_lock_quiet [OF assms(1,2)] select_lock_def Let_def)
qed

text \<open>
  C10 (functional). What \<open>acquire_lock\<close> answers on a quiet connection: it succeeds exactly
  when the name is free, expired or already held by the calling session; then the lock it
  reports is the caller's, lasts the clamped time to live from now, keeps the old
  acquisition time on an extension, and keeps an old purpose unless a new one is given.
  Otherwise the database is untouched and the answer names the holder, its session and its
  expiry.
\<close>

theorem acquire_lock_outcome:
  assumes "quiet c" and "normalize_lock_name raw = Inr name"
    and "agent_name_of (data c) (agent_id auth) = Some me"
  shows "if lock_free auth name (clock c) (data c)
    then \<exists>d. acquire_lock x auth raw ttl purpose c =
        (Inr \<lparr> lres_acquired = True,
               lres_lock = Some (acquired_info auth me name ttl purpose (clock c) (data c)),
               lres_reason = None \<rparr>, c\<lparr>data := d\<rparr>)
      \<and> lock_held d (team_id auth, name)
          = Some ((agent_id auth, session auth), clock c + seconds (lock_ttl ttl))
    else \<exists>l. find_lock (data c) (team_id auth, name) = Some l
      \<and> acquire_lock x auth raw ttl purpose c
          = (Inr (held_result (lock_view_of (data c) l)), c)"
  using assms by (rule acquire_lock_run)

theorem acquire_lock_outcome_witness:
  "lock_free ana ''deploy'' (clock demo_conn) (data demo_conn) \<and>
   (\<exists>d. acquire_lock demo_ext ana '' Deploy'' (Some 2) None demo_conn =
      (Inr \<lparr> lres_acquired = True,
             lres_lock = Some (acquired_info ana ''ana'' ''deploy'' (Some 2) None
                (clock demo_conn) (data demo_conn)),
             lres_reason = None \<rparr>, demo_conn\<lparr>data := d\<rparr>))"
proof -
  have "normalize_lock_name '' Deploy'' = Inr ''deploy''" by code_simp
  moreover have "agent_name_of (data demo_conn) (agent_id ana) = Some ''ana''" by code_simp
  moreover have "lock_free ana ''deploy'' (clock demo_conn) (data demo_conn)" by code_simp
  ultimately show ?thesis
    using acquire_lock_outcome [of demo_conn "'' Deploy''" "''deploy''" ana "''ana''" demo_ext
        "Some 2" None] by auto
qed

text \<open>
  C1 (safety). Mutual exclusion. Once a session has acquired a lock, no other session
  acquires it before its expiry, whatever sequence of acquire and release statements, on
  this and on other locks, the other sessions run in between.
\<close>

theorem lock_exclusion:
  assumes "wf_locks d"
    and "fst (acquire_stmt x team a s name ttl p t d)"
    and "\<forall>op \<in> set ops. op_time op \<le> t'" and "t' \<le> t + seconds ttl"
    and "\<forall>op \<in> set ops. op_on op = (team, name) \<longrightarrow> op_by op \<noteq> (a, s)"
    and "(b, r) \<noteq> (a, s)"
  shows "\<not> fst (acquire_stmt x team b r name ttl' p' t'
      (fold (run_op (lock_take x) (lock_give x)) ops (snd (acquire_stmt x team a s name ttl p t d))))"
  using lock_lease.no_second_winner [of d x t "(a, s)" "(team, name)" "(ttl, p)" ops t' "(b, r)" "(ttl', p')"]
    assms by (simp add: lock_take_def)

theorem lock_exclusion_witness:
  "\<not> fst (acquire_stmt demo_ext 7 2 [] ''deploy'' 300 None (seconds 1299)
      (fold (run_op (lock_take demo_ext) (lock_give demo_ext))
         [Give (seconds 1100) (2, []) (7, ''deploy''),
          Take (seconds 1200) (1, ''web'') (7, ''deploy'') (60, None)]
         (snd (acquire_stmt demo_ext 7 1 [] ''deploy'' 300 None (seconds 1000) demo_db))))"
proof (rule lock_exclusion)
  show "wf_locks demo_db" by code_simp
  show "fst (acquire_stmt demo_ext 7 1 [] ''deploy'' 300 None (seconds 1000) demo_db)" by code_simp
qed (simp_all add: seconds_def)

lemma release_lock_quiet:
  assumes "quiet c" and "normalize_lock_name raw = Inr name"
  shows "release_lock x auth raw c =
    (let r = release_stmt x (team_id auth) (agent_id auth) (session auth) name (clock c) (data c)
     in if fst r
        then (Inr \<lparr> ack_ok = True, ack_detail = ''released lock '' @ quoted name \<rparr>, c\<lparr>data := snd r\<rparr>)
        else (case live_lock (team_id auth) name (clock c) (snd r) of
            None \<Rightarrow> (Inr \<lparr> ack_ok = False, ack_detail = ''lock '' @ quoted name @ '' was not held'' \<rparr>,
                      c\<lparr>data := snd r\<rparr>)
          | Some l \<Rightarrow> (Inl (Conflict (LockWhy
              (if lr_holder l = agent_name auth
               then LockHeldByOwnSession name (non_empty (lr_session l))
               else LockHeldBy name (lr_holder l) (non_empty (lr_session l))))), c\<lparr>data := snd r\<rparr>)))"
  using assms
  by (simp add: release_lock_def quiet_simps case_prod_unfold Let_def split: option.splits)

lemma release_stmt_lost:
  "\<not> fst (release_stmt x team agent sess name now d) \<Longrightarrow>
     snd (release_stmt x team agent sess name now d) = d"
  by (cases "List.find (\<lambda>l. lock_key l = (team, name) \<and> lock_held_by agent sess l) (locks d)")
    (simp_all add: release_stmt_def)

text \<open>
  \<open>release_lock\<close> on a quiet connection: it frees the lock exactly when the
  calling session holds it, expired or not, and touches no other lock; a live lock of
  somebody else, or of another session of the caller, is a conflict that names the holder;
  and a name nobody holds answers \<open>ok: false\<close> and changes nothing.
\<close>

theorem release_lock_outcome:
  assumes "quiet c" and "normalize_lock_name raw = Inr name" and "wf_locks (data c)"
  shows "case find_lock (data c) (team_id auth, name) of
      None \<Rightarrow> release_lock x auth raw c =
        (Inr \<lparr> ack_ok = False, ack_detail = ''lock '' @ quoted name @ '' was not held'' \<rparr>, c)
    | Some l \<Rightarrow>
        if lock_held_by (agent_id auth) (session auth) l
        then \<exists>d. release_lock x auth raw c =
               (Inr \<lparr> ack_ok = True, ack_detail = ''released lock '' @ quoted name \<rparr>, c\<lparr>data := d\<rparr>)
             \<and> (\<forall>k. find_lock d k =
                  (if k = (team_id auth, name) then None else find_lock (data c) k))
        else if lk_expires l \<le> clock c \<or> agent_name_of (data c) (lk_holder l) = None
        then release_lock x auth raw c =
          (Inr \<lparr> ack_ok = False, ack_detail = ''lock '' @ quoted name @ '' was not held'' \<rparr>, c)
        else release_lock x auth raw c =
          (Inl (Conflict (LockWhy
             (if agent_name_of (data c) (lk_holder l) = Some (agent_name auth)
              then LockHeldByOwnSession name (non_empty (lk_session l))
              else LockHeldBy name (the (agent_name_of (data c) (lk_holder l)))
                     (non_empty (lk_session l))))), c)"
proof -
  let ?r = "release_stmt x (team_id auth) (agent_id auth) (session auth) name (clock c) (data c)"
  note run = release_lock_quiet [OF assms(1,2)]
  note lost = release_stmt_lost [of x "team_id auth" "agent_id auth" "session auth" name "clock c" "data c"]
  show ?thesis
  proof (cases "find_lock (data c) (team_id auth, name)")
    case None
    then have "\<not> fst ?r" using release_stmt_won [OF assms(3)] by simp
    with None lost show ?thesis by (simp add: run Let_def live_lock_def select_lock_def)
  next
    case (Some l)
    show ?thesis
    proof (cases "lock_held_by (agent_id auth) (session auth) l")
      case True
      with Some have "fst ?r" using release_stmt_won [OF assms(3)] by simp
      moreover have "find_lock (snd ?r) k =
          (if k = (team_id auth, name) then None else find_lock (data c) k)" for k
        using Some True by (simp add: find_lock_release [OF assms(3)] split: option.splits)
      ultimately show ?thesis using Some True by (auto simp: run Let_def)
    next
      case False
      with Some have nr: "\<not> fst ?r" using release_stmt_won [OF assms(3)] by simp
      show ?thesis
        by (cases "agent_name_of (data c) (lk_holder l)")
          (simp_all add: Some False nr lost [OF nr] run Let_def live_lock_def select_lock_def
            lock_view_of_def not_less)
    qed
  qed
qed

theorem release_lock_outcome_witness:
  "release_lock demo_ext bob ''deploy'' demo_conn =
     (Inr \<lparr> ack_ok = False, ack_detail = ''lock '' @ quoted ''deploy'' @ '' was not held'' \<rparr>, demo_conn)"
proof -
  have "normalize_lock_name ''deploy'' = Inr ''deploy''" by code_simp
  moreover have "wf_locks (data demo_conn)" by code_simp
  moreover have "find_lock (data demo_conn) (team_id bob, ''deploy'') = None" by code_simp
  ultimately show ?thesis
    using release_lock_outcome [of demo_conn "''deploy''" "''deploy''" demo_ext bob] by simp
qed

text \<open>
  What the takeover of an expired lock shows: the new holder's lock still
  carries the previous holder's purpose when the new one gave none.
\<close>

theorem takeover_keeps_old_purpose:
  assumes "quiet c" and "normalize_lock_name raw = Inr name"
    and "agent_name_of (data c) (agent_id auth) = Some me"
    and "find_lock (data c) (team_id auth, name) = Some old"
    and "lk_expires old < clock c" and "lk_holder old \<noteq> agent_id auth"
  shows "\<exists>r info c'. acquire_lock x auth raw ttl None c = (Inr r, c') \<and> lres_lock r = Some info \<and>
    li_holder info = me \<and> li_purpose info = lk_purpose old"
proof -
  have "lock_free auth name (clock c) (data c)" using assms(4,5) by (simp add: lock_free_def)
  with acquire_lock_run [OF assms(1-3), of x ttl None] show ?thesis
    using assms(4) by (auto simp: acquired_info_def Let_def)
qed

definition stale_lock :: lock_row where
  "stale_lock = \<lparr> lk_team = 7, lk_name = ''deploy'', lk_holder = 1, lk_session = Some [],
     lk_purpose = Some ''hotfix 12'', lk_acquired = seconds 1, lk_expires = seconds 9 \<rparr>"

theorem takeover_keeps_old_purpose_witness:
  "\<exists>r info c'. acquire_lock demo_ext bob ''deploy'' None None
       (demo_conn\<lparr>data := demo_db\<lparr>locks := [stale_lock]\<rparr>\<rparr>) = (Inr r, c')
     \<and> lres_lock r = Some info \<and> li_holder info = ''bob'' \<and> li_purpose info = Some ''hotfix 12''"
proof -
  let ?c = "demo_conn\<lparr>data := demo_db\<lparr>locks := [stale_lock]\<rparr>\<rparr>"
  have "normalize_lock_name ''deploy'' = Inr ''deploy''" by code_simp
  moreover have "agent_name_of (data ?c) (agent_id bob) = Some ''bob''" by code_simp
  moreover have "find_lock (data ?c) (team_id bob, ''deploy'') = Some stale_lock" by code_simp
  moreover have "lk_expires stale_lock < clock ?c" by code_simp
  moreover have "lk_holder stale_lock \<noteq> agent_id bob" by code_simp
  ultimately show ?thesis
    using takeover_keeps_old_purpose [of ?c "''deploy''" "''deploy''" bob "''bob''" stale_lock demo_ext None]
    by (simp add: stale_lock_def)
qed

end
