(* ===== verification/Tasks.thy ===== *)
theory Tasks
  imports Leases Samples
begin

text \<open>
  \<open>store/tasks.rs\<close>: the task queue. A task is open, claimed under a lease by one session of
  one agent, done or cancelled; it may depend on tasks created before it and cannot be
  claimed until they are finished. Every state change is one \<open>UPDATE .. WHERE .. RETURNING\<close>,
  followed by an entry in the task's history.
\<close>

subsection \<open>Constants, keys and rows\<close>

definition DEFAULT_LEASE_SECS :: int where
  "DEFAULT_LEASE_SECS = 900"

definition MAX_LEASE_SECS :: int where
  "MAX_LEASE_SECS = 86400"

definition MAX_TASK_LIMIT :: int where
  "MAX_TASK_LIMIT = 200"

definition MAX_TITLE_BYTES :: nat where
  "MAX_TITLE_BYTES = 512"

definition MAX_DESCRIPTION_BYTES :: nat where
  "MAX_DESCRIPTION_BYTES = 64 * 1024"

definition MAX_RESULT_BYTES :: nat where
  "MAX_RESULT_BYTES = 64 * 1024"

definition MAX_DEPENDENCIES :: nat where
  "MAX_DEPENDENCIES = 32"

definition normalize_key :: "string \<Rightarrow> string bus_result" where
  "normalize_key raw =
     (let key = trim raw
      in if key = [] then Inl (Invalid (TaskWhy TaskKeyEmpty))
         else if 128 < length key then Inl (Invalid (TaskWhy TaskKeyTooLong))
         else Inr key)"

lemma normalize_key_Inr:
  "normalize_key raw = Inr key \<longleftrightarrow> key = trim raw \<and> key \<noteq> [] \<and> length key \<le> 128"
  by (auto simp: normalize_key_def Let_def)

interpretation task_names: canonical_names normalize_key
  by standard (auto simp: normalize_key_Inr)

record task_view =
  tv_key :: string
  tv_title :: string
  tv_description :: "string option"
  tv_status :: task_status
  tv_depends_on :: "string list"
  tv_blocked :: bool
  tv_claimed_by :: "string option"
  tv_claimed_session :: "string option"
  tv_claimed_at :: "timestamp option"
  tv_lease :: "timestamp option"
  tv_result :: "string option"
  tv_metadata :: json
  tv_attachments :: "attachment_meta list"
  tv_created_by :: "string option"
  tv_created :: timestamp
  tv_updated :: timestamp

text \<open>\<open>TaskInfo\<close> is the row with the two fields computed from the lease.\<close>

record task_info = task_view +
  ti_lease_seconds_remaining :: "int option"
  ti_lease_expired :: bool

text \<open>\<open>num_seconds\<close> drops the fraction; \<open>max(0)\<close> hides a negative count.\<close>

definition task_info_of :: "timestamp \<Rightarrow> task_view \<Rightarrow> task_info" where
  "task_info_of now r = task_view.extend
     (r\<lparr>tv_claimed_session := non_empty (tv_claimed_session r)\<rparr>)
     \<lparr> ti_lease_seconds_remaining =
         (if tv_status r = Claimed
          then map_option (\<lambda>e. max 0 ((e - now) div 1000000)) (tv_lease r) else None),
       ti_lease_expired =
         (tv_status r = Claimed \<and> (case tv_lease r of None \<Rightarrow> False | Some e \<Rightarrow> e < now)) \<rparr>"

subsection \<open>Queries\<close>

definition finished :: "task_status \<Rightarrow> bool" where
  "finished s \<longleftrightarrow> s = Done \<or> s = Cancelled"

definition blockers :: "db \<Rightarrow> uuid \<Rightarrow> task_row list" where
  "blockers d i = filter (\<lambda>b. (i, ts_id b) \<in> set (task_deps d)) (tasks d)"

definition blocked :: "db \<Rightarrow> uuid \<Rightarrow> bool" where
  "blocked d i \<longleftrightarrow> list_ex (\<lambda>b. \<not> finished (ts_status b)) (blockers d i)"

definition task_view_of :: "db \<Rightarrow> task_row \<Rightarrow> task_view" where
  "task_view_of d t =
     \<lparr> tv_key = ts_key t, tv_title = ts_title t, tv_description = ts_description t,
       tv_status = ts_status t,
       tv_depends_on = order_by id (map ts_key (blockers d (ts_id t))),
       tv_blocked = blocked d (ts_id t),
       tv_claimed_by = Option.bind (ts_claimed_by t) (agent_name_of d),
       tv_claimed_session = ts_claimed_session t, tv_claimed_at = ts_claimed_at t,
       tv_lease = ts_lease t, tv_result = ts_result t, tv_metadata = ts_metadata t,
       tv_attachments = task_metas d (ts_id t),
       tv_created_by = Option.bind (ts_created_by t) (agent_name_of d),
       tv_created = ts_created t, tv_updated = ts_updated t \<rparr>"

definition task_key :: "task_row \<Rightarrow> uuid \<times> string" where
  "task_key t = (ts_team t, ts_key t)"

definition find_task :: "db \<Rightarrow> uuid \<times> string \<Rightarrow> task_row option" where
  "find_task d k = List.find (\<lambda>t. task_key t = k) (tasks d)"

definition task_by_id :: "db \<Rightarrow> uuid \<Rightarrow> task_row option" where
  "task_by_id d i = List.find (\<lambda>t. ts_id t = i) (tasks d)"

definition fetch_task :: "auth_ctx \<Rightarrow> string \<Rightarrow> task_info io" where
  "fetch_task auth key =
     bind_io (query (\<lambda>now d. map_option (\<lambda>t. task_info_of now (task_view_of d t))
                (find_task d (team_id auth, key)))) (\<lambda>row.
     lift (ok_or row (NotFound (TaskWhy (NoTask key)))))"

record task_event_info =
  tei_event :: string
  tei_agent :: "string option"
  tei_detail :: "string option"
  tei_created :: timestamp

record task_detail =
  td_task :: task_info
  td_history :: "task_event_info list"

definition event_info_of :: "db \<Rightarrow> event_row \<Rightarrow> task_event_info" where
  "event_info_of d e = \<lparr> tei_event = te_event e,
     tei_agent = Option.bind (te_agent e) (agent_name_of d),
     tei_detail = te_detail e, tei_created = te_created e \<rparr>"

definition select_history :: "uuid \<Rightarrow> string \<Rightarrow> db \<Rightarrow> task_event_info list" where
  "select_history team key d = (case find_task d (team, key) of
       None \<Rightarrow> []
     | Some t \<Rightarrow> map (event_info_of d)
         (order_by te_id (filter (\<lambda>e. te_task e = ts_id t) (task_events d))))"

definition get_task :: "auth_ctx \<Rightarrow> string \<Rightarrow> task_detail io" where
  "get_task auth key =
     bind_io (fetch_task auth key) (\<lambda>task.
     bind_io (query (\<lambda>now. select_history (team_id auth) (trim key))) (\<lambda>rows.
     ret \<lparr> td_task = task, td_history = rows \<rparr>))"

text \<open>\<open>list_tasks\<close>: claimed first, then open, then the rest; newest change first.\<close>

fun parse_status :: "string \<Rightarrow> task_status option" where
  "parse_status s =
     (if s = ''open'' then Some Open else if s = ''claimed'' then Some Claimed
      else if s = ''done'' then Some Done else if s = ''cancelled'' then Some Cancelled
      else None)"

fun status_rank :: "task_status \<Rightarrow> nat" where
  "status_rank Claimed = 0"
| "status_rank Open = 1"
| "status_rank Done = 2"
| "status_rank Cancelled = 2"

definition claimed_here :: "uuid \<Rightarrow> string \<Rightarrow> task_row \<Rightarrow> bool" where
  "claimed_here agent sess t \<longleftrightarrow>
     ts_claimed_by t = Some agent \<and> coalesce (ts_claimed_session t) = sess"

record task_list =
  tl_tasks :: "task_info list"
  tl_open :: nat
  tl_claimed :: nat

definition select_tasks ::
  "uuid \<Rightarrow> uuid \<Rightarrow> string \<Rightarrow> task_status option \<Rightarrow> bool \<Rightarrow> int \<Rightarrow> timestamp \<Rightarrow> db \<Rightarrow> task_info list" where
  "select_tasks team agent sess status mine limit now d =
     map (\<lambda>t. task_info_of now (task_view_of d t))
       (take (nat limit)
         (order_by (\<lambda>t. status_rank (ts_status t)) (order_by (\<lambda>t. - ts_updated t)
           (filter (\<lambda>t. ts_team t = team \<and> (status = None \<or> status = Some (ts_status t)) \<and>
                        (mine \<longrightarrow> claimed_here agent sess t)) (tasks d)))))"

definition count_tasks :: "uuid \<Rightarrow> task_status \<Rightarrow> db \<Rightarrow> nat" where
  "count_tasks team s d = length (filter (\<lambda>t. ts_team t = team \<and> ts_status t = s) (tasks d))"

definition status_filter :: "string option \<Rightarrow> task_status option bus_result" where
  "status_filter status = (case map_option (\<lambda>s. lower (trim s)) status of
       None \<Rightarrow> Inr None
     | Some s \<Rightarrow> if s = ''any'' then Inr None
         else (case parse_status s of None \<Rightarrow> Inl (Invalid (TaskWhy BadTaskStatus))
               | Some st \<Rightarrow> Inr (Some st)))"

definition list_tasks :: "auth_ctx \<Rightarrow> string option \<Rightarrow> bool \<Rightarrow> int \<Rightarrow> task_list io" where
  "list_tasks auth status mine_only limit =
     bind_io (lift (status_filter status)) (\<lambda>st.
     bind_io (query (select_tasks (team_id auth) (agent_id auth) (session auth) st mine_only
                (clamp 1 MAX_TASK_LIMIT limit))) (\<lambda>rows.
     bind_io (query (\<lambda>now d. (count_tasks (team_id auth) Open d, count_tasks (team_id auth) Claimed d)))
       (\<lambda>(n_open, n_claimed). ret \<lparr> tl_tasks = rows, tl_open = n_open, tl_claimed = n_claimed \<rparr>)))"

subsection \<open>Statements\<close>

definition log_event_stmt ::
  "uuid \<Rightarrow> uuid \<Rightarrow> string \<Rightarrow> string option \<Rightarrow> timestamp \<Rightarrow> db \<Rightarrow> (unit \<times> db) option" where
  "log_event_stmt task agent event detail now d =
     (if task_by_id d task = None then None
      else Some ((), d\<lparr>task_events := task_events d @
             [\<lparr> te_id = event_seq d, te_task = task, te_agent = Some agent, te_event = event,
                te_detail = detail, te_created = now \<rparr>],
           event_seq := event_seq d + 1\<rparr>))"

definition log_event :: "uuid \<Rightarrow> uuid \<Rightarrow> string \<Rightarrow> string option \<Rightarrow> unit io" where
  "log_event task agent event detail = sql (log_event_stmt task agent event detail)"

definition write_task :: "externals \<Rightarrow> timestamp \<Rightarrow> task_row \<Rightarrow> task_row \<Rightarrow> db \<Rightarrow> db" where
  "write_task x now old new d =
     fire_task x now (Some old) new
       (d\<lparr>tasks := update_where (\<lambda>t. ts_id t = ts_id old) (\<lambda>_. new) (tasks d)\<rparr>)"

text \<open>
  The \<open>UPDATE .. WHERE team_id = and key = and <cond> RETURNING id\<close> of every state change.
\<close>

definition update_task ::
  "externals \<Rightarrow> uuid \<Rightarrow> string \<Rightarrow> (db \<Rightarrow> task_row \<Rightarrow> bool) \<Rightarrow> (task_row \<Rightarrow> task_row)
     \<Rightarrow> timestamp \<Rightarrow> db \<Rightarrow> uuid option \<times> db" where
  "update_task x team key P f now d = (case find_task d (team, key) of
       None \<Rightarrow> (None, d)
     | Some t \<Rightarrow> if P d t then (Some (ts_id t), write_task x now t (f t) d) else (None, d))"

definition set_claim :: "uuid \<Rightarrow> string \<Rightarrow> int \<Rightarrow> timestamp \<Rightarrow> task_row \<Rightarrow> task_row" where
  "set_claim agent sess lease now t = t\<lparr> ts_status := Claimed, ts_claimed_by := Some agent,
     ts_claimed_session := Some sess, ts_claimed_at := Some now,
     ts_lease := Some (now + seconds lease), ts_updated := now \<rparr>"

definition claimable :: "uuid \<Rightarrow> string \<Rightarrow> timestamp \<Rightarrow> db \<Rightarrow> task_row \<Rightarrow> bool" where
  "claimable agent sess now d t \<longleftrightarrow>
     (ts_status t = Open \<or> ts_status t = Claimed) \<and>
     (ts_status t = Open \<or> claimed_here agent sess t \<or> ts_lease t = None
        \<or> (case ts_lease t of None \<Rightarrow> False | Some e \<Rightarrow> e < now)) \<and>
     \<not> blocked d (ts_id t)"

definition claim_stmt ::
  "externals \<Rightarrow> uuid \<Rightarrow> uuid \<Rightarrow> string \<Rightarrow> string \<Rightarrow> int \<Rightarrow> timestamp \<Rightarrow> db \<Rightarrow> uuid option \<times> db" where
  "claim_stmt x team agent sess key lease now =
     update_task x team key (claimable agent sess now) (set_claim agent sess lease now) now"

definition candidate :: "uuid \<Rightarrow> timestamp \<Rightarrow> db \<Rightarrow> task_row \<Rightarrow> bool" where
  "candidate team now d t \<longleftrightarrow>
     ts_team t = team \<and>
     (ts_status t = Open \<or> (ts_status t = Claimed \<and>
        (case ts_lease t of None \<Rightarrow> False | Some e \<Rightarrow> e < now))) \<and>
     \<not> blocked d (ts_id t)"

text \<open>No row is locked by others during a statement here, so \<open>SKIP LOCKED\<close> skips none.\<close>

definition claim_next_stmt ::
  "externals \<Rightarrow> uuid \<Rightarrow> uuid \<Rightarrow> string \<Rightarrow> int \<Rightarrow> timestamp \<Rightarrow> db \<Rightarrow> (uuid \<times> string) option \<times> db" where
  "claim_next_stmt x team agent sess lease now d =
     (case order_by ts_created (filter (candidate team now d) (tasks d)) of
        [] \<Rightarrow> (None, d)
      | t # _ \<Rightarrow> (Some (ts_id t, ts_key t), write_task x now t (set_claim agent sess lease now t) d))"

definition renew_stmt ::
  "externals \<Rightarrow> uuid \<Rightarrow> uuid \<Rightarrow> string \<Rightarrow> string \<Rightarrow> int \<Rightarrow> timestamp \<Rightarrow> db \<Rightarrow> uuid option \<times> db" where
  "renew_stmt x team agent sess key lease now =
     update_task x team key
       (\<lambda>d t. claimed_here agent sess t \<and> ts_status t = Claimed)
       (\<lambda>t. t\<lparr> ts_lease := Some (now + seconds lease), ts_updated := now \<rparr>) now"

definition release_task_stmt ::
  "externals \<Rightarrow> uuid \<Rightarrow> uuid \<Rightarrow> string \<Rightarrow> string \<Rightarrow> timestamp \<Rightarrow> db \<Rightarrow> uuid option \<times> db" where
  "release_task_stmt x team agent sess key now =
     update_task x team key
       (\<lambda>d t. claimed_here agent sess t \<and> ts_status t = Claimed)
       (\<lambda>t. t\<lparr> ts_status := Open, ts_claimed_by := None, ts_claimed_session := None,
               ts_claimed_at := None, ts_lease := None, ts_updated := now \<rparr>) now"

definition complete_stmt ::
  "externals \<Rightarrow> uuid \<Rightarrow> string \<Rightarrow> string option \<Rightarrow> timestamp \<Rightarrow> db \<Rightarrow> uuid option \<times> db" where
  "complete_stmt x team key res now =
     update_task x team key
       (\<lambda>d t. ts_status t = Open \<or> ts_status t = Claimed)
       (\<lambda>t. t\<lparr> ts_status := Done, ts_result := res, ts_lease := None, ts_updated := now \<rparr>) now"

text \<open>\<open>INSERT\<close>s fail on a duplicate key, a missing parent or a failed check.\<close>

definition insert_task_stmt ::
  "externals \<Rightarrow> uuid \<Rightarrow> auth_ctx \<Rightarrow> string \<Rightarrow> string \<Rightarrow> string option \<Rightarrow> json
     \<Rightarrow> timestamp \<Rightarrow> db \<Rightarrow> (uuid \<times> db) option" where
  "insert_task_stmt x fresh auth key title description metadata now d =
     (if find_task d (team_id auth, key) \<noteq> None \<or> task_by_id d fresh \<noteq> None then None
      else
        let t = \<lparr> ts_id = fresh, ts_team = team_id auth, ts_key = key, ts_title = title,
                  ts_description = description, ts_status = Open, ts_claimed_by = None,
                  ts_claimed_session = None, ts_claimed_at = None, ts_lease = None,
                  ts_result = None, ts_metadata = metadata, ts_created_by = Some (agent_id auth),
                  ts_created = now, ts_updated = now \<rparr>
        in Some (fresh, fire_task x now None t (d\<lparr>tasks := tasks d @ [t]\<rparr>)))"

definition insert_dep_stmt ::
  "uuid \<Rightarrow> uuid \<Rightarrow> timestamp \<Rightarrow> db \<Rightarrow> (unit \<times> db) option" where
  "insert_dep_stmt i dep now d =
     (if (i, dep) \<in> set (task_deps d) \<or> i = dep then None
      else (case (task_by_id d i, task_by_id d dep) of
          (Some a, Some b) \<Rightarrow>
            if ts_team a = ts_team b then Some ((), d\<lparr>task_deps := task_deps d @ [(i, dep)]\<rparr>) else None
        | _ \<Rightarrow> None))"

subsection \<open>Handlers\<close>

record create_input =
  ci_key :: string
  ci_title :: string
  ci_description :: "string option"
  ci_metadata :: "json option"
  ci_depends_on :: "string list"

definition find_task_id :: "uuid \<Rightarrow> string \<Rightarrow> uuid option io" where
  "find_task_id team key = query (\<lambda>now d. map_option ts_id (find_task d (team, key)))"

definition resolve_dependency :: "uuid \<Rightarrow> string \<Rightarrow> string \<Rightarrow> uuid io" where
  "resolve_dependency team key raw =
     bind_io (lift (normalize_key raw)) (\<lambda>dep_key.
     if dep_key = key then raise (Invalid (TaskWhy SelfDependency))
     else bind_io (find_task_id team dep_key) (\<lambda>dep.
       lift (ok_or dep (NotFound (TaskWhy (DependencyMissing dep_key))))))"

definition check_create ::
  "externals \<Rightarrow> create_input \<Rightarrow> (string \<times> string \<times> string option \<times> json) bus_result" where
  "check_create x input =
     and_then (normalize_key (ci_key input)) (\<lambda>key.
     and_then (check_text ''task title'' (ci_title input) MAX_TITLE_BYTES) (\<lambda>title.
     if title = [] then Inl (Invalid (TaskWhy TaskTitleEmpty))
     else
       and_then (check_opt_text ''task description'' (ci_description input) MAX_DESCRIPTION_BYTES)
         (\<lambda>description.
       and_then (check_metadata x ''task'' (ci_metadata input)) (\<lambda>_.
       Inr (key, title, description,
            case ci_metadata input of None \<Rightarrow> JObj [] | Some v \<Rightarrow> v)))))"

definition create_task :: "externals \<Rightarrow> uuid \<Rightarrow> auth_ctx \<Rightarrow> create_input \<Rightarrow> task_info io" where
  "create_task x fresh auth input =
     bind_io (lift (check_create x input)) (\<lambda>(key, title, description, metadata).
     bind_io (find_task_id (team_id auth) key) (\<lambda>existing.
     if existing \<noteq> None then raise (Conflict (TaskWhy (TaskExists key)))
     else if MAX_DEPENDENCIES < length (ci_depends_on input)
     then raise (Invalid (TaskWhy (TooManyDependencies (length (ci_depends_on input)))))
     else
       bind_io (each (resolve_dependency (team_id auth) key) (ci_depends_on input)) (\<lambda>found.
       let dep_ids = remdups_adj (sort found)
       in
       bind_io (sql (insert_task_stmt x fresh auth key title description metadata)) (\<lambda>i.
       bind_io (each (\<lambda>dep. sql (insert_dep_stmt i dep)) dep_ids) (\<lambda>_.
       bind_io (log_event i (agent_id auth) ''created'' (Some title)) (\<lambda>_.
       fetch_task auth key))))))"

datatype claim_reason =
    BlockedBy "string list"
  | Holder holder_why
  | TaskIs task_status
  | NoUnclaimedTask

record claim_result =
  cr_claimed :: bool
  cr_task :: "task_info option"
  cr_reason :: "claim_reason option"

definition lease_secs :: "int option \<Rightarrow> int" where
  "lease_secs lease = clamp 30 MAX_LEASE_SECS (case lease of None \<Rightarrow> DEFAULT_LEASE_SECS | Some s \<Rightarrow> s)"

definition holder_reason :: "auth_ctx \<Rightarrow> task_info \<Rightarrow> holder_why" where
  "holder_reason auth current =
     (let holder = (case tv_claimed_by current of None \<Rightarrow> ''?'' | Some h \<Rightarrow> h);
          until = ti_lease_seconds_remaining current;
          mine = (tv_claimed_by current = Some (agent_name auth));
          same_session = (coalesce (tv_claimed_session current) = session auth)
      in if mine \<and> \<not> same_session then OwnOtherSession (tv_claimed_session current) until
         else HeldByOther holder (tv_claimed_session current) until)"

definition claim_task :: "externals \<Rightarrow> auth_ctx \<Rightarrow> string \<Rightarrow> int option \<Rightarrow> claim_result io" where
  "claim_task x auth raw lease_seconds =
     bind_io (lift (normalize_key raw)) (\<lambda>key.
     bind_io (execute (claim_stmt x (team_id auth) (agent_id auth) (session auth) key
                (lease_secs lease_seconds))) (\<lambda>updated.
     case updated of
       Some i \<Rightarrow>
         bind_io (log_event i (agent_id auth) ''claimed'' None) (\<lambda>_.
         bind_io (fetch_task auth key) (\<lambda>t.
         ret \<lparr> cr_claimed = True, cr_task = Some t, cr_reason = None \<rparr>))
     | None \<Rightarrow>
         bind_io (fetch_task auth key) (\<lambda>current.
         ret \<lparr> cr_claimed = False, cr_task = Some current,
               cr_reason = Some
                 (if tv_blocked current then BlockedBy (tv_depends_on current)
                  else if tv_status current = Claimed then Holder (holder_reason auth current)
                  else TaskIs (tv_status current)) \<rparr>)))"

definition no_claim_here :: "auth_ctx \<Rightarrow> string \<Rightarrow> bus_error io" where
  "no_claim_here auth key =
     bind_io (attempt (fetch_task auth key)) (\<lambda>r. ret (case r of
         Some current \<Rightarrow>
           if tv_status current = Claimed
           then Conflict (TaskWhy (NotYourClaim key (holder_reason auth current)))
           else Conflict (TaskWhy (NoActiveClaim key (Some (tv_status current))))
       | None \<Rightarrow> Conflict (TaskWhy (NoActiveClaim key None))))"

definition claim_next_task :: "externals \<Rightarrow> auth_ctx \<Rightarrow> int option \<Rightarrow> claim_result io" where
  "claim_next_task x auth lease_seconds =
     bind_io (execute (claim_next_stmt x (team_id auth) (agent_id auth) (session auth)
                (lease_secs lease_seconds))) (\<lambda>picked.
     case picked of
       Some (i, key) \<Rightarrow>
         bind_io (log_event i (agent_id auth) ''claimed'' (Some ''via claim_next_task'')) (\<lambda>_.
         bind_io (fetch_task auth key) (\<lambda>t.
         ret \<lparr> cr_claimed = True, cr_task = Some t, cr_reason = None \<rparr>))
     | None \<Rightarrow> ret \<lparr> cr_claimed = False, cr_task = None, cr_reason = Some NoUnclaimedTask \<rparr>)"

definition renew_lease :: "externals \<Rightarrow> auth_ctx \<Rightarrow> string \<Rightarrow> int option \<Rightarrow> task_info io" where
  "renew_lease x auth raw lease_seconds =
     bind_io (lift (normalize_key raw)) (\<lambda>key.
     bind_io (execute (renew_stmt x (team_id auth) (agent_id auth) (session auth) key
                (lease_secs lease_seconds))) (\<lambda>updated.
     if updated = None then bind_io (no_claim_here auth key) raise
     else fetch_task auth key))"

definition release_task :: "externals \<Rightarrow> auth_ctx \<Rightarrow> string \<Rightarrow> task_info io" where
  "release_task x auth raw =
     bind_io (lift (normalize_key raw)) (\<lambda>key.
     bind_io (execute (release_task_stmt x (team_id auth) (agent_id auth) (session auth) key))
       (\<lambda>updated.
     case updated of
       Some i \<Rightarrow>
         bind_io (log_event i (agent_id auth) ''released'' None) (\<lambda>_. fetch_task auth key)
     | None \<Rightarrow> bind_io (no_claim_here auth key) raise))"

definition complete_task :: "externals \<Rightarrow> auth_ctx \<Rightarrow> string \<Rightarrow> string option \<Rightarrow> task_info io" where
  "complete_task x auth raw res =
     bind_io (lift (normalize_key raw)) (\<lambda>key.
     bind_io (lift (check_opt_text ''task result'' res MAX_RESULT_BYTES)) (\<lambda>text.
     bind_io (execute (complete_stmt x (team_id auth) key text)) (\<lambda>updated.
     case updated of
       Some i \<Rightarrow>
         bind_io (log_event i (agent_id auth) ''completed'' text) (\<lambda>_. fetch_task auth key)
     | None \<Rightarrow>
         bind_io (fetch_task auth key) (\<lambda>current.
         raise (Conflict (TaskWhy (TaskAlready key (tv_status current))))))))"

subsection \<open>The shape of the table\<close>

text \<open>
  Ids and keys are unique; an open task has no holder, a claimed one has a holder and a
  lease, a finished one has no lease.
\<close>

definition task_ok :: "task_row \<Rightarrow> bool" where
  "task_ok t \<longleftrightarrow> (case ts_status t of
       Open \<Rightarrow> ts_claimed_by t = None \<and> ts_claimed_session t = None \<and>
               ts_claimed_at t = None \<and> ts_lease t = None
     | Claimed \<Rightarrow> ts_claimed_by t \<noteq> None \<and> ts_claimed_session t \<noteq> None \<and>
               ts_claimed_at t \<noteq> None \<and> ts_lease t \<noteq> None
     | _ \<Rightarrow> ts_lease t = None)"

definition wf_tasks :: "db \<Rightarrow> bool" where
  "wf_tasks d \<longleftrightarrow> distinct (map ts_id (tasks d)) \<and> distinct (map task_key (tasks d)) \<and>
     list_all task_ok (tasks d)"

lemma find_task_in: "find_task d k = Some t \<Longrightarrow> t \<in> set (tasks d) \<and> task_key t = k"
  unfolding find_task_def by (drule find_Some_set) simp

lemma wf_tasks_same_id:
  "wf_tasks d \<Longrightarrow> s \<in> set (tasks d) \<Longrightarrow> t \<in> set (tasks d) \<Longrightarrow> ts_id s = ts_id t \<Longrightarrow> s = t"
  unfolding wf_tasks_def using distinct_key_eq [of ts_id] by blast

lemma wf_tasks_find:
  "wf_tasks d \<Longrightarrow> t \<in> set (tasks d) \<Longrightarrow> find_task d (task_key t) = Some t"
  unfolding wf_tasks_def find_task_def by (auto intro: find_unique)

lemma wf_tasks_by_id:
  "wf_tasks d \<Longrightarrow> t \<in> set (tasks d) \<Longrightarrow> task_by_id d (ts_id t) = Some t"
  unfolding wf_tasks_def task_by_id_def by (auto intro: find_unique)

lemma wf_tasks_ok: "wf_tasks d \<Longrightarrow> t \<in> set (tasks d) \<Longrightarrow> task_ok t"
  by (auto simp: wf_tasks_def list_all_iff)

lemma find_task_frame: "tasks d' = tasks d \<Longrightarrow> find_task d' k = find_task d k"
  by (simp add: find_task_def)

lemma tasks_write_task:
  "tasks (write_task x now old new d) =
     update_where (\<lambda>t. ts_id t = ts_id old) (\<lambda>_. new) (tasks d)"
  by (simp add: write_task_def)

lemma task_deps_write_task [simp]: "task_deps (write_task x now old new d) = task_deps d"
  by (simp add: write_task_def)

lemma agents_write_task [simp]: "agents (write_task x now old new d) = agents d"
  by (simp add: write_task_def)

lemma find_task_write:
  assumes "wf_tasks d" and "old \<in> set (tasks d)"
    and "ts_id new = ts_id old" "task_key new = task_key old"
  shows "find_task (write_task x now old new d) k =
    (if k = task_key old then Some new else find_task d k)"
proof -
  note only = wf_tasks_same_id [OF assms(1) _ assms(2)]
  have "find_task (write_task x now old new d) k =
      map_option (\<lambda>t. if ts_id t = ts_id old then new else t) (find_task d k)"
    unfolding find_task_def tasks_write_task
    using only assms(3,4) by (intro find_update_where_on) auto
  also have "\<dots> = (if k = task_key old then Some new else find_task d k)"
  proof (cases "find_task d k")
    case None
    with wf_tasks_find [OF assms(1,2)] show ?thesis by force
  next
    case (Some t)
    note t = find_task_in [OF Some]
    have "t = old \<longleftrightarrow> k = task_key old"
      using wf_tasks_find [OF assms(1,2)] Some by (metis conjunct2 option.inject t)
    moreover have "ts_id t = ts_id old \<longleftrightarrow> t = old"
      using t only by blast
    ultimately show ?thesis using Some by simp
  qed
  finally show ?thesis .
qed

lemma ids_write_task:
  "ts_id new = ts_id old \<Longrightarrow>
    map ts_id (tasks (write_task x now old new d)) = map ts_id (tasks d)"
  unfolding tasks_write_task by (intro map_update_where_on) auto

lemma set_write_task:
  "wf_tasks d \<Longrightarrow> old \<in> set (tasks d) \<Longrightarrow>
    t \<in> set (tasks (write_task x now old new d)) \<longleftrightarrow> t = new \<or> (t \<in> set (tasks d) \<and> t \<noteq> old)"
  using wf_tasks_same_id [of d _ old] by (auto simp: tasks_write_task set_update_where)

lemma wf_write_task:
  assumes "wf_tasks d" and "old \<in> set (tasks d)"
    and "ts_id new = ts_id old" "task_key new = task_key old" and "task_ok new"
  shows "wf_tasks (write_task x now old new d)"
proof -
  have "map task_key (tasks (write_task x now old new d)) = map task_key (tasks d)"
    unfolding tasks_write_task using wf_tasks_same_id [OF assms(1) _ assms(2)] assms(4)
    by (intro map_update_where_on) auto
  then show ?thesis
    using assms by (auto simp: wf_tasks_def ids_write_task list_all_iff set_write_task)
qed

lemma fst_update_task:
  "fst (update_task x team key P f now d) =
     (case find_task d (team, key) of None \<Rightarrow> None | Some t \<Rightarrow> if P d t then Some (ts_id t) else None)"
  by (auto simp: update_task_def split: option.splits)

lemma update_task_lost:
  "fst (update_task x team key P f now d) = None \<Longrightarrow> snd (update_task x team key P f now d) = d"
  by (auto simp: update_task_def split: option.splits if_splits)

lemma find_update_task:
  assumes "wf_tasks d" and "\<And>t. ts_id (f t) = ts_id t \<and> task_key (f t) = task_key t"
  shows "find_task (snd (update_task x team key P f now d)) k =
    (case find_task d k of None \<Rightarrow> None
     | Some t \<Rightarrow> if k = (team, key) \<and> P d t then Some (f t) else Some t)"
proof (cases "find_task d (team, key)")
  case None
  then show ?thesis by (auto simp: update_task_def split: option.splits)
next
  case (Some t)
  note t = find_task_in [OF Some]
  show ?thesis
  proof (cases "P d t")
    case True
    then show ?thesis
      using Some t assms
      by (auto simp: update_task_def find_task_write split: option.splits)
  next
    case False
    then show ?thesis using Some by (auto simp: update_task_def split: option.splits)
  qed
qed

lemma wf_update_task:
  assumes "wf_tasks d" and "\<And>t. ts_id (f t) = ts_id t \<and> task_key (f t) = task_key t"
    and "\<And>t. task_ok t \<Longrightarrow> P d t \<Longrightarrow> task_ok (f t)"
  shows "wf_tasks (snd (update_task x team key P f now d))"
proof (cases "find_task d (team, key)")
  case (Some t)
  note t = find_task_in [OF Some]
  show ?thesis
    using assms Some t wf_tasks_ok [OF assms(1)]
    by (auto simp: update_task_def intro!: wf_write_task)
qed (simp add: update_task_def assms(1))

lemmas task_stmt_defs = claim_stmt_def renew_stmt_def release_task_stmt_def complete_stmt_def

lemma task_ok_changes:
  "task_ok (set_claim agent sess lease now t)"
  "task_ok t \<Longrightarrow> ts_status t = Claimed \<Longrightarrow>
     task_ok (t\<lparr> ts_lease := Some e, ts_updated := now \<rparr>)"
  "task_ok (t\<lparr> ts_status := Open, ts_claimed_by := None, ts_claimed_session := None,
               ts_claimed_at := None, ts_lease := None, ts_updated := now \<rparr>)"
  "task_ok (t\<lparr> ts_status := Done, ts_result := res, ts_lease := None, ts_updated := now \<rparr>)"
  by (auto simp: task_ok_def set_claim_def)

lemma set_claim_same [simp]:
  "ts_id (set_claim agent sess lease now t) = ts_id t"
  "task_key (set_claim agent sess lease now t) = task_key t"
  "ts_team (set_claim agent sess lease now t) = ts_team t"
  "ts_key (set_claim agent sess lease now t) = ts_key t"
  by (simp_all add: set_claim_def task_key_def)

lemma wf_task_stmts:
  assumes "wf_tasks d"
  shows "wf_tasks (snd (claim_stmt x team agent sess key lease now d))"
    and "wf_tasks (snd (renew_stmt x team agent sess key lease now d))"
    and "wf_tasks (snd (release_task_stmt x team agent sess key now d))"
    and "wf_tasks (snd (complete_stmt x team key res now d))"
  unfolding task_stmt_defs using assms
  by (auto intro!: wf_update_task simp: task_ok_changes task_key_def)

lemma wf_claim_next_stmt:
  assumes "wf_tasks d"
  shows "wf_tasks (snd (claim_next_stmt x team agent sess lease now d))"
proof (cases "order_by ts_created (filter (candidate team now d) (tasks d))")
  case (Cons t ts)
  have "set (t # ts) \<subseteq> set (tasks d)" by (simp flip: Cons)
  then show ?thesis
    using Cons assms by (simp add: claim_next_stmt_def wf_write_task task_ok_changes)
qed (simp add: claim_next_stmt_def assms)

lemma wf_insert_task_stmt:
  assumes "wf_tasks d"
    and "insert_task_stmt x fresh auth key title description metadata now d = Some (i, d')"
  shows "wf_tasks d'"
proof -
  have "(team_id auth, key) \<notin> task_key ` set (tasks d)" and "fresh \<notin> ts_id ` set (tasks d)"
    using assms(2) by (auto simp: insert_task_stmt_def find_task_def task_by_id_def
        find_None_iff_set split: if_splits)
  then show ?thesis
    using assms
    by (auto simp: insert_task_stmt_def wf_tasks_def Let_def task_ok_def task_key_def split: if_splits)
qed

lemma wf_tasks_frame: "tasks d' = tasks d \<Longrightarrow> wf_tasks d' = wf_tasks d"
  by (simp add: wf_tasks_def)

lemma insert_dep_frame: "insert_dep_stmt i dep now d = Some (u, d') \<Longrightarrow>
    tasks d' = tasks d \<and> task_deps d' = task_deps d @ [(i, dep)]"
  by (auto simp: insert_dep_stmt_def split: if_splits option.splits)

lemma log_event_frame:
  "log_event_stmt task agent event detail now d = Some (u, d') \<Longrightarrow>
    tasks d' = tasks d \<and> task_deps d' = task_deps d \<and> agents d' = agents d
    \<and> attachments d' = attachments d"
  by (auto simp: log_event_stmt_def split: if_splits)

subsection \<open>Every handler keeps it\<close>

lemma keeps_log_event [keeps_intros]: "keeps wf_tasks (log_event task agent event detail)"
  unfolding log_event_def by (rule keeps_sql) (auto dest: log_event_frame simp: wf_tasks_def)

lemma keeps_fetch_task [keeps_intros]: "keeps I (fetch_task auth key)"
  unfolding fetch_task_def by (intro keeps_intros)

lemma keeps_no_claim_here [keeps_intros]: "keeps I (no_claim_here auth key)"
  unfolding no_claim_here_def by (intro keeps_intros)

lemma keeps_resolve_dependency [keeps_intros]: "keeps I (resolve_dependency team key raw)"
  unfolding resolve_dependency_def find_task_id_def by (auto intro!: keeps_intros)

lemma keeps_insert_dep [keeps_intros]: "keeps wf_tasks (sql (insert_dep_stmt i dep))"
  by (rule keeps_sql) (auto dest: insert_dep_frame simp: wf_tasks_def)

lemma keeps_insert_task [keeps_intros]:
  "keeps wf_tasks (sql (insert_task_stmt x fresh auth key title description metadata))"
  by (rule keeps_sql) (rule wf_insert_task_stmt)

lemma keeps_task_stmts [keeps_intros]:
  "keeps wf_tasks (execute (claim_stmt x team agent sess key lease))"
  "keeps wf_tasks (execute (renew_stmt x team agent sess key lease))"
  "keeps wf_tasks (execute (release_task_stmt x team agent sess key))"
  "keeps wf_tasks (execute (complete_stmt x team key res))"
  "keeps wf_tasks (execute (claim_next_stmt x team agent sess lease))"
  by (rule keeps_execute, simp add: wf_task_stmts wf_claim_next_stmt)+

lemma keeps_create_task [keeps_intros]: "keeps wf_tasks (create_task x fresh auth input)"
  unfolding create_task_def Let_def find_task_id_def
  by (auto intro!: keeps_intros split: prod.split)

lemma keeps_claim_task [keeps_intros]: "keeps wf_tasks (claim_task x auth raw lease)"
  unfolding claim_task_def by (auto intro!: keeps_intros split: option.split)

lemma keeps_claim_next_task [keeps_intros]: "keeps wf_tasks (claim_next_task x auth lease)"
  unfolding claim_next_task_def by (auto intro!: keeps_intros split: option.split)

lemma keeps_renew_lease [keeps_intros]: "keeps wf_tasks (renew_lease x auth raw lease)"
  unfolding renew_lease_def by (auto intro!: keeps_intros)

lemma keeps_release_task [keeps_intros]: "keeps wf_tasks (release_task x auth raw)"
  unfolding release_task_def by (auto intro!: keeps_intros split: option.split)

lemma keeps_complete_task [keeps_intros]: "keeps wf_tasks (complete_task x auth raw res)"
  unfolding complete_task_def by (auto intro!: keeps_intros split: option.split)

lemma keeps_list_tasks [keeps_intros]: "keeps I (list_tasks auth status mine_only limit)"
  unfolding list_tasks_def by (auto intro!: keeps_intros split: prod.split)

lemma keeps_get_task [keeps_intros]: "keeps I (get_task auth key)"
  unfolding get_task_def by (intro keeps_intros)

subsection \<open>Claims are leases\<close>

definition task_held :: "db \<Rightarrow> uuid \<times> string \<Rightarrow> (holder \<times> timestamp) option" where
  "task_held d k = Option.bind (find_task d k) (\<lambda>t.
     if ts_status t = Claimed
     then (case (ts_claimed_by t, ts_lease t) of
         (Some a, Some e) \<Rightarrow> Some ((a, coalesce (ts_claimed_session t)), e)
       | _ \<Rightarrow> None)
     else None)"

definition task_available :: "db \<Rightarrow> uuid \<times> string \<Rightarrow> bool" where
  "task_available d k = (case find_task d k of
       None \<Rightarrow> False
     | Some t \<Rightarrow> \<not> finished (ts_status t) \<and> \<not> blocked d (ts_id t))"

definition task_take ::
  "externals \<Rightarrow> timestamp \<Rightarrow> holder \<Rightarrow> uuid \<times> string \<Rightarrow> int \<Rightarrow> db \<Rightarrow> bool \<times> db" where
  "task_take x now w k lease d =
     (let r = claim_stmt x (fst k) (fst w) (snd w) (snd k) lease now d in (fst r \<noteq> None, snd r))"

definition task_give ::
  "externals \<Rightarrow> timestamp \<Rightarrow> holder \<Rightarrow> uuid \<times> string \<Rightarrow> db \<Rightarrow> bool \<times> db" where
  "task_give x now w k d =
     (let r = release_task_stmt x (fst k) (fst w) (snd w) (snd k) now d in (fst r \<noteq> None, snd r))"

lemma find_claim_stmt:
  "wf_tasks d \<Longrightarrow> find_task (snd (claim_stmt x team agent sess key lease now d)) k =
    (case find_task d k of None \<Rightarrow> None
     | Some t \<Rightarrow> if k = (team, key) \<and> claimable agent sess now d t
                  then Some (set_claim agent sess lease now t) else Some t)"
  unfolding claim_stmt_def by (rule find_update_task) auto

lemma find_release_task_stmt:
  "wf_tasks d \<Longrightarrow> find_task (snd (release_task_stmt x team agent sess key now d)) k =
    (case find_task d k of None \<Rightarrow> None
     | Some t \<Rightarrow> if k = (team, key) \<and> claimed_here agent sess t \<and> ts_status t = Claimed
                  then Some (t\<lparr> ts_status := Open, ts_claimed_by := None, ts_claimed_session := None,
                                 ts_claimed_at := None, ts_lease := None, ts_updated := now \<rparr>)
                  else Some t)"
  unfolding release_task_stmt_def by (rule find_update_task) (auto simp: task_key_def)

lemma claimed_shape:
  assumes "wf_tasks d" and "find_task d k = Some t" and "ts_status t = Claimed"
  obtains a s c e where "ts_claimed_by t = Some a" "ts_claimed_session t = Some s"
    "ts_claimed_at t = Some c" "ts_lease t = Some e"
proof -
  have "task_ok t" using assms find_task_in wf_tasks_ok by blast
  with assms(3) that show ?thesis by (auto simp: task_ok_def)
qed

lemma task_held_row:
  assumes "wf_tasks d" and "find_task d k = Some t"
  shows "task_held d k = (if ts_status t = Claimed
     then Some ((the (ts_claimed_by t), coalesce (ts_claimed_session t)), the (ts_lease t)) else None)"
proof (cases "ts_status t = Claimed")
  case True
  obtain a c e where "ts_claimed_by t = Some a" "ts_lease t = Some e"
    using claimed_shape [OF assms True] by blast
  with True show ?thesis by (simp add: task_held_def assms)
qed (simp add: task_held_def assms)

lemma claimable_iff:
  assumes "wf_tasks d" and "find_task d k = Some t"
  shows "claimable agent sess now d t \<longleftrightarrow>
    task_available d k \<and> (\<forall>v e. task_held d k = Some (v, e) \<longrightarrow> v = (agent, sess) \<or> e < now)"
proof (cases "ts_status t = Claimed")
  case True
  obtain a s c e where "ts_claimed_by t = Some a" "ts_claimed_session t = Some s"
    "ts_lease t = Some e"
    using claimed_shape [OF assms True] by blast
  with True show ?thesis
    by (auto simp: claimable_def task_available_def assms finished_def task_held_row [OF assms]
        claimed_here_def)
next
  case False
  then show ?thesis
    by (cases "ts_status t")
      (simp_all add: claimable_def task_available_def assms finished_def task_held_row [OF assms])
qed

lemma held_here_iff:
  assumes "wf_tasks d" and "find_task d k = Some t"
  shows "claimed_here agent sess t \<and> ts_status t = Claimed \<longleftrightarrow>
    (\<exists>e. task_held d k = Some ((agent, sess), e))"
proof (cases "ts_status t = Claimed")
  case True
  obtain a s c e where "ts_claimed_by t = Some a" "ts_claimed_session t = Some s"
    "ts_lease t = Some e"
    using claimed_shape [OF assms True] by blast
  with True show ?thesis by (auto simp: task_held_row [OF assms] claimed_here_def)
qed (simp add: task_held_row [OF assms])

interpretation task_lease: lease_table wf_tasks task_held task_available seconds
  "task_take x" "task_give x" for x
proof
  fix d now w a and k k' :: "uuid \<times> string"
  assume wf: "wf_tasks d"
  show "wf_tasks (snd (task_take x now w k a d))" "wf_tasks (snd (task_give x now w k d))"
    using wf by (simp_all add: task_take_def task_give_def Let_def wf_task_stmts)
  show won: "fst (task_take x now w k a d) \<longleftrightarrow> task_available d k \<and>
      (\<forall>v e. task_held d k = Some (v, e) \<longrightarrow> v = w \<or> e < now)"
  proof (cases "find_task d k")
    case None
    then show ?thesis
      by (simp add: task_take_def claim_stmt_def fst_update_task task_available_def)
  next
    case (Some t)
    then show ?thesis
      using claimable_iff [OF wf Some, of "fst w" "snd w" now]
      by (simp add: task_take_def claim_stmt_def fst_update_task)
  qed
  show "fst (task_take x now w k a d) \<Longrightarrow>
      task_held (snd (task_take x now w k a d)) k = Some (w, now + seconds a)"
    using wf by (auto simp: task_take_def claim_stmt_def fst_update_task task_held_def Let_def
        find_claim_stmt [unfolded claim_stmt_def] set_claim_def split: option.splits if_splits)
  show "\<not> fst (task_take x now w k a d) \<Longrightarrow>
      task_held (snd (task_take x now w k a d)) k = task_held d k"
    by (simp add: task_take_def claim_stmt_def Let_def update_task_lost)
  show "k' \<noteq> k \<Longrightarrow> task_held (snd (task_take x now w k a d)) k' = task_held d k'"
    using wf by (auto simp: task_take_def Let_def task_held_def find_claim_stmt split: option.splits)
  show "fst (task_give x now w k d) \<longleftrightarrow> (\<exists>e. task_held d k = Some (w, e))"
  proof (cases "find_task d k")
    case None
    then show ?thesis
      by (simp add: task_give_def release_task_stmt_def fst_update_task task_held_def)
  next
    case (Some t)
    then show ?thesis
      using held_here_iff [OF wf Some, of "fst w" "snd w"]
      by (simp add: task_give_def release_task_stmt_def fst_update_task)
  qed
  show "fst (task_give x now w k d) \<Longrightarrow> task_held (snd (task_give x now w k d)) k = None"
    using wf by (auto simp: task_give_def release_task_stmt_def fst_update_task Let_def task_held_def
        find_release_task_stmt [unfolded release_task_stmt_def] split: option.splits if_splits)
  show "\<not> fst (task_give x now w k d) \<Longrightarrow>
      task_held (snd (task_give x now w k d)) k = task_held d k"
    by (simp add: task_give_def release_task_stmt_def Let_def update_task_lost)
  show "k' \<noteq> k \<Longrightarrow> task_held (snd (task_give x now w k d)) k' = task_held d k'"
    using wf by (auto simp: task_give_def Let_def task_held_def find_release_task_stmt
        split: option.splits)
qed

subsection \<open>Dependencies point at older tasks\<close>

text \<open>
  Tasks are never removed and keep their place in the table, so the order of creation is
  the order of the rows. \<open>deps_older\<close>: every dependency is a task of the same team created
  earlier. It is what makes the graph acyclic.
\<close>

definition position :: "'a list \<Rightarrow> 'a \<Rightarrow> nat" where
  "position xs i = length (takeWhile (\<lambda>y. y \<noteq> i) xs)"

definition roster :: "db \<Rightarrow> (uuid \<times> uuid) list" where
  "roster d = map (\<lambda>t. (ts_id t, ts_team t)) (tasks d)"

definition ids :: "db \<Rightarrow> uuid list" where
  "ids d = map fst (roster d)"

definition deps_older :: "db \<Rightarrow> bool" where
  "deps_older d \<longleftrightarrow> (\<forall>(a, b) \<in> set (task_deps d).
     a \<in> set (ids d) \<and> position (ids d) b < position (ids d) a \<and>
     map_of (roster d) a = map_of (roster d) b)"

lemma ids_eq: "ids d = map ts_id (tasks d)"
  by (simp add: ids_def roster_def)

lemma position_append: "i \<in> set xs \<Longrightarrow> position (xs @ ys) i = position xs i"
  by (induction xs) (auto simp: position_def)

lemma position_less: "position xs i < length xs \<longleftrightarrow> i \<in> set xs"
  by (induction xs) (auto simp: position_def)

lemma position_new: "i \<notin> set xs \<Longrightarrow> position (xs @ [i]) i = length xs"
  by (induction xs) (auto simp: position_def)

lemma nth_position: "i \<in> set xs \<Longrightarrow> xs ! position xs i = i"
  by (induction xs) (auto simp: position_def)

definition grows :: "db \<Rightarrow> db \<Rightarrow> bool" where
  "grows d d' \<longleftrightarrow> (deps_older d \<longrightarrow> deps_older d') \<and> (\<exists>new. roster d' = roster d @ new)"

lemma stable_deps_older: "stable grows deps_older"
  by (simp add: stable_def grows_def)

lemma grows_ids: "grows d d' \<Longrightarrow> \<exists>new. ids d' = ids d @ new"
  by (auto simp: grows_def ids_def)

lemma stable_known: "stable grows (\<lambda>d. i \<in> set (ids d))"
  by (auto simp: stable_def dest!: grows_ids)

definition older :: "uuid \<Rightarrow> uuid \<Rightarrow> db \<Rightarrow> bool" where
  "older b a d \<longleftrightarrow> a \<in> set (ids d) \<and> b \<in> set (ids d) \<and> position (ids d) b < position (ids d) a"

lemma stable_older: "stable grows (older b a)"
  by (auto simp: stable_def older_def position_append dest!: grows_ids)

lemma stable_all_older: "stable grows (\<lambda>d. \<forall>b \<in> set bs. older b a d)"
  using stable_older by (fastforce simp: stable_def)

lemma roster_frame: "tasks d' = tasks d \<Longrightarrow> roster d' = roster d"
  by (simp add: roster_def)

lemma deps_older_frame:
  "roster d' = roster d \<Longrightarrow> task_deps d' = task_deps d \<Longrightarrow> deps_older d' = deps_older d"
  by (simp add: deps_older_def ids_def)

lemma task_by_id_roster: "task_by_id d i = Some t \<Longrightarrow> map_of (roster d) i = Some (ts_team t)"
proof -
  have "List.find (\<lambda>t. ts_id t = i) ts = Some t \<Longrightarrow>
      map_of (map (\<lambda>t. (ts_id t, ts_team t)) ts) i = Some (ts_team t)" for ts
    by (induction ts) (auto split: if_splits)
  then show "task_by_id d i = Some t \<Longrightarrow> ?thesis" by (simp add: task_by_id_def roster_def)
qed

lemma map_of_append_known:
  "i \<in> fst ` set xs \<Longrightarrow> map_of (xs @ ys) i = map_of xs i"
  by (induction xs) auto

lemma insert_task_stmt_roster:
  assumes "insert_task_stmt x fresh auth key title description metadata now d = Some (i, d')"
  shows "i = fresh" "fresh \<notin> set (ids d)" "roster d' = roster d @ [(fresh, team_id auth)]"
    "task_deps d' = task_deps d"
  using assms
  by (auto simp: insert_task_stmt_def Let_def roster_def ids_eq task_by_id_def find_None_iff_set
      split: if_splits)

lemma insert_task_deps_older:
  assumes "insert_task_stmt x fresh auth key title description metadata now d = Some (i, d')"
    and "deps_older d"
  shows "deps_older d'"
proof -
  note ins = insert_task_stmt_roster [OF assms(1)]
  have ids: "ids d' = ids d @ [fresh]" by (simp add: ids_def ins)
  have known: "map_of (roster d') i = map_of (roster d) i" if "i \<in> set (ids d)" for i
    unfolding ins(3) using that by (intro map_of_append_known) (simp add: ids_def)
  show ?thesis
    unfolding deps_older_def ins(4)
  proof safe
    fix a b assume ab: "(a, b) \<in> set (task_deps d)"
    with assms(2) have o: "a \<in> set (ids d)" "position (ids d) b < position (ids d) a"
      "map_of (roster d) a = map_of (roster d) b"
      by (auto simp: deps_older_def)
    then have b: "b \<in> set (ids d)"
      using position_less [of "ids d" a] position_less [of "ids d" b] by auto
    show "a \<in> set (ids d')" using o by (simp add: ids)
    show "position (ids d') b < position (ids d') a"
      using o b by (simp add: ids position_append)
    show "map_of (roster d') a = map_of (roster d') b"
      using o b known by metis
  qed
qed

lemma insert_dep_deps_older:
  assumes "insert_dep_stmt i dep now d = Some (u, d')" and "deps_older d" and "older dep i d"
  shows "deps_older d' \<and> roster d' = roster d"
proof -
  from assms(1) obtain a b where "task_by_id d i = Some a" "task_by_id d dep = Some b"
    "ts_team a = ts_team b"
    by (auto simp: insert_dep_stmt_def split: if_splits option.splits)
  then have "map_of (roster d) i = map_of (roster d) dep"
    by (simp add: task_by_id_roster)
  moreover have "roster d' = roster d" "task_deps d' = task_deps d @ [(i, dep)]"
    using insert_dep_frame [OF assms(1)] roster_frame by blast+
  ultimately show ?thesis
    using assms(2,3) by (auto simp: deps_older_def older_def ids_def)
qed

lemma older_frame: "roster d' = roster d \<Longrightarrow> older b a d' = older b a d"
  by (simp add: older_def ids_def)

lemma valid_keeps_P:
  "stable R P \<Longrightarrow> valid R P (query f) (\<lambda>r. P)"
  by (rule valid_query) auto

lemma valid_find_task_id:
  assumes "stable grows P"
  shows "valid grows P (find_task_id team key) (\<lambda>r d. P d \<and> (\<forall>i. r = Inr (Some i) \<longrightarrow> i \<in> set (ids d)))"
  unfolding find_task_id_def
  using assms by (intro valid_query) (auto simp: ids_eq dest: find_task_in)

lemma valid_resolve:
  assumes "stable grows P"
  shows "valid grows P (resolve_dependency team key raw)
    (\<lambda>r d. P d \<and> (\<forall>a. r = Inr a \<longrightarrow> a \<in> set (ids d)))"
  unfolding resolve_dependency_def
proof (intro valid_bind [OF valid_lift [where Q = "\<lambda>r. P"]])
  fix k
  show "valid grows P
     (if k = key then raise (Invalid (TaskWhy SelfDependency))
      else bind_io (find_task_id team k)
        (\<lambda>dep. lift (ok_or dep (NotFound (TaskWhy (DependencyMissing k))))))
     (\<lambda>r d. P d \<and> (\<forall>a. r = Inr a \<longrightarrow> a \<in> set (ids d)))"
    by (auto intro!: valid_raise valid_lift valid_bind [OF valid_find_task_id [OF assms]])
qed auto

lemma valid_insert_task:
  "valid grows (\<lambda>d. deps_older d \<and> (\<forall>b \<in> set bs. b \<in> set (ids d)))
     (sql (insert_task_stmt x fresh auth key title description metadata))
     (\<lambda>r d. deps_older d \<and> (\<forall>i. r = Inr i \<longrightarrow> (\<forall>b \<in> set bs. older b i d)))"
proof (rule valid_sql)
  show "stable grows (\<lambda>d. deps_older d \<and> (\<forall>b \<in> set bs. b \<in> set (ids d)))"
    using stable_deps_older stable_known by (fastforce simp: stable_def)
next
  fix now d i d'
  assume P: "deps_older d \<and> (\<forall>b \<in> set bs. b \<in> set (ids d))"
    and ins: "insert_task_stmt x fresh auth key title description metadata now d = Some (i, d')"
  note r = insert_task_stmt_roster [OF ins]
  have ids: "ids d' = ids d @ [fresh]" by (simp add: ids_def r)
  have "older b fresh d'" if "b \<in> set bs" for b
  proof -
    have "b \<in> set (ids d)" using P that by blast
    moreover have "position (ids d') fresh = length (ids d)"
      using r(2) by (simp add: ids position_new)
    ultimately show ?thesis
      using position_less [of "ids d" b] by (simp add: older_def ids position_append)
  qed
  with P r(1) insert_task_deps_older [OF ins]
  show "deps_older d' \<and> (\<forall>j. Inr i = Inr j \<longrightarrow> (\<forall>b \<in> set bs. older b j d'))" by blast
qed simp

lemma valid_insert_dep:
  assumes "b \<in> set bs"
  shows "valid grows (\<lambda>d. deps_older d \<and> (\<forall>b \<in> set bs. older b i d)) (sql (insert_dep_stmt i b))
    (\<lambda>r d. deps_older d \<and> (\<forall>b \<in> set bs. older b i d))"
proof (rule valid_sql)
  show "stable grows (\<lambda>d. deps_older d \<and> (\<forall>b \<in> set bs. older b i d))"
    by (intro stable_conj stable_deps_older stable_all_older)
next
  fix now d u d'
  assume "deps_older d \<and> (\<forall>b \<in> set bs. older b i d)" "insert_dep_stmt i b now d = Some (u, d')"
  then show "deps_older d' \<and> (\<forall>b \<in> set bs. older b i d')"
    using insert_dep_deps_older [of i b now d u d'] older_frame [of d' d] assms by simp
qed simp

lemma valid_log_event:
  "valid grows deps_older (log_event i agent event detail) (\<lambda>r. deps_older)"
  unfolding log_event_def
proof (rule valid_sql)
  fix now d a d'
  assume "deps_older d" "log_event_stmt i agent event detail now d = Some (a, d')"
  then show "deps_older d'"
    using log_event_frame [of i agent event detail now d a d'] roster_frame [of d' d]
      deps_older_frame [of d' d] by blast
qed (auto intro: stable_deps_older)

lemma valid_fetch_task: "stable R P \<Longrightarrow> valid R P (fetch_task auth key) (\<lambda>r. P)"
  unfolding fetch_task_def by (auto intro!: valid_bind [OF valid_keeps_P] valid_lift)

lemma create_task_valid:
  "valid grows deps_older (create_task x fresh auth input) (\<lambda>r. deps_older)"
proof -
  let ?Q = "\<lambda>r. deps_older"
  have deps: "valid grows (\<lambda>d. deps_older d \<and> (\<forall>b \<in> set bs. older b i d))
      (bind_io (each (\<lambda>dep. sql (insert_dep_stmt i dep)) bs) (\<lambda>_.
       bind_io (log_event i (agent_id auth) ''created'' (Some title)) (\<lambda>_. fetch_task auth key))) ?Q"
    for bs i title key
    by (rule valid_bind [OF valid_each [OF valid_insert_dep]])
      (auto intro!: valid_bind [OF valid_conseq [OF valid_log_event]] valid_fetch_task stable_deps_older)
  have ins: "valid grows (\<lambda>d. deps_older d \<and> (\<forall>b \<in> set found. b \<in> set (ids d)))
      (bind_io (sql (insert_task_stmt x fresh auth key title description metadata)) (\<lambda>i.
       bind_io (each (\<lambda>dep. sql (insert_dep_stmt i dep)) (remdups_adj (sort found))) (\<lambda>_.
       bind_io (log_event i (agent_id auth) ''created'' (Some title)) (\<lambda>_. fetch_task auth key)))) ?Q"
    for found key title description metadata
  proof (rule valid_bind)
    show "valid grows (\<lambda>d. deps_older d \<and> (\<forall>b \<in> set found. b \<in> set (ids d)))
        (sql (insert_task_stmt x fresh auth key title description metadata))
        (\<lambda>r d. deps_older d \<and> (\<forall>i. r = Inr i \<longrightarrow> (\<forall>b \<in> set found. older b i d)))"
      by (rule valid_insert_task)
  qed (auto intro!: valid_conseq [OF deps])
  have resolve: "valid grows deps_older (each (resolve_dependency (team_id auth) key) deps)
      (\<lambda>r d. deps_older d \<and> (\<forall>ys. r = Inr ys \<longrightarrow> (\<forall>y \<in> set ys. y \<in> set (ids d))))" for key deps
    by (rule valid_each_reads [OF valid_resolve stable_known stable_deps_older])
  have find: "valid grows deps_older (find_task_id team key) ?Q" for team key
    by (rule valid_conseq [OF valid_find_task_id [OF stable_deps_older]]) auto
  show ?thesis
    unfolding create_task_def Let_def
    by (rule valid_bind [OF valid_lift [where Q = "?Q"]])
      (auto split: prod.split intro!: valid_raise valid_bind [OF find] valid_bind [OF resolve]
        valid_conseq [OF ins])
qed

end
