(* ===== verification/Task_Queue.thy ===== *)
theory Task_Queue
  imports Tasks
begin

text \<open>
  What the task queue promises: a claim is exclusive while its lease runs, \<open>claim_next\<close> is a
  claim of the oldest task that can be worked on, dependencies form no cycle and so work
  never gets stuck, and a finished task stays finished.
\<close>

subsection \<open>Exclusive claims\<close>

text \<open>
  C2 (safety). Once a session has claimed a task, no other session claims it before the
  lease expires, whatever claims and releases the other sessions make in between.
\<close>

theorem claim_exclusion:
  assumes "wf_tasks d"
    and "fst (claim_stmt x team a s key lease t d) \<noteq> None"
    and "\<forall>op \<in> set ops. op_time op \<le> t'" and "t' \<le> t + seconds lease"
    and "\<forall>op \<in> set ops. op_on op = (team, key) \<longrightarrow> op_by op \<noteq> (a, s)"
    and "(b, r) \<noteq> (a, s)"
  shows "fst (claim_stmt x team b r key lease' t'
      (fold (run_op (task_take x) (task_give x)) ops (snd (claim_stmt x team a s key lease t d)))) = None"
  using task_lease.no_second_winner [of d x t "(a, s)" "(team, key)" lease ops t' "(b, r)" lease']
    assms by (simp add: task_take_def Let_def)

definition demo_task :: "uuid \<Rightarrow> string \<Rightarrow> timestamp \<Rightarrow> task_row" where
  "demo_task i key created = \<lparr> ts_id = i, ts_team = 7, ts_key = key, ts_title = key,
     ts_description = None, ts_status = Open, ts_claimed_by = None, ts_claimed_session = None,
     ts_claimed_at = None, ts_lease = None, ts_result = None, ts_metadata = JObj [],
     ts_created_by = Some 1, ts_created = created, ts_updated = created \<rparr>"

definition task_db :: db where
  "task_db = demo_db\<lparr> tasks := [demo_task 51 ''build'' (seconds 10), demo_task 52 ''ship'' (seconds 20)],
     task_deps := [(52, 51)] \<rparr>"

theorem claim_exclusion_witness:
  "fst (claim_stmt demo_ext 7 2 [] ''build'' 900 (seconds 1100)
      (fold (run_op (task_take demo_ext) (task_give demo_ext))
         [Take (seconds 1050) (3, ''w'') (7, ''build'') 60, Give (seconds 1060) (2, []) (7, ''build'')]
         (snd (claim_stmt demo_ext 7 1 [] ''build'' 900 (seconds 1000) task_db)))) = None"
proof (rule claim_exclusion)
  show "wf_tasks task_db" by code_simp
  show "fst (claim_stmt demo_ext 7 1 [] ''build'' 900 (seconds 1000) task_db) \<noteq> None" by code_simp
qed (simp_all add: seconds_def)

subsection \<open>The next task\<close>

lemma candidate_claimable:
  "candidate team now d t \<Longrightarrow> claimable agent sess now d t"
  by (auto simp: candidate_def claimable_def split: option.splits)

lemma claim_next_cases:
  assumes "wf_tasks d"
  shows "case claim_next_stmt x team agent sess lease now d of
      (None, d') \<Rightarrow> d' = d \<and> (\<forall>t \<in> set (tasks d). \<not> candidate team now d t)
    | (Some (i, key), d') \<Rightarrow>
        claim_stmt x team agent sess key lease now d = (Some i, d') \<and>
        (\<exists>t \<in> set (tasks d). ts_id t = i \<and> ts_key t = key \<and> candidate team now d t \<and>
           (\<forall>u \<in> set (tasks d). candidate team now d u \<longrightarrow> ts_created t \<le> ts_created u))"
proof (cases "order_by ts_created (filter (candidate team now d) (tasks d))")
  case Nil
  then show ?thesis by (auto simp: claim_next_stmt_def filter_empty_conv)
next
  case (Cons t ts)
  have "t \<in> set (filter (candidate team now d) (tasks d))"
    by (metis Cons list.set_intros(1) set_order_by)
  then have t: "t \<in> set (tasks d)" "candidate team now d t" by auto
  have oldest: "ts_created t \<le> ts_created u" if "u \<in> set (tasks d)" "candidate team now d u" for u
    using order_by_hd_least [OF Cons] that by simp
  have "find_task d (team, ts_key t) = Some t"
    using wf_tasks_find [OF assms t(1)] t(2) by (simp add: task_key_def candidate_def)
  then have "claim_stmt x team agent sess (ts_key t) lease now d =
      (Some (ts_id t), write_task x now t (set_claim agent sess lease now t) d)"
    using candidate_claimable [OF t(2)] by (simp add: claim_stmt_def update_task_def)
  with t oldest show ?thesis by (auto simp: claim_next_stmt_def Cons)
qed



lemma not_candidate_held:
  assumes "wf_tasks d" and "task_held d (team, key) = Some (w, e)" and "now \<le> e"
    and "t \<in> set (tasks d)" and "task_key t = (team, key)"
  shows "\<not> candidate team now d t"
proof -
  have f: "find_task d (team, key) = Some t" using wf_tasks_find [OF assms(1,4)] assms(5) by simp
  have s: "ts_status t = Claimed"
    using assms(2) f by (auto simp: task_held_def split: if_splits)
  then obtain e' where "ts_lease t = Some e'" using claimed_shape [OF assms(1) f] by blast
  with assms(2,3) s f show ?thesis
    by (auto simp: candidate_def task_held_row [OF assms(1)])
qed

text \<open>
  \<open>claim_next_task\<close> never hands the same task to two sessions: what one session
  got, no later call of another session gets while the lease runs.
\<close>

theorem claim_next_distinct:
  assumes "wf_tasks d"
    and "claim_next_stmt x team a s lease t d = (Some (i, key), d1)"
    and "\<forall>op \<in> set ops. op_time op \<le> t'" and "t' \<le> t + seconds lease"
    and "\<forall>op \<in> set ops. op_on op = (team, key) \<longrightarrow> op_by op \<noteq> (a, s)"
    and "fst (claim_next_stmt x team b r lease' t'
           (fold (run_op (task_take x) (task_give x)) ops d1)) = Some (j, key')"
  shows "key' \<noteq> key"
proof
  assume same: "key' = key"
  let ?d2 = "fold (run_op (task_take x) (task_give x)) ops d1"
  have c: "claim_stmt x team a s key lease t d = (Some i, d1)"
    using claim_next_cases [OF assms(1), where x = x and team = team and agent = a and sess = s
        and lease = lease and now = t] assms(2) by auto
  have wf1: "wf_tasks d1" using wf_task_stmts(1) [OF assms(1), of x team a s key lease t] c by simp
  have "task_held d1 (team, key) = Some ((a, s), t + seconds lease)"
    using task_lease.take_won [OF assms(1), of x t "(a, s)" "(team, key)" lease] c
    by (simp add: task_take_def)
  moreover have "\<forall>op \<in> set ops. op_time op \<le> t + seconds lease"
    using assms(3,4) by fastforce
  ultimately have held: "task_held ?d2 (team, key) = Some ((a, s), t + seconds lease)"
    using task_lease.held_until_expiry [OF wf1] assms(5) by blast
  have wf2: "wf_tasks ?d2" using task_lease.fold_inv [OF wf1] .
  obtain u where "u \<in> set (tasks ?d2)" "ts_key u = key'" "candidate team t' ?d2 u"
    using claim_next_cases [OF wf2, where x = x and team = team and agent = b and sess = r
        and lease = lease' and now = t'] assms(6)
    by (cases "claim_next_stmt x team b r lease' t' ?d2") auto
  then show False
    using not_candidate_held [OF wf2 held assms(4)] same
    by (auto simp: task_key_def candidate_def)
qed

definition two_tasks :: db where
  "two_tasks = task_db\<lparr>task_deps := []\<rparr>"

theorem claim_next_distinct_witness:
  "fst (claim_next_stmt demo_ext 7 2 [] 900 (seconds 1001)
      (snd (claim_next_stmt demo_ext 7 1 [] 900 (seconds 1000) two_tasks))) = Some (52, ''ship'')
   \<and> ''ship'' \<noteq> ''build''"
proof -
  let ?r = "claim_next_stmt demo_ext 7 1 [] 900 (seconds 1000) two_tasks"
  have wf: "wf_tasks two_tasks" by code_simp
  have "fst ?r = Some (51, ''build'')" by code_simp
  then have first: "?r = (Some (51, ''build''), snd ?r)" by (metis prod.collapse)
  have second: "fst (claim_next_stmt demo_ext 7 2 [] 900 (seconds 1001) (snd ?r)) = Some (52, ''ship'')"
    by code_simp
  show ?thesis
    using claim_next_distinct [OF wf first, where ops = "[]" and t' = "seconds 1001" and b = 2 and r = "[]"
        and lease' = 900 and j = 52 and key' = "''ship''"] second
    by simp
qed

subsection \<open>No cycles, no dead ends\<close>

lemma deps_older_acyclic: "deps_older d \<Longrightarrow> acyclic (set (task_deps d))"
proof -
  assume d: "deps_older d"
  have "set (task_deps d) \<subseteq> (measure (position (ids d)))\<inverse>"
    using d by (auto simp: deps_older_def)
  moreover have "acyclic ((measure (position (ids d)))\<inverse>)"
    by (simp add: acyclic_converse wf_acyclic)
  ultimately show ?thesis by (rule acyclic_subset [rotated])
qed

text \<open>
  C5 (invariant). Registering a task keeps every dependency pointing at an older task of the
  same team, whatever fails on the way and whatever the other sessions do that respects the
  same rule; so the dependency graph never has a cycle.
\<close>

theorem create_task_acyclic:
  assumes "rely grows c" and "deps_older (data c)"
  shows "deps_older (data (snd (create_task x fresh auth input c))) \<and>
    acyclic (set (task_deps (data (snd (create_task x fresh auth input c)))))"
  using validD [OF create_task_valid assms] deps_older_acyclic by blast

definition demo_input :: "string \<Rightarrow> string list \<Rightarrow> create_input" where
  "demo_input key deps = \<lparr> ci_key = key, ci_title = key, ci_description = None,
     ci_metadata = None, ci_depends_on = deps \<rparr>"

definition task_conn :: conn where
  "task_conn = \<lparr> data = task_db, clock = seconds 1000, sched = [] \<rparr>"

theorem create_task_acyclic_witness:
  "acyclic (set (task_deps (data (snd
     (create_task demo_ext 53 ana (demo_input ''announce'' [''ship'', ''build'']) task_conn)))))"
proof -
  have "rely grows task_conn" by (simp add: rely_def task_conn_def)
  moreover have "deps_older (data task_conn)" by code_simp
  ultimately show ?thesis using create_task_acyclic by blast
qed

lemma blocker_of:
  assumes "wf_tasks d" and "deps_older d" and "u \<in> set (tasks d)" and "blocked d (ts_id u)"
  obtains b where "b \<in> set (tasks d)" "\<not> finished (ts_status b)" "ts_team b = ts_team u"
    "position (ids d) (ts_id b) < position (ids d) (ts_id u)"
proof -
  obtain b where b: "b \<in> set (tasks d)" "(ts_id u, ts_id b) \<in> set (task_deps d)"
    "\<not> finished (ts_status b)"
    using assms(4) by (auto simp: blocked_def blockers_def list_ex_iff)
  have "map_of (roster d) (ts_id u) = map_of (roster d) (ts_id b)"
    "position (ids d) (ts_id b) < position (ids d) (ts_id u)"
    using assms(2) b(2) by (auto simp: deps_older_def)
  moreover have "map_of (roster d) (ts_id u) = Some (ts_team u)"
    "map_of (roster d) (ts_id b) = Some (ts_team b)"
    using wf_tasks_by_id [OF assms(1)] task_by_id_roster assms(3) b(1) by blast+
  ultimately show ?thesis using that b(1,3) by simp
qed

lemma unblocked_exists:
  assumes "wf_tasks d" and "deps_older d"
    and "t \<in> set (tasks d)" and "\<not> finished (ts_status t)"
  obtains u where "u \<in> set (tasks d)" "\<not> finished (ts_status u)" "ts_team u = ts_team t"
    "\<not> blocked d (ts_id u)"
proof -
  let ?P = "\<lambda>u. u \<in> set (tasks d) \<and> \<not> finished (ts_status u) \<and> ts_team u = ts_team t"
  have "?P t" using assms(3,4) by simp
  then obtain u where u: "?P u"
    and least: "\<forall>v. ?P v \<longrightarrow> position (ids d) (ts_id u) \<le> position (ids d) (ts_id v)"
    using ex_has_least_nat [of ?P t "\<lambda>u. position (ids d) (ts_id u)"] by blast
  have "\<not> blocked d (ts_id u)"
  proof
    assume "blocked d (ts_id u)"
    with u obtain b where "?P b" "position (ids d) (ts_id b) < position (ids d) (ts_id u)"
      using blocker_of [OF assms(1,2)] by metis
    with least show False by fastforce
  qed
  with u that show ?thesis by blast
qed

text \<open>
  C4 (liveness). The queue has no dead end: if unfinished tasks are left and
  \<open>claim_next_task\<close> hands out nothing, then some task of the team is claimed under a lease
  that is still running.
\<close>

theorem queue_progress:
  assumes "wf_tasks d" and "deps_older d"
    and "t \<in> set (tasks d)" and "ts_team t = team" and "\<not> finished (ts_status t)"
    and "fst (claim_next_stmt x team a s lease now d) = None"
  shows "\<exists>u \<in> set (tasks d). ts_team u = team \<and> ts_status u = Claimed \<and>
    (\<exists>e. ts_lease u = Some e \<and> now \<le> e)"
proof -
  obtain u where u: "u \<in> set (tasks d)" "\<not> finished (ts_status u)" "ts_team u = team"
    "\<not> blocked d (ts_id u)"
    using unblocked_exists [OF assms(1,2,3,5)] assms(4) by metis
  have "\<not> candidate team now d u"
    using claim_next_cases [OF assms(1), where x = x and team = team and agent = a and sess = s
        and lease = lease and now = now] u(1) assms(6)
    by (auto split: prod.splits)
  with u wf_tasks_ok [OF assms(1) u(1)] show ?thesis
    by (cases "ts_status u")
      (auto simp: candidate_def finished_def task_ok_def linorder_not_less intro!: bexI [of _ u])
qed

definition busy_db :: db where
  "busy_db = snd (claim_stmt demo_ext 7 1 [] ''build'' 900 (seconds 1000) task_db)"

theorem queue_progress_witness:
  "\<exists>u \<in> set (tasks busy_db). ts_team u = 7 \<and> ts_status u = Claimed \<and>
    (\<exists>e. ts_lease u = Some e \<and> seconds 1100 \<le> e)"
proof (rule queue_progress)
  show "wf_tasks busy_db" by code_simp
  show "deps_older busy_db" by code_simp
  show "demo_task 52 ''ship'' (seconds 20) \<in> set (tasks busy_db)" by code_simp
  show "fst (claim_next_stmt demo_ext 7 2 [] 900 (seconds 1100) busy_db) = None" by code_simp
qed (simp_all add: demo_task_def finished_def)

subsection \<open>What \<open>claim_task\<close> answers\<close>

lemma fetch_task_quiet:
  "quiet c \<Longrightarrow> fetch_task auth key c =
     (case find_task (data c) (team_id auth, key) of
        None \<Rightarrow> (Inl (NotFound (TaskWhy (NoTask key))), c)
      | Some t \<Rightarrow> (Inr (task_info_of (clock c) (task_view_of (data c) t)), c))"
  by (simp add: fetch_task_def quiet_simps lift_def split: option.splits)

lemma log_event_quiet:
  "quiet c \<Longrightarrow> task_by_id (data c) i \<noteq> None \<Longrightarrow> log_event i agent event detail c =
     (Inr (), c\<lparr>data := snd (the (log_event_stmt i agent event detail (clock c) (data c)))\<rparr>)"
  by (simp add: log_event_def quiet_simps log_event_stmt_def)

text \<open>The answer to a claim that was refused.\<close>

definition refusal :: "auth_ctx \<Rightarrow> task_info \<Rightarrow> claim_result" where
  "refusal auth current = \<lparr> cr_claimed = False, cr_task = Some current,
     cr_reason = Some
       (if tv_blocked current then BlockedBy (tv_depends_on current)
        else if tv_status current = Claimed then Holder (holder_reason auth current)
        else TaskIs (tv_status current)) \<rparr>"

lemma seconds_div [simp]: "seconds n div 1000000 = n"
  by (simp add: seconds_def)

lemma lease_secs_pos: "0 \<le> lease_secs lease"
  using clamp_bounds [of 30 MAX_LEASE_SECS] by (auto simp: lease_secs_def MAX_LEASE_SECS_def
      intro: order_trans [of 0 30])

lemma claimed_info:
  fixes auth lease now t d
  defines "info \<equiv> task_info_of now (task_view_of d (set_claim (agent_id auth) (session auth) lease now t))"
  shows "tv_key info = ts_key t" "tv_status info = Claimed"
    "0 \<le> lease \<Longrightarrow> \<not> ti_lease_expired info"
    "0 \<le> lease \<Longrightarrow> ti_lease_seconds_remaining info = Some lease"
    "tv_claimed_session info = session_label auth"
  by (simp_all add: info_def task_info_of_def task_view_of_def task_view.defs set_claim_def
      seconds_def)

lemma claim_task_won:
  assumes "quiet c" and "normalize_key raw = Inr key" and "wf_tasks (data c)"
    and "find_task (data c) (team_id auth, key) = Some t"
    and "claimable (agent_id auth) (session auth) (clock c) (data c) t"
  obtains d where
    "claim_task x auth raw lease c =
      (Inr \<lparr> cr_claimed = True,
             cr_task = Some (task_info_of (clock c) (task_view_of d
               (set_claim (agent_id auth) (session auth) (lease_secs lease) (clock c) t))),
             cr_reason = None \<rparr>, c\<lparr>data := d\<rparr>)"
    "find_task d (team_id auth, key)
      = Some (set_claim (agent_id auth) (session auth) (lease_secs lease) (clock c) t)"
    "map te_event (task_events d) = map te_event (task_events (data c)) @ [''claimed'']"
proof -
  note t = find_task_in [OF assms(4)]
  let ?n = "set_claim (agent_id auth) (session auth) (lease_secs lease) (clock c) t"
  let ?d1 = "write_task x (clock c) t ?n (data c)"
  let ?d2 = "snd (the (log_event_stmt (ts_id t) (agent_id auth) ''claimed'' None (clock c) ?d1))"
  have f1: "find_task ?d1 (team_id auth, key) = Some ?n"
    using t assms(3) by (simp add: find_task_write)
  have "wf_tasks ?d1" using t assms(3) by (simp add: wf_write_task task_ok_changes)
  then have byid: "task_by_id ?d1 (ts_id t) = Some ?n"
    using wf_tasks_by_id [of ?d1 ?n] find_task_in [OF f1] by simp
  have tev: "task_events ?d1 = task_events (data c)" by (simp add: write_task_def)
  have tasks2: "tasks ?d2 = tasks ?d1" and
    ev: "map te_event (task_events ?d2) = map te_event (task_events (data c)) @ [''claimed'']"
    by (simp_all add: log_event_stmt_def byid tev)
  have f2: "find_task ?d2 (team_id auth, key) = Some ?n"
    using f1 find_task_frame [OF tasks2] by simp
  have "claim_task x auth raw lease c =
      (Inr \<lparr> cr_claimed = True, cr_task = Some (task_info_of (clock c) (task_view_of ?d2 ?n)),
             cr_reason = None \<rparr>, c\<lparr>data := ?d2\<rparr>)"
    using assms f2
    by (simp add: claim_task_def quiet_simps claim_stmt_def update_task_def fetch_task_quiet
        log_event_quiet byid)
  with f2 ev that show ?thesis by blast
qed



subsection \<open>Finished tasks\<close>

text \<open>\<open>settled k r\<close>: the task \<open>k\<close> is done with the result \<open>r\<close>.\<close>

definition settled :: "uuid \<times> string \<Rightarrow> string option \<Rightarrow> db \<Rightarrow> bool" where
  "settled k r d \<longleftrightarrow> wf_tasks d \<and>
     (\<exists>t. find_task d k = Some t \<and> ts_status t = Done \<and> ts_result t = r)"

lemma settled_frame: "tasks d' = tasks d \<Longrightarrow> settled k r d' = settled k r d"
  unfolding settled_def using find_task_frame [of d' d k] wf_tasks_frame [of d' d] by simp

lemma settled_update_task:
  assumes "settled k r d" and "\<And>t. ts_id (f t) = ts_id t \<and> task_key (f t) = task_key t"
    and "\<And>t. task_ok t \<Longrightarrow> P d t \<Longrightarrow> task_ok (f t)"
    and "\<And>t. P d t \<Longrightarrow> ts_status t \<noteq> Done"
  shows "settled k r (snd (update_task x team key P f now d))"
proof -
  have wf: "wf_tasks d" using assms(1) by (simp add: settled_def)
  have "wf_tasks (snd (update_task x team key P f now d))"
    by (rule wf_update_task [OF wf assms(2,3)])
  then show ?thesis
    using assms(1,4) find_update_task [OF wf assms(2), of x team key P now k]
    by (auto simp: settled_def)
qed

lemma settled_stmts:
  assumes "settled k r d"
  shows "settled k r (snd (claim_stmt x team agent sess key lease now d))"
    and "settled k r (snd (renew_stmt x team agent sess key lease now d))"
    and "settled k r (snd (release_task_stmt x team agent sess key now d))"
    and "settled k r (snd (complete_stmt x team key res now d))"
  unfolding task_stmt_defs using assms
  by (auto intro!: settled_update_task simp: task_ok_changes task_key_def claimable_def)

lemma settled_claim_next:
  assumes "settled k r d"
  shows "settled k r (snd (claim_next_stmt x team agent sess lease now d))"
proof -
  have wf: "wf_tasks d" using assms by (simp add: settled_def)
  obtain p d' where r: "claim_next_stmt x team agent sess lease now d = (p, d')" by force
  show ?thesis
  proof (cases p)
    case None
    with r assms show ?thesis
      using claim_next_cases [OF wf, where x = x and team = team and agent = agent and sess = sess
          and lease = lease and now = now] by simp
  next
    case (Some q)
    then obtain i key where "claim_stmt x team agent sess key lease now d = (Some i, d')"
      using r claim_next_cases [OF wf, where x = x and team = team and agent = agent
          and sess = sess and lease = lease and now = now]
      by (cases q) auto
    with r settled_stmts(1) [OF assms] show ?thesis by (metis snd_conv)
  qed
qed

lemma settled_insert_task:
  assumes "settled k r d"
    and "insert_task_stmt x fresh auth key title description metadata now d = Some (i, d')"
  shows "settled k r d'"
  using assms wf_insert_task_stmt [OF _ assms(2)]
  by (auto simp: settled_def insert_task_stmt_def Let_def find_task_def find_append
      split: if_splits option.splits)

lemma keeps_settled_stmts [keeps_intros]:
  "keeps (settled k r) (execute (claim_stmt x team agent sess key lease))"
  "keeps (settled k r) (execute (renew_stmt x team agent sess key lease))"
  "keeps (settled k r) (execute (release_task_stmt x team agent sess key))"
  "keeps (settled k r) (execute (complete_stmt x team key res))"
  "keeps (settled k r) (execute (claim_next_stmt x team agent sess lease))"
  by (rule keeps_execute, simp add: settled_stmts settled_claim_next)+

lemma keeps_settled_sql [keeps_intros]:
  "keeps (settled k r) (log_event task agent event detail)"
  "keeps (settled k r) (sql (insert_dep_stmt i dep))"
  "keeps (settled k r) (sql (insert_task_stmt x fresh auth key title description metadata))"
proof -
  show "keeps (settled k r) (log_event task agent event detail)"
    unfolding log_event_def
    by (rule keeps_sql) (metis log_event_frame settled_frame)
  show "keeps (settled k r) (sql (insert_dep_stmt i dep))"
    by (rule keeps_sql) (metis insert_dep_frame settled_frame)
  show "keeps (settled k r) (sql (insert_task_stmt x fresh auth key title description metadata))"
    by (rule keeps_sql) (rule settled_insert_task)
qed

inductive queue_step :: "externals \<Rightarrow> conn \<Rightarrow> conn \<Rightarrow> bool" for x where
  "queue_step x c (snd (create_task x fresh auth input c))"
| "queue_step x c (snd (claim_task x auth raw lease c))"
| "queue_step x c (snd (claim_next_task x auth lease c))"
| "queue_step x c (snd (renew_lease x auth raw lease c))"
| "queue_step x c (snd (release_task x auth raw c))"
| "queue_step x c (snd (complete_task x auth raw res c))"
| "queue_step x c (snd (list_tasks auth status mine limit c))"
| "queue_step x c (snd (get_task auth key c))"
| "queue_step x c (c\<lparr>clock := clock c + int n\<rparr>)"

lemma queue_step_keeps:
  assumes "queue_step x c c'" and "admissible (settled k r) c"
  shows "admissible (settled k r) c'"
  using assms(1)
proof cases
  case (1 fresh auth input)
  have "keeps (settled k r) (create_task x fresh auth input)"
    unfolding create_task_def Let_def find_task_id_def
    by (auto intro!: keeps_intros split: prod.split)
  then show ?thesis using 1 assms(2) by (simp add: keepsD)
next
  case (2 auth raw lease)
  have "keeps (settled k r) (claim_task x auth raw lease)"
    unfolding claim_task_def by (auto intro!: keeps_intros split: option.split)
  then show ?thesis using 2 assms(2) by (simp add: keepsD)
next
  case (3 auth lease)
  have "keeps (settled k r) (claim_next_task x auth lease)"
    unfolding claim_next_task_def by (auto intro!: keeps_intros split: option.split)
  then show ?thesis using 3 assms(2) by (simp add: keepsD)
next
  case (4 auth raw lease)
  have "keeps (settled k r) (renew_lease x auth raw lease)"
    unfolding renew_lease_def by (auto intro!: keeps_intros)
  then show ?thesis using 4 assms(2) by (simp add: keepsD)
next
  case (5 auth raw)
  have "keeps (settled k r) (release_task x auth raw)"
    unfolding release_task_def by (auto intro!: keeps_intros split: option.split)
  then show ?thesis using 5 assms(2) by (simp add: keepsD)
next
  case (6 auth raw res)
  have "keeps (settled k r) (complete_task x auth raw res)"
    unfolding complete_task_def by (auto intro!: keeps_intros split: option.split)
  then show ?thesis using 6 assms(2) by (simp add: keepsD)
next
  case 9
  then show ?thesis using assms(2) by (simp add: admissible_def)
qed (use assms(2) in \<open>simp_all add: keepsD [OF keeps_list_tasks] keepsD [OF keeps_get_task]\<close>)

text \<open>
  C6 (invariant). Done is final: no sequence of calls of the task API, by anybody, under any
  schedule of failures and delays, changes the status or the result of a task that is done.
\<close>

theorem finished_is_final:
  assumes "(queue_step x)\<^sup>*\<^sup>* c c'" and "admissible (settled k r) c"
  shows "\<exists>t. find_task (data c') k = Some t \<and> ts_status t = Done \<and> ts_result t = r"
proof -
  have "admissible (settled k r) c'"
    using assms by (induction rule: rtranclp_induct) (auto intro: queue_step_keeps)
  then show ?thesis by (simp add: admissible_def settled_def)
qed

definition done_conn :: conn where
  "done_conn = task_conn\<lparr>data := snd (complete_stmt demo_ext 7 ''build'' (Some ''ok'') (seconds 900) task_db)\<rparr>"

theorem finished_is_final_witness:
  "\<exists>t. find_task (data (snd (claim_task demo_ext bob ''build'' None done_conn))) (7, ''build'') = Some t
     \<and> ts_status t = Done \<and> ts_result t = Some ''ok''"
proof (rule finished_is_final)
  show "(queue_step demo_ext)\<^sup>*\<^sup>* done_conn (snd (claim_task demo_ext bob ''build'' None done_conn))"
    by (intro r_into_rtranclp queue_step.intros)
  have "map_option (\<lambda>t. (ts_status t, ts_result t)) (find_task (data done_conn) (7, ''build''))
      = Some (Done, Some ''ok'')"
    by code_simp
  then have "\<exists>t. find_task (data done_conn) (7, ''build'') = Some t \<and> ts_status t = Done
      \<and> ts_result t = Some ''ok''"
    by auto
  moreover have "wf_tasks (data done_conn)" by code_simp
  ultimately show "admissible (settled (7, ''build'') (Some ''ok'')) done_conn"
    by (simp add: admissible_def settled_def done_conn_def task_conn_def)
qed

subsection \<open>The window in \<open>create_task\<close>\<close>

definition idle :: tick where
  "idle = \<lparr> fails = False, takes = 0, others = id \<rparr>"

definition plain_ext :: externals where
  "plain_ext = demo_ext\<lparr>uuid_text := \<lambda>_. []\<rparr>"

definition race_sched :: "tick list" where
  "race_sched = [idle, idle, idle,
     idle\<lparr>others := snd \<circ> claim_stmt plain_ext 7 3 ''w'' ''release'' 900 (seconds 1000)\<rparr>]"

text \<open>
  \<open>create_task\<close> inserts the task before its dependencies, in separate
  statements: in this run another session claims the new task in between, so a task is
  claimed although the dependency it was registered with is not finished.
\<close>

theorem create_task_window:
  "case create_task plain_ext 53 ana (demo_input ''release'' [''build'']) (task_conn\<lparr>sched := race_sched\<rparr>) of
     (Inr info, c) \<Rightarrow> tv_status info = Claimed \<and> tv_claimed_by info = Some ''eve'' \<and>
        tv_blocked info \<and> tv_depends_on info = [''build'']
   | _ \<Rightarrow> False"
  by code_simp

end
