(* ===== verification/Attachments.thy ===== *)
theory Attachments
  imports Tasks Complex_Main
begin

text \<open>
  \<open>store/attachments.rs\<close> and \<open>store/quota.rs\<close>: small files on messages and tasks, the
  per-team storage quota that bounds them, and the retention run that deletes old data.
\<close>

subsection \<open>Validation\<close>

definition MAX_ATTACHMENT_BYTES :: nat where
  "MAX_ATTACHMENT_BYTES = 256 * 1024"

definition MAX_ATTACHMENTS_PER_TARGET :: nat where
  "MAX_ATTACHMENTS_PER_TARGET = 8"

record new_attachment =
  na_filename :: string
  na_type :: string
  na_data :: string

definition decode_input ::
  "externals \<Rightarrow> string \<Rightarrow> string option \<Rightarrow> string \<Rightarrow> new_attachment bus_result" where
  "decode_input x raw content_type data_base64 =
     (let filename = trim raw
      in if filename = [] then Inl (Invalid (FileWhy FilenameEmpty))
         else if 255 < length filename then Inl (Invalid (FileWhy FilenameTooLong))
         else and_then (ok_or (b64_decode x (trim data_base64)) (Invalid (FileWhy (BadBase64 filename))))
           (\<lambda>data.
             if data = [] then Inl (Invalid (FileWhy (AttachmentEmpty filename)))
             else if MAX_ATTACHMENT_BYTES < length data
             then Inl (Invalid (FileWhy (AttachmentTooLarge filename (length data))))
             else Inr \<lparr> na_filename = filename,
                        na_type = (case non_empty (map_option trim content_type) of
                            None \<Rightarrow> ''application/octet-stream'' | Some t \<Rightarrow> t),
                        na_data = data \<rparr>))"

subsection \<open>Quota\<close>

definition used_bytes :: "uuid \<Rightarrow> db \<Rightarrow> int" where
  "used_bytes team d = sum_list (map at_size (filter (\<lambda>a. at_team a = team) (attachments d)))"

definition team_limit :: "uuid \<Rightarrow> db \<Rightarrow> int option option" where
  "team_limit team d = map_option tm_limit (List.find (\<lambda>t. tm_id t = team) (teams d))"

record team_usage =
  us_attachment_bytes :: int
  us_attachment_count :: nat
  us_limit :: "int option"
  us_messages :: nat
  us_note_revisions :: nat
  us_task_events :: nat
  us_oldest_message :: "timestamp option"

definition revision_of_team :: "uuid \<Rightarrow> db \<Rightarrow> revision_row \<Rightarrow> bool" where
  "revision_of_team team d r \<longleftrightarrow> list_ex (\<lambda>n. nt_id n = rv_note r \<and> nt_team n = team) (note_table d)"

definition event_of_team :: "uuid \<Rightarrow> db \<Rightarrow> event_row \<Rightarrow> bool" where
  "event_of_team team d e \<longleftrightarrow> list_ex (\<lambda>t. ts_id t = te_task e \<and> ts_team t = team) (tasks d)"

definition least_of :: "int list \<Rightarrow> int option" where
  "least_of xs = (case xs of [] \<Rightarrow> None | y # ys \<Rightarrow> Some (fold min ys y))"

definition select_usage :: "uuid \<Rightarrow> db \<Rightarrow> team_usage" where
  "select_usage team d =
     \<lparr> us_attachment_bytes = used_bytes team d,
       us_attachment_count = length (filter (\<lambda>a. at_team a = team) (attachments d)),
       us_limit = Option.bind (team_limit team d) id,
       us_messages = length (filter (\<lambda>m. ms_team m = team) (messages d)),
       us_note_revisions = length (filter (revision_of_team team d) (revisions d)),
       us_task_events = length (filter (event_of_team team d) (task_events d)),
       us_oldest_message = least_of (map ms_created (filter (\<lambda>m. ms_team m = team) (messages d))) \<rparr>"

definition usage :: "uuid \<Rightarrow> team_usage io" where
  "usage team = query (\<lambda>now. select_usage team)"

text \<open>\<open>rnd\<close> is the rounding of \<open>f64\<close> results.\<close>

definition percent_used :: "(rat \<Rightarrow> rat) \<Rightarrow> team_usage \<Rightarrow> rat option" where
  "percent_used rnd u = (case us_limit u of
       None \<Rightarrow> None
     | Some l \<Rightarrow> if 0 < l
         then Some (rnd (rnd (rnd (of_int (us_attachment_bytes u)) / rnd (of_int l)) * 100)) else None)"

definition check_attachment_quota :: "uuid \<Rightarrow> int \<Rightarrow> unit io" where
  "check_attachment_quota team incoming =
     bind_io (sql (\<lambda>now d. map_option (\<lambda>l. (l, d)) (team_limit team d))) (\<lambda>limit.
     case limit of
       None \<Rightarrow> ret ()
     | Some l \<Rightarrow>
         bind_io (query (\<lambda>now. used_bytes team)) (\<lambda>used.
         if l < used + incoming then raise (Invalid (FileWhy (QuotaExceeded used l incoming)))
         else ret ()))"

subsection \<open>Attaching\<close>

definition parent_in_team :: "uuid \<Rightarrow> int option \<Rightarrow> uuid option \<Rightarrow> db \<Rightarrow> bool" where
  "parent_in_team team mid tid d = (case (mid, tid) of
       (Some m, None) \<Rightarrow> list_ex (\<lambda>r. ms_id r = m \<and> ms_team r = team) (messages d)
     | (None, Some t) \<Rightarrow> list_ex (\<lambda>r. ts_id r = t \<and> ts_team r = team) (tasks d)
     | _ \<Rightarrow> False)"

definition insert_attachment_stmt ::
  "uuid \<Rightarrow> int option \<Rightarrow> uuid option \<Rightarrow> uuid \<Rightarrow> new_attachment \<Rightarrow> timestamp \<Rightarrow> db \<Rightarrow> (int \<times> db) option" where
  "insert_attachment_stmt team mid tid uploader att now d =
     (if \<not> parent_in_team team mid tid d \<or> na_data att = [] then None
      else Some (attachment_seq d, d\<lparr>attachments := attachments d @
             [\<lparr> at_id = attachment_seq d, at_team = team, at_message = mid, at_task = tid,
                at_uploader = uploader, at_filename = na_filename att, at_type = na_type att,
                at_size = int (length (na_data att)), at_data = na_data att, at_created = now \<rparr>],
           attachment_seq := attachment_seq d + 1\<rparr>))"

definition new_meta :: "new_attachment \<Rightarrow> int \<Rightarrow> attachment_meta" where
  "new_meta att i = \<lparr> am_id = i, am_filename = na_filename att, am_type = na_type att,
     am_size = int (length (na_data att)) \<rparr>"

definition insert_for_message ::
  "uuid \<Rightarrow> int \<Rightarrow> uuid \<Rightarrow> new_attachment \<Rightarrow> attachment_meta io" where
  "insert_for_message team mid uploader att =
     bind_io (check_attachment_quota team (int (length (na_data att)))) (\<lambda>_.
     bind_io (sql (insert_attachment_stmt team (Some mid) None uploader att)) (\<lambda>i.
     ret (new_meta att i)))"

definition attach_to_task ::
  "auth_ctx \<Rightarrow> string \<Rightarrow> new_attachment \<Rightarrow> attachment_meta io" where
  "attach_to_task auth raw att =
     (let key = trim raw in
      bind_io (find_task_id (team_id auth) key) (\<lambda>task.
      bind_io (lift (ok_or task (NotFound (TaskWhy (NoTask key))))) (\<lambda>i.
      bind_io (query (\<lambda>now d. length (filter (\<lambda>a. at_task a = Some i) (attachments d)))) (\<lambda>n.
      if MAX_ATTACHMENTS_PER_TARGET \<le> n then raise (Invalid (FileWhy (TaskAttachmentsFull key)))
      else in_tx
        (bind_io (check_attachment_quota (team_id auth) (int (length (na_data att)))) (\<lambda>_.
         bind_io (sql (insert_attachment_stmt (team_id auth) None (Some i) (agent_id auth) att)) (\<lambda>aid.
         ret (new_meta att aid))))))))"

definition attach_to_message ::
  "auth_ctx \<Rightarrow> int \<Rightarrow> new_attachment \<Rightarrow> attachment_meta io" where
  "attach_to_message auth mid att =
     bind_io (query (\<lambda>now d. map_option ms_sender
       (List.find (\<lambda>m. ms_id m = mid \<and> ms_team m = team_id auth) (messages d)))) (\<lambda>row.
     bind_io (lift (ok_or row (NotFound (MessageWhy (NoMessage mid))))) (\<lambda>sender.
     if sender \<noteq> agent_id auth then raise (Invalid (FileWhy NotYourMessage))
     else
       bind_io (query (\<lambda>now d. length (filter (\<lambda>a. at_message a = Some mid) (attachments d)))) (\<lambda>n.
       if MAX_ATTACHMENTS_PER_TARGET \<le> n then raise (Invalid (FileWhy (MessageAttachmentsFull mid)))
       else insert_for_message (team_id auth) mid (agent_id auth) att)))"

subsection \<open>Reading\<close>

record attachment_content =
  ac_id :: int
  ac_filename :: string
  ac_type :: string
  ac_size :: int
  ac_uploaded_by :: string
  ac_created :: timestamp
  ac_data_base64 :: string

text \<open>The row with the recipient and the sender of the message it hangs on, if any.\<close>

definition select_attachment ::
  "uuid \<Rightarrow> int \<Rightarrow> db \<Rightarrow> (attachment_row \<times> string \<times> uuid option \<times> uuid option) option" where
  "select_attachment team i d =
     Option.bind (List.find (\<lambda>a. at_id a = i \<and> at_team a = team) (attachments d)) (\<lambda>a.
     map_option (\<lambda>by.
       let m = Option.bind (at_message a) (\<lambda>mid. List.find (\<lambda>r. ms_id r = mid) (messages d))
       in (a, by, Option.bind m ms_recipient, map_option ms_sender m))
     (agent_name_of d (at_uploader a)))"

definition get_attachment :: "externals \<Rightarrow> auth_ctx \<Rightarrow> int \<Rightarrow> attachment_content io" where
  "get_attachment x auth i =
     bind_io (query (\<lambda>now. select_attachment (team_id auth) i)) (\<lambda>row.
     bind_io (lift (ok_or row (NotFound (FileWhy (NoAttachment i))))) (\<lambda>(a, by, recipient, sender).
     if recipient \<noteq> None \<and> recipient \<noteq> Some (agent_id auth) \<and> sender \<noteq> Some (agent_id auth)
     then raise (NotFound (FileWhy (NoAttachment i)))
     else ret \<lparr> ac_id = i, ac_filename = at_filename a, ac_type = at_type a, ac_size = at_size a,
                ac_uploaded_by = by, ac_created = at_created a,
                ac_data_base64 = b64_encode x (at_data a) \<rparr>))"

subsection \<open>Retention\<close>

record prune_report =
  pp_messages :: nat
  pp_note_revisions :: nat
  pp_task_events :: nat
  pp_freed_bytes :: int
  pp_dry_run :: bool

text \<open>
  \<open>now() - make_interval(days => n)\<close>: Postgres fails on a timestamp before the year 4713 BC.
  A day is 24 hours (the session time zone is UTC).
\<close>

definition TIMESTAMP_MIN :: timestamp where
  "TIMESTAMP_MIN = seconds (-210866803200)"

definition cutoff :: "int \<Rightarrow> timestamp \<Rightarrow> timestamp option" where
  "cutoff days now =
     (let t = now - seconds (days * 86400) in if t < TIMESTAMP_MIN then None else Some t)"

definition freed_bytes :: "uuid \<Rightarrow> timestamp \<Rightarrow> db \<Rightarrow> int" where
  "freed_bytes team before d = sum_list (map at_size (filter
     (\<lambda>a. at_team a = team \<and>
        list_ex (\<lambda>m. at_message a = Some (ms_id m) \<and> ms_created m < before) (messages d))
     (attachments d)))"

definition delete_revisions :: "uuid \<Rightarrow> timestamp \<Rightarrow> db \<Rightarrow> nat \<times> db" where
  "delete_revisions team before d =
     (let gone = (\<lambda>r. revision_of_team team d r \<and> rv_created r < before)
      in (length (filter gone (revisions d)), d\<lparr>revisions := filter (\<lambda>r. \<not> gone r) (revisions d)\<rparr>))"

definition delete_events :: "uuid \<Rightarrow> timestamp \<Rightarrow> db \<Rightarrow> nat \<times> db" where
  "delete_events team before d =
     (let gone = (\<lambda>e. event_of_team team d e \<and> te_created e < before)
      in (length (filter gone (task_events d)), d\<lparr>task_events := filter (\<lambda>e. \<not> gone e) (task_events d)\<rparr>))"

text \<open>The foreign keys: attachments go with their message, a reply loses its reference.\<close>

definition delete_messages :: "uuid \<Rightarrow> timestamp \<Rightarrow> db \<Rightarrow> nat \<times> db" where
  "delete_messages team before d =
     (let gone = (\<lambda>m. ms_team m = team \<and> ms_created m < before);
          dead = map ms_id (filter gone (messages d))
      in (length dead,
          d\<lparr>messages := update_where (\<lambda>m. \<exists>i \<in> set dead. ms_reply_to m = Some i)
               (\<lambda>m. m\<lparr>ms_reply_to := None\<rparr>) (filter (\<lambda>m. \<not> gone m) (messages d)),
             attachments := filter (\<lambda>a. \<not> (\<exists>i \<in> set dead. at_message a = Some i)) (attachments d)\<rparr>))"

definition at_cutoff :: "int \<Rightarrow> (timestamp \<Rightarrow> db \<Rightarrow> 'a \<times> db) \<Rightarrow> 'a io" where
  "at_cutoff days f = sql (\<lambda>now d. map_option (\<lambda>t. f t d) (cutoff days now))"

definition prune :: "uuid \<Rightarrow> int \<Rightarrow> bool \<Rightarrow> prune_report io" where
  "prune team older_than_days dry_run =
     (if older_than_days < 1 then raise (Invalid (AdminWhy PruneWindowTooSmall))
      else if 2 ^ 31 \<le> older_than_days
      then raise (Invalid (AdminWhy (PruneWindowTooLarge older_than_days)))
      else transaction (\<lambda>_. \<not> dry_run)
        (bind_io (at_cutoff older_than_days (\<lambda>t d. (freed_bytes team t d, d))) (\<lambda>freed.
         bind_io (at_cutoff older_than_days (delete_revisions team)) (\<lambda>n_revisions.
         bind_io (at_cutoff older_than_days (delete_events team)) (\<lambda>n_events.
         bind_io (at_cutoff older_than_days (delete_messages team)) (\<lambda>n_messages.
         ret \<lparr> pp_messages = n_messages, pp_note_revisions = n_revisions,
               pp_task_events = n_events, pp_freed_bytes = freed, pp_dry_run = dry_run \<rparr>))))))"

subsection \<open>Validated files\<close>

text \<open>
  What passes validation: a trimmed file name of 1 to 255 bytes, between one
  byte and 256 KiB of data, decoded from the given base64, and a content type that is never
  empty.
\<close>

theorem decode_input_bounds:
  assumes "decode_input x raw content_type b64 = Inr att"
  shows "0 < length (na_filename att) \<and> length (na_filename att) \<le> 255 \<and>
    trim (na_filename att) = na_filename att \<and>
    b64_decode x (trim b64) = Some (na_data att) \<and>
    0 < length (na_data att) \<and> length (na_data att) \<le> MAX_ATTACHMENT_BYTES \<and>
    na_type att \<noteq> []"
  using assms
  by (auto simp: decode_input_def Let_def and_then_Inr non_empty_def not_less
      split: if_splits option.splits)

definition demo_file :: new_attachment where
  "demo_file = \<lparr> na_filename = ''a.log'', na_type = ''text/plain'', na_data = ''hi'' \<rparr>"

lemma demo_file_decodes:
  "decode_input demo_ext '' a.log'' (Some ''text/plain'') ''6869'' = Inr demo_file"
  by code_simp

theorem decode_input_bounds_witness:
  "0 < length (na_data demo_file) \<and> b64_decode demo_ext (trim ''6869'') = Some (na_data demo_file)"
  using decode_input_bounds [OF demo_file_decodes] by blast

subsection \<open>The quota is never exceeded\<close>

definition within_quota :: "uuid \<Rightarrow> db \<Rightarrow> bool" where
  "within_quota team d \<longleftrightarrow> (\<forall>l. team_limit team d = Some (Some l) \<longrightarrow> used_bytes team d \<le> l)"

definition has_room :: "uuid \<Rightarrow> int \<Rightarrow> db \<Rightarrow> bool" where
  "has_room team n d \<longleftrightarrow> (\<forall>l. team_limit team d = Some (Some l) \<longrightarrow> used_bytes team d + n \<le> l)"

lemma insert_attachment_usage:
  assumes "insert_attachment_stmt team' mid tid uploader att now d = Some (i, d')"
  shows "used_bytes team d' = used_bytes team d + (if team' = team then int (length (na_data att)) else 0)"
    and "teams d' = teams d"
  using assms by (auto simp: insert_attachment_stmt_def used_bytes_def split: if_splits)

lemma team_limit_frame: "teams d' = teams d \<Longrightarrow> team_limit team d' = team_limit team d"
  by (simp add: team_limit_def)

lemma valid_check_quota:
  "valid (=) (within_quota team) (check_attachment_quota team n)
     (\<lambda>r d. within_quota team d \<and> (\<forall>u. r = Inr u \<longrightarrow> has_room team n d))"
  unfolding check_attachment_quota_def
proof (rule valid_bind [OF valid_sql
      [where Q = "\<lambda>r d. within_quota team d \<and> (\<forall>l. r = Inr l \<longrightarrow> team_limit team d = Some l)"]])
  fix limit
  show "valid (=) (\<lambda>d. within_quota team d \<and> (\<forall>l. Inr limit = Inr l \<longrightarrow> team_limit team d = Some l))
     (case limit of None \<Rightarrow> ret ()
      | Some l \<Rightarrow> bind_io (query (\<lambda>now. used_bytes team)) (\<lambda>used.
          if l < used + n then raise (Invalid (FileWhy (QuotaExceeded used l n))) else ret ()))
     (\<lambda>r d. within_quota team d \<and> (\<forall>u. r = Inr u \<longrightarrow> has_room team n d))"
  proof (cases limit)
    case (Some l)
    have "valid (=) (\<lambda>d. within_quota team d \<and> team_limit team d = Some (Some l))
        (query (\<lambda>now. used_bytes team))
        (\<lambda>r d. within_quota team d \<and> team_limit team d = Some (Some l) \<and>
           (\<forall>u. r = Inr u \<longrightarrow> used_bytes team d = u))"
      by (rule valid_query) auto
    with Some show ?thesis
      by (auto intro!: valid_bind valid_ret valid_raise simp: has_room_def)
  qed (auto intro!: valid_ret simp: has_room_def)
qed auto

lemma within_quota_insert:
  assumes "has_room team (int (length (na_data att))) d"
    and "insert_attachment_stmt team mid tid uploader att now d = Some (i, d')"
  shows "within_quota team d'"
proof -
  have "team_limit team d' = team_limit team d"
    using insert_attachment_usage(2) [OF assms(2)] by (rule team_limit_frame)
  moreover have "used_bytes team d' = used_bytes team d + int (length (na_data att))"
    using insert_attachment_usage(1) [OF assms(2), of team] by simp
  ultimately show ?thesis using assms(1) by (simp add: within_quota_def has_room_def)
qed

lemma within_quota_insert_other:
  assumes "within_quota team d" and "team' \<noteq> team"
    and "insert_attachment_stmt team' mid tid uploader att now d = Some (i, d')"
  shows "within_quota team d'"
proof -
  have "team_limit team d' = team_limit team d"
    using insert_attachment_usage(2) [OF assms(3)] by (rule team_limit_frame)
  moreover have "used_bytes team d' = used_bytes team d"
    using insert_attachment_usage(1) [OF assms(3), of team] assms(2) by simp
  ultimately show ?thesis using assms(1) by (simp add: within_quota_def)
qed

text \<open>
  The check followed by the insert, on its own: the shape both the task upload and
  \<open>insert_for_message\<close> have.
\<close>

lemma valid_checked_insert:
  "valid (=) (within_quota team)
     (bind_io (check_attachment_quota team' (int (length (na_data att)))) (\<lambda>_.
      bind_io (sql (insert_attachment_stmt team' mid tid uploader att)) (\<lambda>i. ret (f i))))
     (\<lambda>r. within_quota team)"
proof (cases "team' = team")
  case True
  have ins: "valid (=) (\<lambda>d. within_quota team d \<and> has_room team (int (length (na_data att))) d)
      (sql (insert_attachment_stmt team mid tid uploader att)) (\<lambda>r. within_quota team)"
    by (rule valid_sql) (auto intro: within_quota_insert)
  show ?thesis
    unfolding True
    by (rule valid_bind [OF valid_check_quota])
      (auto intro!: valid_bind [OF valid_conseq [OF ins]] valid_ret)
next
  case False
  have ins: "valid (=) (within_quota team)
      (sql (insert_attachment_stmt team' mid tid uploader att)) (\<lambda>r. within_quota team)"
    by (rule valid_sql) (auto intro: within_quota_insert_other [OF _ False])
  have chk: "valid (=) (within_quota team) (check_attachment_quota team' n) (\<lambda>r. within_quota team)" for n
    unfolding check_attachment_quota_def
  proof (rule valid_bind [OF valid_sql [where Q = "\<lambda>r. within_quota team"]])
    fix limit
    show "valid (=) (within_quota team)
      (case limit of None \<Rightarrow> ret ()
       | Some l \<Rightarrow> bind_io (query (\<lambda>now. used_bytes team')) (\<lambda>used.
           if l < used + n then raise (Invalid (FileWhy (QuotaExceeded used l n))) else ret ()))
      (\<lambda>r. within_quota team)"
      by (cases limit)
        (auto intro!: valid_ret valid_raise valid_bind [OF valid_query [where Q = "\<lambda>r. within_quota team"]])
  qed auto
  show ?thesis
    by (rule valid_bind [OF chk]) (auto intro!: valid_bind [OF ins] valid_ret)
qed


definition small_team :: db where
  "small_team = demo_db\<lparr>
     teams := [\<lparr> tm_id = 7, tm_slug = ''t'', tm_name = ''T'', tm_limit = Some 3 \<rparr>],
     messages := [\<lparr> ms_id = 1, ms_team = 7, ms_channel = Some 20, ms_recipient = None,
       ms_recipient_session = None, ms_sender = 1, ms_sender_session = None, ms_announce = False,
       ms_body = ''b'', ms_reply_to = None, ms_metadata = JObj [], ms_created = 0 \<rparr>],
     message_seq := 2 \<rparr>"

definition other_upload :: "db \<Rightarrow> db" where
  "other_upload d = data (snd (attach_to_message ana 1 demo_file
     \<lparr> data = d, clock = 0, sched = [] \<rparr>))"

definition upload_race :: "tick list" where
  "upload_race = (let idle = \<lparr> fails = False, takes = 0, others = id \<rparr>
     in [idle, idle, idle, idle, idle\<lparr>others := other_upload\<rparr>])"

text \<open>
  Attaching to a message has no such transaction: in this run two uploads of
  the same sender, each of which fits on its own, both succeed and leave the team above its
  quota of three bytes.
\<close>

theorem attach_to_message_race:
  "used_bytes 7 small_team = 0 \<and> team_limit 7 small_team = Some (Some 3) \<and>
   (case attach_to_message ana 1 demo_file \<lparr> data = small_team, clock = 0, sched = upload_race \<rparr> of
      (Inr m, c) \<Rightarrow> am_size m = 2 \<and> used_bytes 7 (data c) = 4
    | _ \<Rightarrow> False)"
  by code_simp

subsection \<open>Files of direct messages stay private\<close>

lemma get_attachment_quiet:
  "quiet c \<Longrightarrow> get_attachment x auth i c =
     (case select_attachment (team_id auth) i (data c) of
        None \<Rightarrow> (Inl (NotFound (FileWhy (NoAttachment i))), c)
      | Some (a, by, recipient, sender) \<Rightarrow>
          if recipient \<noteq> None \<and> recipient \<noteq> Some (agent_id auth) \<and> sender \<noteq> Some (agent_id auth)
          then (Inl (NotFound (FileWhy (NoAttachment i))), c)
          else (Inr \<lparr> ac_id = i, ac_filename = at_filename a, ac_type = at_type a,
                      ac_size = at_size a, ac_uploaded_by = by, ac_created = at_created a,
                      ac_data_base64 = b64_encode x (at_data a) \<rparr>, c))"
  by (simp add: get_attachment_def quiet_simps lift_def split: option.splits prod.splits)


definition dm_row :: message_row where
  "dm_row = \<lparr> ms_id = 1, ms_team = 7, ms_channel = None, ms_recipient = Some 2,
     ms_recipient_session = None, ms_sender = 1, ms_sender_session = None, ms_announce = False,
     ms_body = ''b'', ms_reply_to = None, ms_metadata = JObj [], ms_created = 0 \<rparr>"

definition dm_file :: attachment_row where
  "dm_file = \<lparr> at_id = 5, at_team = 7, at_message = Some 1, at_task = None, at_uploader = 1,
     at_filename = ''k'', at_type = ''t'', at_size = 2, at_data = ''hi'', at_created = 0 \<rparr>"

definition dm_conn :: conn where
  "dm_conn = demo_conn\<lparr>data := demo_db\<lparr>messages := [dm_row], attachments := [dm_file]\<rparr>\<rparr>"


subsection \<open>What goes in comes out\<close>

lemma attach_to_task_quiet:
  assumes q: "quiet c" and t: "find_task (data c) (team_id auth, trim key) = Some t"
    and room: "length (filter (\<lambda>a. at_task a = Some (ts_id t)) (attachments (data c)))
        < MAX_ATTACHMENTS_PER_TARGET"
    and limit: "team_limit (team_id auth) (data c) = Some quota"
    and fits: "has_room (team_id auth) (int (length (na_data att))) (data c)"
    and data: "na_data att \<noteq> []"
  shows "attach_to_task auth key att c =
    (let r = the (insert_attachment_stmt (team_id auth) None (Some (ts_id t)) (agent_id auth) att
        (clock c) (data c))
     in (Inr (new_meta att (fst r)), c\<lparr>data := snd r\<rparr>))"
proof -
  have "ts_team t = team_id auth" using find_task_in [OF t] by (simp add: task_key_def)
  then have "parent_in_team (team_id auth) None (Some (ts_id t)) (data c)"
    using find_task_in [OF t] by (auto simp: parent_in_team_def list_ex_iff)
  then obtain r where ins: "insert_attachment_stmt (team_id auth) None (Some (ts_id t))
      (agent_id auth) att (clock c) (data c) = Some r"
    using data by (simp add: insert_attachment_stmt_def)
  have chk: "check_attachment_quota (team_id auth) (int (length (na_data att))) c = (Inr (), c)"
    using q limit fits
    by (auto simp: check_attachment_quota_def quiet_simps has_room_def not_less
        split: option.splits)
  have sched: "c\<lparr>sched := []\<rparr> = c" using q by (cases c) (simp add: quiet_def)
  have "(case r of (aid, d) \<Rightarrow> c\<lparr>data := d, sched := []\<rparr>) = c\<lparr>data := snd r\<rparr>"
    using q by (cases c; cases r) (simp add: quiet_def)
  then show ?thesis
    using q t room chk ins
    by (simp add: attach_to_task_def find_task_id_def quiet_simps Let_def lift_def not_le
        split: prod.splits)
qed

lemma attach_then_get:
  assumes q: "quiet c" and t: "find_task (data c) (team_id auth, trim key) = Some t"
    and room: "length (filter (\<lambda>a. at_task a = Some (ts_id t)) (attachments (data c)))
      < MAX_ATTACHMENTS_PER_TARGET"
    and limit: "team_limit (team_id auth) (data c) = Some quota"
    and fits: "has_room (team_id auth) (int (length (na_data att))) (data c)"
    and bytes: "na_data att \<noteq> []"
    and ids: "\<forall>a \<in> set (attachments (data c)). at_id a < attachment_seq (data c)"
    and me: "agent_name_of (data c) (agent_id auth) = Some me"
    and team: "team_id reader = team_id auth"
  shows "\<exists>c'. attach_to_task auth key att c = (Inr (new_meta att (attachment_seq (data c))), c') \<and>
    get_attachment x reader (attachment_seq (data c)) c' =
      (Inr \<lparr> ac_id = attachment_seq (data c), ac_filename = na_filename att, ac_type = na_type att,
             ac_size = int (length (na_data att)), ac_uploaded_by = me, ac_created = clock c,
             ac_data_base64 = b64_encode x (na_data att) \<rparr>, c')"
proof -
  let ?ins = "insert_attachment_stmt (team_id auth) None (Some (ts_id t)) (agent_id auth) att
      (clock c) (data c)"
  let ?row = "\<lparr> at_id = attachment_seq (data c), at_team = team_id auth, at_message = None,
      at_task = Some (ts_id t), at_uploader = agent_id auth, at_filename = na_filename att,
      at_type = na_type att, at_size = int (length (na_data att)), at_data = na_data att,
      at_created = clock c \<rparr>"
  have run: "attach_to_task auth key att c = (Inr (new_meta att (fst (the ?ins))), c\<lparr>data := snd (the ?ins)\<rparr>)"
    using attach_to_task_quiet [OF q t room limit fits bytes] by (simp add: Let_def)
  have "ts_team t = team_id auth" using find_task_in [OF t] by (simp add: task_key_def)
  then have "parent_in_team (team_id auth) None (Some (ts_id t)) (data c)"
    using find_task_in [OF t] by (auto simp: parent_in_team_def list_ex_iff)
  then have ins: "?ins = Some (attachment_seq (data c), (data c)\<lparr>attachments := attachments (data c) @ [?row],
      attachment_seq := attachment_seq (data c) + 1\<rparr>)"
    using bytes by (simp add: insert_attachment_stmt_def)
  have "List.find (\<lambda>a. at_id a = attachment_seq (data c) \<and> at_team a = team_id auth)
      (attachments (data c)) = None"
    using ids by (auto simp: find_None_iff_set)
  then have sel: "select_attachment (team_id reader) (attachment_seq (data c)) (snd (the ?ins))
      = Some (?row, me, None, None)"
    using me team by (simp add: ins select_attachment_def find_append agent_name_of_def)
  have "get_attachment x reader (attachment_seq (data c)) (c\<lparr>data := snd (the ?ins)\<rparr>) =
      (Inr \<lparr> ac_id = attachment_seq (data c), ac_filename = na_filename att, ac_type = na_type att,
             ac_size = int (length (na_data att)), ac_uploaded_by = me, ac_created = clock c,
             ac_data_base64 = b64_encode x (na_data att) \<rparr>, c\<lparr>data := snd (the ?ins)\<rparr>)"
    using q sel by (simp add: get_attachment_quiet)
  with run ins show ?thesis by simp
qed

text \<open>
  A file put on a task comes back unchanged: the base64 a teammate reads
  decodes to the bytes that were uploaded, under the file name and size they had.
\<close>

theorem attachment_roundtrip:
  assumes "quiet c" and "find_task (data c) (team_id auth, trim key) = Some t"
    and "length (filter (\<lambda>a. at_task a = Some (ts_id t)) (attachments (data c)))
      < MAX_ATTACHMENTS_PER_TARGET"
    and "team_limit (team_id auth) (data c) = Some quota"
    and "has_room (team_id auth) (int (length (na_data att))) (data c)"
    and "decode_input x name ctype b64 = Inr att"
    and "\<forall>a \<in> set (attachments (data c)). at_id a < attachment_seq (data c)"
    and "agent_name_of (data c) (agent_id auth) = Some me"
    and "team_id reader = team_id auth"
    and "\<forall>s. b64_decode x (b64_encode x s) = Some s"
  shows "\<exists>meta c' content. attach_to_task auth key att c = (Inr meta, c') \<and>
    get_attachment x reader (am_id meta) c' = (Inr content, c') \<and>
    b64_decode x (ac_data_base64 content) = b64_decode x (trim b64) \<and>
    ac_filename content = trim name \<and> ac_size content = int (length (na_data att)) \<and>
    ac_uploaded_by content = me"
proof -
  have att: "na_data att \<noteq> []" "b64_decode x (trim b64) = Some (na_data att)"
    "na_filename att = trim name"
    using assms(6) by (auto simp: decode_input_def Let_def and_then_Inr split: if_splits)
  obtain c' where "attach_to_task auth key att c = (Inr (new_meta att (attachment_seq (data c))), c')"
    "get_attachment x reader (attachment_seq (data c)) c' =
      (Inr \<lparr> ac_id = attachment_seq (data c), ac_filename = na_filename att, ac_type = na_type att,
             ac_size = int (length (na_data att)), ac_uploaded_by = me, ac_created = clock c,
             ac_data_base64 = b64_encode x (na_data att) \<rparr>, c')"
    using attach_then_get [OF assms(1-5) att(1) assms(7-9)] by blast
  then show ?thesis using att assms(10) by (simp add: new_meta_def)
qed

definition file_task :: task_row where
  "file_task = \<lparr> ts_id = 51, ts_team = 7, ts_key = ''build'', ts_title = ''b'',
     ts_description = None, ts_status = Open, ts_claimed_by = None, ts_claimed_session = None,
     ts_claimed_at = None, ts_lease = None, ts_result = None, ts_metadata = JObj [],
     ts_created_by = Some 1, ts_created = 0, ts_updated = 0 \<rparr>"

definition file_conn :: conn where
  "file_conn = demo_conn\<lparr>data := demo_db\<lparr>tasks := [file_task]\<rparr>\<rparr>"

theorem attachment_roundtrip_witness:
  "\<exists>meta c' content. attach_to_task ana ''build'' demo_file file_conn = (Inr meta, c') \<and>
    get_attachment demo_ext bob (am_id meta) c' = (Inr content, c') \<and>
    b64_decode demo_ext (ac_data_base64 content) = Some ''hi'' \<and>
    ac_filename content = ''a.log''"
proof -
  have q: "quiet file_conn" by (simp add: file_conn_def)
  have t: "find_task (data file_conn) (team_id ana, trim ''build'') = Some file_task" by code_simp
  have n: "length (filter (\<lambda>a. at_task a = Some (ts_id file_task)) (attachments (data file_conn)))
      < MAX_ATTACHMENTS_PER_TARGET" by code_simp
  have l: "team_limit (team_id ana) (data file_conn) = Some None" by code_simp
  then have r: "has_room (team_id ana) (int (length (na_data demo_file))) (data file_conn)"
    by (simp add: has_room_def)
  have s: "\<forall>a \<in> set (attachments (data file_conn)). at_id a < attachment_seq (data file_conn)"
    by code_simp
  have m: "agent_name_of (data file_conn) (agent_id ana) = Some ''ana''" by code_simp
  have team: "team_id bob = team_id ana" by (simp add: ana_def bob_def)
  have b64: "\<forall>s. b64_decode demo_ext (b64_encode demo_ext s) = Some s"
    by (simp add: demo_ext_def unnibbles_nibbles)
  have vals: "b64_decode demo_ext (trim ''6869'') = Some ''hi''" "trim '' a.log'' = ''a.log''"
    by code_simp+
  show ?thesis
    using attachment_roundtrip [OF q t n l r demo_file_decodes s m team b64] vals by metis
qed

subsection \<open>Retention\<close>

lemma at_cutoff_quiet:
  "quiet c \<Longrightarrow> cutoff days (clock c) = Some t \<Longrightarrow>
     at_cutoff days f c = (Inr (fst (f t (data c))), c\<lparr>data := snd (f t (data c))\<rparr>)"
  by (simp add: at_cutoff_def quiet_simps split: prod.splits)

definition pruned :: "uuid \<Rightarrow> timestamp \<Rightarrow> db \<Rightarrow> db" where
  "pruned team t d =
     snd (delete_messages team t (snd (delete_events team t (snd (delete_revisions team t d)))))"

definition pruned_report :: "uuid \<Rightarrow> timestamp \<Rightarrow> bool \<Rightarrow> db \<Rightarrow> prune_report" where
  "pruned_report team t dry d =
     \<lparr> pp_messages = length (filter (\<lambda>m. ms_team m = team \<and> ms_created m < t) (messages d)),
       pp_note_revisions = length (filter (\<lambda>r. revision_of_team team d r \<and> rv_created r < t) (revisions d)),
       pp_task_events = length (filter (\<lambda>e. event_of_team team d e \<and> te_created e < t) (task_events d)),
       pp_freed_bytes = freed_bytes team t d, pp_dry_run = dry \<rparr>"

lemma delete_frames:
  "note_table (snd (delete_revisions team t d)) = note_table d"
  "tasks (snd (delete_revisions team t d)) = tasks d"
  "task_events (snd (delete_revisions team t d)) = task_events d"
  "messages (snd (delete_revisions team t d)) = messages d"
  "messages (snd (delete_events team t d)) = messages d"
  "attachments (snd (delete_revisions team t d)) = attachments d"
  "attachments (snd (delete_events team t d)) = attachments d"
  by (simp_all add: delete_revisions_def delete_events_def Let_def)

lemma prune_quiet:
  assumes "quiet c" and "1 \<le> days" and "days < 2 ^ 31" and "cutoff days (clock c) = Some t"
  shows "prune team days dry c =
    (Inr (pruned_report team t dry (data c)), if dry then c else c\<lparr>data := pruned team t (data c)\<rparr>)"
proof -
  have ev: "event_of_team team (d\<lparr>revisions := rs\<rparr>) = event_of_team team d" for d rs
    by (simp add: fun_eq_iff event_of_team_def)
  have sched: "c\<lparr>data := d, sched := []\<rparr> = c\<lparr>data := d\<rparr>" for d
    using assms(1) by (cases c) (simp add: quiet_def)
  show ?thesis
    using assms
    by (simp add: prune_def transaction_quiet bind_quiet at_cutoff_quiet ret_quiet not_le
        pruned_report_def pruned_def delete_revisions_def delete_events_def delete_messages_def
        Let_def ev sched)
qed

text \<open>Message ids are unique, and an attachment of a message has the message's team.\<close>

definition wf_files :: "db \<Rightarrow> bool" where
  "wf_files d \<longleftrightarrow> distinct (map ms_id (messages d)) \<and>
     (\<forall>a \<in> set (attachments d). \<forall>i. at_message a = Some i \<longrightarrow>
        (\<exists>m \<in> set (messages d). ms_id m = i \<and> ms_team m = at_team a))"

lemma sum_filter_split:
  "sum_list (map f (filter P xs)) =
     sum_list (map f (filter (\<lambda>x. P x \<and> Q x) xs)) + sum_list (map f (filter (\<lambda>x. P x \<and> \<not> Q x) xs))"
  for f :: "'a \<Rightarrow> int"
  by (induction xs) auto

lemma freed_is_difference:
  assumes "wf_files d"
  shows "freed_bytes team t d = used_bytes team d - used_bytes team (pruned team t d)"
proof -
  let ?dead = "\<lambda>a. \<exists>m \<in> set (messages d). ms_team m = team \<and> ms_created m < t \<and> at_message a = Some (ms_id m)"
  have keep: "attachments (pruned team t d) = filter (\<lambda>a. \<not> ?dead a) (attachments d)"
    by (auto simp: pruned_def delete_messages_def Let_def delete_frames intro!: filter_cong)
  have gone: "(at_team a = team \<and> list_ex (\<lambda>m. at_message a = Some (ms_id m) \<and> ms_created m < t) (messages d))
      = (at_team a = team \<and> ?dead a)" if "a \<in> set (attachments d)" for a
  proof -
    have "ms_team m = at_team a" if "m \<in> set (messages d)" "at_message a = Some (ms_id m)" for m
      using assms that \<open>a \<in> set (attachments d)\<close> unfolding wf_files_def
      by (metis distinct_key_eq)
    then show ?thesis by (auto simp: list_ex_iff)
  qed
  have "freed_bytes team t d
      = sum_list (map at_size (filter (\<lambda>a. at_team a = team \<and> ?dead a) (attachments d)))"
    unfolding freed_bytes_def by (rule arg_cong [where f = "\<lambda>xs. sum_list (map at_size xs)"],
        rule filter_cong) (use gone in auto)
  moreover have "used_bytes team (pruned team t d)
      = sum_list (map at_size (filter (\<lambda>a. at_team a = team \<and> \<not> ?dead a) (attachments d)))"
    by (simp add: used_bytes_def keep conj_commute)
  ultimately show ?thesis
    using sum_filter_split [of at_size "\<lambda>a. at_team a = team" "attachments d" ?dead]
    by (simp add: used_bytes_def)
qed

text \<open>
  A retention run within the expressible window deletes exactly what is
  older than the window: no message of the team from before it is left, every younger one
  and every other team's is, the bytes reported as freed are the drop in the team's storage,
  and notes and tasks are untouched. A dry run reports the same counts and changes nothing.
\<close>

theorem prune_outcome:
  assumes "quiet c" and "1 \<le> days" and "days < 2 ^ 31" and "cutoff days (clock c) = Some t"
    and "wf_files (data c)"
  shows "\<exists>r d. prune team days False c = (Inr r, c\<lparr>data := d\<rparr>) \<and>
    prune team days True c = (Inr (r\<lparr>pp_dry_run := True\<rparr>), c) \<and>
    pp_freed_bytes r = used_bytes team (data c) - used_bytes team d \<and>
    map ms_id (messages d) = map ms_id (filter (\<lambda>m. ms_team m \<noteq> team \<or> t \<le> ms_created m) (messages (data c))) \<and>
    length (messages d) + pp_messages r = length (messages (data c)) \<and>
    note_table d = note_table (data c) \<and> tasks d = tasks (data c)"
proof -
  let ?d = "pruned team t (data c)" and ?r = "pruned_report team t False (data c)"
  have ids: "map ms_id (update_where P (\<lambda>m. m\<lparr>ms_reply_to := None\<rparr>) xs) = map ms_id xs" for P xs
    by (rule map_update_where) simp
  have "map ms_id (messages ?d)
      = map ms_id (filter (\<lambda>m. \<not> (ms_team m = team \<and> ms_created m < t)) (messages (data c)))"
    by (simp add: pruned_def delete_messages_def Let_def delete_frames ids)
  then have "map ms_id (messages ?d)
      = map ms_id (filter (\<lambda>m. ms_team m \<noteq> team \<or> t \<le> ms_created m) (messages (data c)))"
    by (simp add: not_less de_Morgan_conj)
  moreover have "length (messages ?d) + pp_messages ?r = length (messages (data c))"
    using sum_length_filter_compl [of "\<lambda>m. ms_team m = team \<and> ms_created m < t" "messages (data c)"]
    by (simp add: pruned_def delete_messages_def Let_def delete_frames pruned_report_def)
  moreover have "note_table ?d = note_table (data c)" "tasks ?d = tasks (data c)"
    by (simp_all add: pruned_def delete_messages_def delete_events_def delete_revisions_def Let_def)
  ultimately show ?thesis
    using prune_quiet [OF assms(1-4)] freed_is_difference [OF assms(5), of team t]
    by (intro exI [of _ ?r] exI [of _ ?d]) (simp add: pruned_report_def)
qed

theorem prune_outcome_witness:
  "\<exists>r d. prune 7 30 False (dm_conn\<lparr>clock := seconds 8640000\<rparr>)
      = (Inr r, dm_conn\<lparr>clock := seconds 8640000, data := d\<rparr>) \<and>
    pp_freed_bytes r = 2 - used_bytes 7 d \<and> messages d = []"
proof -
  let ?c = "dm_conn\<lparr>clock := seconds 8640000\<rparr>"
  have q: "quiet ?c" by (simp add: dm_conn_def demo_conn_def quiet_def)
  have t: "cutoff 30 (clock ?c) = Some (seconds 6048000)" by code_simp
  have w: "wf_files (data ?c)" by (simp add: wf_files_def dm_conn_def dm_row_def dm_file_def)
  have u: "used_bytes 7 (data ?c) = 2" by code_simp
  have e: "filter (\<lambda>m. ms_team m \<noteq> 7 \<or> seconds 6048000 \<le> ms_created m) (messages (data ?c)) = []"
    by code_simp
  show ?thesis
    using prune_outcome [OF q _ _ t w, of 7] u e by auto
qed

text \<open>
  A window the source accepts as expressible, three million days, still fails:
  the cut-off lies before the first timestamp of Postgres, so the call ends in the opaque
  database error instead of the message about the window.
\<close>

theorem prune_large_window:
  assumes "quiet c" and "0 \<le> clock c" and "clock c \<le> seconds 4102444800"
  shows "prune team 3000000 dry c = (Inl Db, c)"
proof -
  have "cutoff 3000000 (clock c) = None"
    using assms(2,3) by (simp add: cutoff_def TIMESTAMP_MIN_def seconds_def)
  with assms(1) show ?thesis
    by (simp add: prune_def transaction_quiet bind_quiet at_cutoff_def sql_quiet)
qed

theorem prune_large_window_witness:
  "prune 7 3000000 False demo_conn = (Inl Db, demo_conn)"
  by (rule prune_large_window) (simp_all add: demo_conn_def seconds_def quiet_def)

end
