(* ===== verification/RateLimit.thy ===== *)
theory RateLimit
  imports Complex_Main Prelude
begin

text \<open>
  \<open>ratelimit.rs\<close>: a token bucket per presented credential. Time is in nanoseconds.

  The source computes with \<open>f64\<close>. The model computes with rationals and passes every
  arithmetic result through a rounding function \<open>rnd\<close>; \<open>rounding\<close> says what is used of
  it: it is monotone, exact on the numbers that matter (0, 1, 60 and the capacity) and its
  relative error is at most \<open>e\<close>. The identity is one such function, with \<open>e = 0\<close>.
\<close>

subsection \<open>State\<close>

definition IDLE_EVICTION :: int where
  "IDLE_EVICTION = 600 * 1000000000"

definition SWEEP_EVERY :: nat where
  "SWEEP_EVERY = 512"

definition MAX_TRACKED :: nat where
  "MAX_TRACKED = 10000"

record bucket =
  bk_tokens :: rat
  bk_last :: int

record limiter =
  buckets :: "(string \<times> bucket) list"
  since_sweep :: nat
  refill_per_sec :: rat
  burst :: rat

definition new_limiter :: "(rat \<Rightarrow> rat) \<Rightarrow> nat \<Rightarrow> limiter option" where
  "new_limiter rnd per_minute =
     (if per_minute = 0 then None
      else Some \<lparr> buckets = [], since_sweep = 0,
                  refill_per_sec = rnd (of_nat per_minute / 60),
                  burst = max (rnd (of_nat per_minute / 10)) 10 \<rparr>)"

subsection \<open>One request\<close>

definition since :: "int \<Rightarrow> int \<Rightarrow> int" where
  "since now earlier = max 0 (now - earlier)"

definition evict :: "int \<Rightarrow> (string \<times> bucket) list \<Rightarrow> (string \<times> bucket) list" where
  "evict now bs = filter (\<lambda>(k, b). since now (bk_last b) < IDLE_EVICTION) bs"

definition sweep :: "int \<Rightarrow> limiter \<Rightarrow> limiter" where
  "sweep now l =
     (if SWEEP_EVERY \<le> since_sweep l + 1
      then l\<lparr>since_sweep := 0, buckets := evict now (buckets l)\<rparr>
      else l\<lparr>since_sweep := since_sweep l + 1\<rparr>)"

text \<open>The bucket of a key, made if there is room; \<open>None\<close> at the ceiling.\<close>

definition lookup_bucket ::
  "int \<Rightarrow> string \<Rightarrow> limiter \<Rightarrow> bucket option \<times> (string \<times> bucket) list" where
  "lookup_bucket now key l =
     (case map_of (buckets l) key of
        Some b \<Rightarrow> (Some b, buckets l)
      | None \<Rightarrow>
          let bs = (if MAX_TRACKED \<le> length (buckets l) then evict now (buckets l) else buckets l)
          in if MAX_TRACKED \<le> length bs then (None, bs)
             else (let b = \<lparr> bk_tokens = burst l, bk_last = now \<rparr> in (Some b, bs @ [(key, b)])))"

definition refilled :: "(rat \<Rightarrow> rat) \<Rightarrow> rat \<Rightarrow> rat \<Rightarrow> int \<Rightarrow> bucket \<Rightarrow> rat" where
  "refilled rnd refill cap now b =
     min (rnd (bk_tokens b + rnd (rnd (of_int (since now (bk_last b)) / 1000000000) * refill))) cap"

definition set_bucket :: "string \<Rightarrow> bucket \<Rightarrow> (string \<times> bucket) list \<Rightarrow> (string \<times> bucket) list" where
  "set_bucket key b bs = map (\<lambda>(k, c). (k, if k = key then b else c)) bs"

text \<open>\<open>None\<close>: the request passes. \<open>Some s\<close>: rejected, retry after \<open>s\<close> seconds.\<close>

definition check :: "(rat \<Rightarrow> rat) \<Rightarrow> int \<Rightarrow> string \<Rightarrow> limiter \<Rightarrow> nat option \<times> limiter" where
  "check rnd now key l0 =
     (let l = sweep now l0
      in case lookup_bucket now key l of
           (None, bs) \<Rightarrow> (Some 60, l\<lparr>buckets := bs\<rparr>)
         | (Some b, bs) \<Rightarrow>
             let t = refilled rnd (refill_per_sec l) (burst l) now b
             in if 1 \<le> t
                then (None, l\<lparr>buckets := set_bucket key \<lparr> bk_tokens = rnd (t - 1), bk_last = now \<rparr> bs\<rparr>)
                else (Some (nat (max (\<lceil>rnd (rnd (1 - t) / refill_per_sec l)\<rceil>) 1)),
                      l\<lparr>buckets := set_bucket key \<lparr> bk_tokens = t, bk_last = now \<rparr> bs\<rparr>))"

subsection \<open>Rounding\<close>

definition rounding :: "(rat \<Rightarrow> rat) \<Rightarrow> rat \<Rightarrow> bool" where
  "rounding rnd e \<longleftrightarrow> 0 \<le> e \<and> e \<le> 1 / 1000 \<and> mono rnd \<and> rnd 0 = 0 \<and> rnd 1 = 1 \<and> rnd 10 = 10 \<and>
     (\<forall>q. rnd (rnd q) = rnd q) \<and> (\<forall>q \<ge> 0. (1 - e) * q \<le> rnd q \<and> rnd q \<le> (1 + e) * q)"

lemma rounding_id: "rounding id 0"
  by (auto simp: rounding_def mono_def)

lemma rounding_mono: "rounding rnd e \<Longrightarrow> p \<le> q \<Longrightarrow> rnd p \<le> rnd q"
  by (simp add: rounding_def monoD)

lemma rounding_low: "rounding rnd e \<Longrightarrow> 0 \<le> q \<Longrightarrow> (1 - e) * q \<le> rnd q"
  by (simp add: rounding_def)

lemma rounding_high: "rounding rnd e \<Longrightarrow> 0 \<le> q \<Longrightarrow> rnd q \<le> (1 + e) * q"
  by (simp add: rounding_def)

lemma rounding_nonneg: "rounding rnd e \<Longrightarrow> 0 \<le> q \<Longrightarrow> 0 \<le> rnd q"
  using rounding_mono [of rnd e 0 q] by (simp add: rounding_def)

subsection \<open>The buckets stay within bounds\<close>

definition bucket_ok :: "limiter \<Rightarrow> bucket \<Rightarrow> bool" where
  "bucket_ok l b \<longleftrightarrow> 0 \<le> bk_tokens b \<and> bk_tokens b \<le> burst l"

definition limiter_ok :: "(rat \<Rightarrow> rat) \<Rightarrow> limiter \<Rightarrow> bool" where
  "limiter_ok rnd l \<longleftrightarrow> 0 < refill_per_sec l \<and> 10 \<le> burst l \<and> rnd (burst l) = burst l \<and>
     length (buckets l) \<le> MAX_TRACKED \<and> distinct (map fst (buckets l)) \<and>
     (\<forall>(k, b) \<in> set (buckets l). bucket_ok l b)"

lemma new_limiter_ok:
  assumes "rounding rnd e" and "new_limiter rnd per_minute = Some l"
  shows "limiter_ok rnd l"
proof -
  from assms(2) have pm: "1 \<le> per_minute" by (cases "per_minute = 0") (auto simp: new_limiter_def)
  have "0 < (1 - e) * (of_nat per_minute / 60)"
    using assms(1) pm by (intro mult_pos_pos) (auto simp: rounding_def)
  also have "\<dots> \<le> rnd (of_nat per_minute / 60)"
    using assms(1) by (intro rounding_low) auto
  finally show ?thesis
    using assms pm by (auto simp: new_limiter_def limiter_ok_def rounding_def max_def split: if_splits)
qed

lemma set_evict: "set (evict now bs) \<subseteq> set bs"
  by (auto simp: evict_def)

lemma length_evict: "length (evict now bs) \<le> length bs"
  by (simp add: evict_def)

lemma distinct_evict: "distinct (map fst bs) \<Longrightarrow> distinct (map fst (evict now bs))"
  by (simp add: evict_def distinct_map_filter)

lemma sweep_frame [simp]:
  "refill_per_sec (sweep now l) = refill_per_sec l" "burst (sweep now l) = burst l"
  by (simp_all add: sweep_def)

lemma buckets_sweep: "buckets (sweep now l) = buckets l \<or> buckets (sweep now l) = evict now (buckets l)"
  by (simp add: sweep_def)

lemma sweep_ok: "limiter_ok rnd l \<Longrightarrow> limiter_ok rnd (sweep now l)"
  using buckets_sweep [of now l] set_evict [of now "buckets l"] length_evict [of now "buckets l"]
    distinct_evict [of "buckets l" now]
  by (fastforce simp: limiter_ok_def bucket_ok_def)

lemma lookup_bucket_ok:
  assumes "limiter_ok rnd l" and "lookup_bucket now key l = (r, bs)"
  shows "limiter_ok rnd (l\<lparr>buckets := bs\<rparr>) \<and> (\<forall>b. r = Some b \<longrightarrow> bucket_ok l b)"
proof (cases "map_of (buckets l) key")
  case (Some b)
  with assms show ?thesis
    by (auto simp: lookup_bucket_def limiter_ok_def dest!: map_of_SomeD)
next
  case None
  let ?bs = "if MAX_TRACKED \<le> length (buckets l) then evict now (buckets l) else buckets l"
  have sub: "set ?bs \<subseteq> set (buckets l)" using set_evict by auto
  have bs: "length ?bs \<le> MAX_TRACKED" "distinct (map fst ?bs)"
    using assms(1) length_evict [of now "buckets l"] distinct_evict [of "buckets l" now]
    by (auto simp: limiter_ok_def)
  have fresh: "key \<notin> fst ` set ?bs"
    using None sub by (auto simp: map_of_eq_None_iff)
  show ?thesis
  proof (cases "MAX_TRACKED \<le> length ?bs")
    case True
    with None assms(2) have "r = None" "bs = ?bs" by (auto simp: lookup_bucket_def Let_def)
    with assms(1) bs sub show ?thesis by (auto simp: limiter_ok_def bucket_ok_def)
  next
    case False
    with None assms(2) have r: "r = Some \<lparr> bk_tokens = burst l, bk_last = now \<rparr>"
      "bs = ?bs @ [(key, \<lparr> bk_tokens = burst l, bk_last = now \<rparr>)]"
      by (auto simp: lookup_bucket_def Let_def)
    have new: "bucket_ok l \<lparr> bk_tokens = burst l, bk_last = now \<rparr>"
      using assms(1) by (auto simp: limiter_ok_def bucket_ok_def)
    have "length bs \<le> MAX_TRACKED" using r False by simp
    moreover have "distinct (map fst bs)" using r bs(2) fresh by simp
    moreover have "\<forall>(k, b) \<in> set bs. bucket_ok l b"
      using r sub new assms(1) by (auto simp: limiter_ok_def)
    ultimately show ?thesis
      using assms(1) new r by (auto simp: limiter_ok_def bucket_ok_def)
  qed
qed

lemma set_bucket_ok:
  assumes "limiter_ok rnd (l\<lparr>buckets := bs\<rparr>)" and "bucket_ok l b"
  shows "limiter_ok rnd (l\<lparr>buckets := set_bucket key b bs\<rparr>)"
proof -
  have keys: "map fst (set_bucket key b bs) = map fst bs"
    by (induction bs) (auto simp: set_bucket_def)
  have "\<forall>(k, c) \<in> set (set_bucket key b bs). bucket_ok l c"
    using assms by (auto simp: limiter_ok_def set_bucket_def bucket_ok_def)
  moreover have "length (set_bucket key b bs) = length bs" by (simp add: set_bucket_def)
  ultimately show ?thesis
    using assms(1) keys by (simp add: limiter_ok_def bucket_ok_def)
qed

lemma refilled_bounds:
  assumes "rounding rnd e" and "limiter_ok rnd l" and "bucket_ok l b"
  shows "0 \<le> refilled rnd (refill_per_sec l) (burst l) now b"
    "refilled rnd (refill_per_sec l) (burst l) now b \<le> burst l"
proof -
  note pos = rounding_nonneg [OF assms(1)]
  have "0 \<le> rnd (rnd (of_int (since now (bk_last b)) / 1000000000) * refill_per_sec l)"
    using assms(2) by (intro pos mult_nonneg_nonneg) (auto simp: limiter_ok_def since_def)
  then have "0 \<le> bk_tokens b + rnd (rnd (of_int (since now (bk_last b)) / 1000000000) * refill_per_sec l)"
    using assms(3) by (simp add: bucket_ok_def)
  then show "0 \<le> refilled rnd (refill_per_sec l) (burst l) now b"
    using pos assms(2) by (simp add: refilled_def limiter_ok_def)
qed (simp add: refilled_def)

lemma spend_bounds:
  assumes "rounding rnd e" and "limiter_ok rnd l" and "1 \<le> t" and "t \<le> burst l"
  shows "0 \<le> rnd (t - 1) \<and> rnd (t - 1) \<le> burst l"
proof -
  have "rnd 0 \<le> rnd (t - 1)" and "rnd (t - 1) \<le> rnd (burst l)"
    using assms by (auto intro: rounding_mono)
  with assms(1,2) show ?thesis by (simp add: rounding_def limiter_ok_def)
qed

lemma check_cases:
  assumes "check rnd now key l0 = (r, l')"
  obtains (full) bs where "lookup_bucket now key (sweep now l0) = (None, bs)" "r = Some 60"
      "l' = (sweep now l0)\<lparr>buckets := bs\<rparr>"
  | (pass) b bs t where "lookup_bucket now key (sweep now l0) = (Some b, bs)"
      "t = refilled rnd (refill_per_sec l0) (burst l0) now b" "1 \<le> t" "r = None"
      "l' = (sweep now l0)\<lparr>buckets := set_bucket key \<lparr> bk_tokens = rnd (t - 1), bk_last = now \<rparr> bs\<rparr>"
  | (reject) b bs t where "lookup_bucket now key (sweep now l0) = (Some b, bs)"
      "t = refilled rnd (refill_per_sec l0) (burst l0) now b" "t < 1"
      "r = Some (nat (max (\<lceil>rnd (rnd (1 - t) / refill_per_sec l0)\<rceil>) 1))"
      "l' = (sweep now l0)\<lparr>buckets := set_bucket key \<lparr> bk_tokens = t, bk_last = now \<rparr> bs\<rparr>"
proof (cases "lookup_bucket now key (sweep now l0)")
  case (Pair ob bs)
  show thesis
  proof (cases ob)
    case None
    with Pair assms show thesis by (intro full) (auto simp: check_def Let_def)
  next
    case (Some b)
    let ?t = "refilled rnd (refill_per_sec l0) (burst l0) now b"
    show thesis
    proof (cases "1 \<le> ?t")
      case True
      with Pair Some assms show thesis by (intro pass) (auto simp: check_def Let_def)
    next
      case False
      with Pair Some assms show thesis by (intro reject) (auto simp: check_def Let_def)
    qed
  qed
qed

lemma check_ok:
  assumes "rounding rnd e" and "limiter_ok rnd l" and "check rnd now key l = (r, l')"
  shows "limiter_ok rnd l'"
  using assms(3)
proof (cases rule: check_cases)
  case (full bs)
  then show ?thesis using lookup_bucket_ok [OF sweep_ok [OF assms(2)]] by auto
next
  case (pass b bs t)
  note lk = lookup_bucket_ok [OF sweep_ok [OF assms(2)] pass(1)]
  then have b: "bucket_ok l b" by (auto simp: bucket_ok_def)
  have "t \<le> burst l" using refilled_bounds(2) [OF assms(1,2) b] pass(2) by simp
  with spend_bounds [OF assms(1,2) pass(3)] lk pass(5) show ?thesis
    by (auto intro!: set_bucket_ok simp: bucket_ok_def)
next
  case (reject b bs t)
  note lk = lookup_bucket_ok [OF sweep_ok [OF assms(2)] reject(1)]
  then have b: "bucket_ok l b" by (auto simp: bucket_ok_def)
  with refilled_bounds [OF assms(1,2) b] lk reject show ?thesis
    by (auto intro!: set_bucket_ok simp: bucket_ok_def)
qed

subsection \<open>How much gets through\<close>

fun admitted :: "(rat \<Rightarrow> rat) \<Rightarrow> string \<Rightarrow> (int \<times> string) list \<Rightarrow> limiter \<Rightarrow> nat" where
  "admitted rnd k [] l = 0"
| "admitted rnd k ((now, key) # rs) l =
     (if key = k \<and> fst (check rnd now key l) = None then 1 else 0)
       + admitted rnd k rs (snd (check rnd now key l))"

definition gain :: "rat \<Rightarrow> limiter \<Rightarrow> int \<Rightarrow> rat" where
  "gain e l ns = (1 + e) ^ 3 * refill_per_sec l * (of_int ns / 1000000000)"

text \<open>
  The potential of a key: what its bucket holds and may have gained since; a key without a
  bucket can be given a full one.
\<close>

definition potential :: "rat \<Rightarrow> limiter \<Rightarrow> string \<Rightarrow> int \<Rightarrow> (string \<times> bucket) list \<Rightarrow> rat" where
  "potential e l k now bs = (case map_of bs k of
       None \<Rightarrow> burst l
     | Some b \<Rightarrow> bk_tokens b + gain e l (now - bk_last b))"

definition past :: "int \<Rightarrow> (string \<times> bucket) list \<Rightarrow> bool" where
  "past now bs \<longleftrightarrow> (\<forall>(k, b) \<in> set bs. bk_last b \<le> now)"

text \<open>Ten minutes refill any bucket, so dropping an idle one gives nothing away.\<close>

definition rate_ok :: "rat \<Rightarrow> limiter \<Rightarrow> bool" where
  "rate_ok e l \<longleftrightarrow> burst l \<le> gain e l IDLE_EVICTION"

lemma new_limiter_rate:
  assumes r: "rounding rnd e" and "new_limiter rnd per_minute = Some l"
  shows "rate_ok e l"
proof -
  let ?p = "of_nat per_minute :: rat"
  from assms(2) have pm: "1 \<le> per_minute" by (cases "per_minute = 0") (auto simp: new_limiter_def)
  have e: "0 \<le> e" "e \<le> 1 / 1000" using r by (auto simp: rounding_def)
  have "0 \<le> e * (1 - e - e * e)"
    using e mult_mono [of e "1 / 1000" e "1 / 1000"] by (intro mult_nonneg_nonneg) auto
  then have one: "1 \<le> (1 + e) ^ 2 * (1 - e)" by (simp add: power2_eq_square algebra_simps)
  have "(1 + e) * (10 * ?p) * 1 \<le> (1 + e) * (10 * ?p) * ((1 + e) ^ 2 * (1 - e))"
    using one e by (intro mult_left_mono) auto
  also have "\<dots> = (1 + e) ^ 3 * ((1 - e) * (?p / 60)) * 600"
    by (simp add: power2_eq_square power3_eq_cube)
  also have "\<dots> \<le> (1 + e) ^ 3 * rnd (?p / 60) * 600"
    using e rounding_low [OF r, of "?p / 60"] by (intro mult_right_mono mult_left_mono) auto
  also have "\<dots> = gain e l IDLE_EVICTION"
    using assms(2) pm by (auto simp: gain_def new_limiter_def IDLE_EVICTION_def)
  finally have g: "(1 + e) * (10 * ?p) \<le> gain e l IDLE_EVICTION" by simp
  have p1: "1 \<le> ?p" using pm by simp
  have "rnd (?p / 10) \<le> (1 + e) * (?p / 10)" using p1 by (intro rounding_high [OF r]) auto
  also have "\<dots> \<le> (1 + e) * (10 * ?p)" using e p1 by (intro mult_left_mono) auto
  finally have "rnd (?p / 10) \<le> gain e l IDLE_EVICTION" using g by linarith
  moreover have "1 * 10 \<le> (1 + e) * (10 * ?p)" using e p1 by (intro mult_mono) auto
  then have "10 \<le> gain e l IDLE_EVICTION" using g by linarith
  ultimately show ?thesis
    using assms(2) pm by (auto simp: rate_ok_def new_limiter_def gain_def)
qed

lemma gain_mono:
  "0 \<le> e \<Longrightarrow> 0 < refill_per_sec l \<Longrightarrow> a \<le> b \<Longrightarrow> gain e l a \<le> gain e l b"
  by (auto simp: gain_def intro!: mult_left_mono divide_right_mono)

lemma gain_nonneg: "0 \<le> e \<Longrightarrow> 0 < refill_per_sec l \<Longrightarrow> 0 \<le> a \<Longrightarrow> 0 \<le> gain e l a"
  by (auto simp: gain_def)

lemma gain_add: "gain e l (a + b) = gain e l a + gain e l b"
  by (simp add: gain_def field_simps)

lemma map_of_evict:
  "distinct (map fst bs) \<Longrightarrow> map_of (evict now bs) k =
     (case map_of bs k of None \<Rightarrow> None
      | Some b \<Rightarrow> if since now (bk_last b) < IDLE_EVICTION then Some b else None)"
proof (induction bs)
  case (Cons p bs)
  have "k \<notin> fst ` set bs \<Longrightarrow> map_of (evict now bs) k = None" for k
    using set_evict [of now bs] by (auto simp: map_of_eq_None_iff)
  with Cons show ?case by (cases p) (auto simp: evict_def)
qed (simp add: evict_def)

lemma potential_evict:
  assumes "0 \<le> e" and "limiter_ok rnd (l\<lparr>buckets := bs\<rparr>)" and "rate_ok e l"
  shows "potential e l k now (evict now bs) \<le> potential e l k now bs"
proof (cases "map_of bs k")
  case None
  with assms(2) show ?thesis by (simp add: potential_def map_of_evict limiter_ok_def)
next
  case (Some b)
  then have ok: "0 \<le> bk_tokens b"
    using assms(2) by (auto simp: limiter_ok_def bucket_ok_def dest!: map_of_SomeD)
  have "burst l \<le> bk_tokens b + gain e l (now - bk_last b)"
    if "\<not> since now (bk_last b) < IDLE_EVICTION"
  proof -
    have "IDLE_EVICTION \<le> now - bk_last b" using that by (auto simp: since_def IDLE_EVICTION_def)
    then have "gain e l IDLE_EVICTION \<le> gain e l (now - bk_last b)"
      using assms(1,2) by (intro gain_mono) (auto simp: limiter_ok_def)
    with assms(3) ok show ?thesis by (simp add: rate_ok_def)
  qed
  with Some assms(2) show ?thesis by (simp add: potential_def map_of_evict limiter_ok_def)
qed

lemma potential_lookup:
  assumes "0 \<le> e" and "limiter_ok rnd l" and "rate_ok e l"
    and "lookup_bucket now key l = (r, bs)"
  shows "potential e l k now bs \<le> potential e l k now (buckets l) \<and>
    (\<forall>b. r = Some b \<longrightarrow> map_of bs key = Some b)"
proof (cases "map_of (buckets l) key")
  case (Some b)
  with assms(4) show ?thesis by (auto simp: lookup_bucket_def)
next
  case None
  let ?bs = "if MAX_TRACKED \<le> length (buckets l) then evict now (buckets l) else buckets l"
  have ev: "potential e l k now ?bs \<le> potential e l k now (buckets l)"
    using potential_evict [where e = e and rnd = rnd and l = l and bs = "buckets l" and k = k and now = now]
      assms by simp
  have new: "map_of ?bs key = None"
    using None assms(2) by (simp add: map_of_evict limiter_ok_def)
  have "map_of (?bs @ [(key, b)]) k = (if k = key then Some b else map_of ?bs k)" for b k
    using new by (auto simp: map_add_def split: option.splits)
  then have "potential e l k now (?bs @ [(key, \<lparr> bk_tokens = burst l, bk_last = now \<rparr>)])
      = potential e l k now ?bs"
    using new by (auto simp: potential_def gain_def)
  with ev new assms(4) None show ?thesis
    by (auto simp: lookup_bucket_def Let_def map_add_def split: if_splits option.splits)
qed

lemma map_of_set_bucket:
  "map_of (set_bucket key b bs) k =
     (if k = key \<and> map_of bs k \<noteq> None then Some b else map_of bs k)"
  by (induction bs) (auto simp: set_bucket_def)

lemma refilled_gain:
  assumes r: "rounding rnd e" and ok: "limiter_ok rnd l" and b: "bucket_ok l b"
    and past: "bk_last b \<le> now"
  shows "refilled rnd (refill_per_sec l) (burst l) now b
    \<le> bk_tokens b + e * burst l + gain e l (now - bk_last b)"
proof -
  let ?x = "of_int (now - bk_last b) / 1000000000 :: rat"
  let ?R = "refill_per_sec l"
  have e: "0 \<le> e" using r by (simp add: rounding_def)
  have x: "0 \<le> ?x" and R: "0 < ?R" and t: "0 \<le> bk_tokens b" "bk_tokens b \<le> burst l"
    using past ok b by (auto simp: limiter_ok_def bucket_ok_def)
  have "rnd ?x * ?R \<le> (1 + e) * ?x * ?R"
    using rounding_high [OF r x] R by (intro mult_right_mono) auto
  moreover have "0 \<le> rnd ?x * ?R" using rounding_nonneg [OF r x] R by simp
  ultimately have "rnd (rnd ?x * ?R) \<le> (1 + e) * ((1 + e) * ?x * ?R)"
    using rounding_high [OF r, of "rnd ?x * ?R"] e
    by (meson add_nonneg_nonneg mult_left_mono order_trans zero_le_one)
  moreover have r0: "0 \<le> rnd (rnd ?x * ?R)"
    using rounding_nonneg [OF r] rounding_nonneg [OF r x] R by simp
  ultimately have "(1 + e) * (bk_tokens b + rnd (rnd ?x * ?R))
      \<le> (1 + e) * (bk_tokens b + (1 + e) * ((1 + e) * ?x * ?R))"
    using e by (intro mult_left_mono) auto
  also have "\<dots> = bk_tokens b + e * bk_tokens b + gain e l (now - bk_last b)"
    by (simp add: gain_def power3_eq_cube algebra_simps)
  also have "\<dots> \<le> bk_tokens b + e * burst l + gain e l (now - bk_last b)"
    using e t by (simp add: mult_left_mono)
  finally have "(1 + e) * (bk_tokens b + rnd (rnd ?x * ?R))
      \<le> bk_tokens b + e * burst l + gain e l (now - bk_last b)" .
  moreover have "rnd (bk_tokens b + rnd (rnd ?x * ?R)) \<le> (1 + e) * (bk_tokens b + rnd (rnd ?x * ?R))"
    using t r0 by (intro rounding_high [OF r]) simp
  ultimately show ?thesis using past by (simp add: refilled_def since_def max_def)
qed

lemma potential_sweep:
  assumes "0 \<le> e" and "limiter_ok rnd l" and "rate_ok e l"
  shows "potential e l k now (buckets (sweep now l)) \<le> potential e l k now (buckets l)"
  using buckets_sweep [of now l] assms
    potential_evict [where e = e and rnd = rnd and l = l and bs = "buckets l" and k = k and now = now]
  by auto

lemma potential_frame:
  "burst l' = burst l \<Longrightarrow> refill_per_sec l' = refill_per_sec l \<Longrightarrow>
     potential e l' k now bs = potential e l k now bs"
  by (simp add: potential_def gain_def split: option.splits)

lemma rate_frame:
  "burst l' = burst l \<Longrightarrow> refill_per_sec l' = refill_per_sec l \<Longrightarrow> rate_ok e l' = rate_ok e l"
  by (simp add: rate_ok_def gain_def)

lemma past_lookup:
  assumes "past now (buckets l)" and "lookup_bucket now key l = (r, bs)"
  shows "past now bs \<and> (\<forall>b. r = Some b \<longrightarrow> bk_last b \<le> now)"
  using assms set_evict [of now "buckets l"]
  by (fastforce simp: past_def lookup_bucket_def Let_def dest!: map_of_SomeD
      split: option.splits if_splits)

lemma past_sweep: "past now (buckets l) \<Longrightarrow> past now (buckets (sweep now l))"
  using buckets_sweep [of now l] set_evict [of now "buckets l"] by (auto simp: past_def)

lemma past_set_bucket: "past now bs \<Longrightarrow> bk_last b = now \<Longrightarrow> past now (set_bucket key b bs)"
  by (auto simp: past_def set_bucket_def)

lemma potential_set_bucket:
  assumes "map_of bs key = Some b" and "bk_last c = now"
    and "key = k \<Longrightarrow> a + bk_tokens c \<le> bk_tokens b + gain e l (now - bk_last b) + s" and "0 \<le> s"
  shows "(if key = k then a else 0) + potential e l k now (set_bucket key c bs)
    \<le> potential e l k now bs + s"
  using assms by (auto simp: potential_def map_of_set_bucket gain_def split: option.splits)

lemma check_step:
  assumes r: "rounding rnd e" and ok: "limiter_ok rnd l" and rate: "rate_ok e l"
    and past: "past now (buckets l)" and chk: "check rnd now key l = (res, l')"
  shows "burst l' = burst l" "refill_per_sec l' = refill_per_sec l" "past now (buckets l')"
    and "(if key = k \<and> res = None then 1 else 0) + potential e l k now (buckets l')
      \<le> potential e l k now (buckets l) + 2 * e * burst l"
proof -
  let ?s = "sweep now l"
  have e: "0 \<le> e" using r by (simp add: rounding_def)
  have s_ok: "limiter_ok rnd ?s" and s_past: "past now (buckets ?s)" and s_rate: "rate_ok e ?s"
    using sweep_ok [OF ok] past_sweep [OF past] rate rate_frame [of ?s l] by auto
  have slack: "0 \<le> e * burst l" using e ok by (auto simp: limiter_ok_def)
  have start: "potential e l k now bs \<le> potential e l k now (buckets l)"
    if "lookup_bucket now key ?s = (ob, bs)" for ob bs
  proof -
    have eq: "potential e ?s k now bs' = potential e l k now bs'" for bs'
      by (rule potential_frame) simp_all
    have "potential e l k now bs \<le> potential e l k now (buckets ?s)"
      using potential_lookup [OF e s_ok s_rate that, of k] by (simp add: eq)
    also have "\<dots> \<le> potential e l k now (buckets l)" by (rule potential_sweep [OF e ok rate])
    finally show ?thesis .
  qed
  have both: "potential e l k now (buckets l') + (if key = k \<and> res = None then 1 else 0)
      \<le> potential e l k now (buckets l) + 2 * (e * burst l) \<and>
      (burst l' = burst l \<and> refill_per_sec l' = refill_per_sec l \<and> past now (buckets l'))"
    using chk
  proof (cases rule: check_cases)
    case (full bs)
    with start [OF full(1)] slack past_lookup [OF s_past full(1)]
    show ?thesis
      by auto
  next
    case (pass b bs t)
    then have b: "bucket_ok l b" "map_of bs key = Some b" "bk_last b \<le> now" "past now bs"
      using lookup_bucket_ok [OF s_ok pass(1)] potential_lookup [OF e s_ok s_rate pass(1)]
        past_lookup [OF s_past pass(1)] by (auto simp: bucket_ok_def)
    have "rnd (t - 1) \<le> (1 + e) * (t - 1)" using pass(3) by (intro rounding_high [OF r]) auto
    also have "\<dots> \<le> t - 1 + e * burst l"
    proof -
      have "t - 1 \<le> burst l" using refilled_bounds(2) [OF r ok b(1), of now] pass(2) by linarith
      then have "e * (t - 1) \<le> e * burst l" using e by (rule mult_left_mono)
      then show ?thesis by (simp add: algebra_simps)
    qed
    finally have "1 + rnd (t - 1) \<le> bk_tokens b + gain e l (now - bk_last b) + 2 * (e * burst l)"
      using refilled_gain [OF r ok b(1,3)] pass(2) by simp
    then have "(if key = k then 1 else 0) + potential e l k now
        (set_bucket key \<lparr> bk_tokens = rnd (t - 1), bk_last = now \<rparr> bs)
        \<le> potential e l k now bs + 2 * (e * burst l)"
      using b(2) slack by (intro potential_set_bucket) auto
    with pass start [OF pass(1)] b(4) past_set_bucket [of now bs]
    show ?thesis
      by auto
  next
    case (reject b bs t)
    then have b: "bucket_ok l b" "map_of bs key = Some b" "bk_last b \<le> now" "past now bs"
      using lookup_bucket_ok [OF s_ok reject(1)] potential_lookup [OF e s_ok s_rate reject(1)]
        past_lookup [OF s_past reject(1)] by (auto simp: bucket_ok_def)
    have "0 + t \<le> bk_tokens b + gain e l (now - bk_last b) + 2 * (e * burst l)"
      using refilled_gain [OF r ok b(1,3)] reject(2) slack by simp
    then have "(if key = k then 0 else 0) + potential e l k now
        (set_bucket key \<lparr> bk_tokens = t, bk_last = now \<rparr> bs)
        \<le> potential e l k now bs + 2 * (e * burst l)"
      using b(2) slack by (intro potential_set_bucket) auto
    with reject start [OF reject(1)] b(4) past_set_bucket [of now bs]
    show ?thesis
      by auto
  qed
  show "burst l' = burst l" "refill_per_sec l' = refill_per_sec l" "past now (buckets l')"
    using both by auto
  show "(if key = k \<and> res = None then 1 else 0) + potential e l k now (buckets l')
      \<le> potential e l k now (buckets l) + 2 * e * burst l"
    using both by (simp add: mult.assoc)
qed

lemma admitted_potential:
  assumes r: "rounding rnd e"
    and "limiter_ok rnd l" and "rate_ok e l" and "past t0 (buckets l)"
    and "sorted (t0 # map fst rs)" and "\<forall>(t, key) \<in> set rs. t \<le> t1" and "t0 \<le> t1"
  shows "of_nat (admitted rnd k rs l) \<le> potential e l k t0 (buckets l)
    + 2 * e * burst l * of_nat (length rs) + gain e l (t1 - t0)"
  using assms(2-)
proof (induction rs arbitrary: l t0)
  case Nil
  have e: "0 \<le> e" using r by (simp add: rounding_def)
  have "0 \<le> gain e l (t1 - t0)" using e Nil by (intro gain_nonneg) (auto simp: limiter_ok_def)
  moreover have "0 \<le> potential e l k t0 (buckets l)"
    using e Nil by (auto simp: potential_def limiter_ok_def bucket_ok_def past_def
        intro!: add_nonneg_nonneg gain_nonneg dest!: map_of_SomeD split: option.splits)
  ultimately show ?case by simp
next
  case (Cons q rs)
  obtain now key where q: "q = (now, key)" by force
  obtain res l' where c: "check rnd now key l = (res, l')" by force
  have e: "0 \<le> e" using r by (simp add: rounding_def)
  have t: "t0 \<le> now" "now \<le> t1" "sorted (now # map fst rs)" using Cons.prems q by auto
  have past: "past now (buckets l)" using Cons.prems(3) t(1) by (auto simp: past_def)
  note step = check_step [OF r Cons.prems(1,2) past c]
  have ok': "limiter_ok rnd l'" by (rule check_ok [OF r Cons.prems(1) c])
  have rate': "rate_ok e l'" using rate_frame [OF step(1,2)] Cons.prems(2) by simp
  have IH: "of_nat (admitted rnd k rs l') \<le> potential e l' k now (buckets l')
      + 2 * e * burst l' * of_nat (length rs) + gain e l' (t1 - now)"
    by (rule Cons.IH [OF ok' rate' step(3) t(3)]) (use Cons.prems q t in auto)
  have g: "gain e l' (t1 - now) = gain e l (t1 - now)" using step(2) by (simp add: gain_def)
  have p': "potential e l' k now (buckets l') = potential e l k now (buckets l')"
    by (rule potential_frame [OF step(1,2)])
  have age: "potential e l k now (buckets l) \<le> potential e l k t0 (buckets l) + gain e l (now - t0)"
  proof (cases "map_of (buckets l) k")
    case None
    then show ?thesis
      using e t(1) Cons.prems(1) gain_nonneg [of e l "now - t0"]
      by (simp add: potential_def limiter_ok_def)
  next
    case (Some b)
    then show ?thesis
      using gain_add [of e l "now - t0" "t0 - bk_last b"] by (simp add: potential_def)
  qed
  have split: "gain e l (now - t0) + gain e l (t1 - now) = gain e l (t1 - t0)"
    using gain_add [of e l "now - t0" "t1 - now"] by simp
  have "of_nat (admitted rnd k (q # rs) l)
      = (if key = k \<and> res = None then 1 else 0) + (of_nat (admitted rnd k rs l') :: rat)"
    using q c by simp
  also have "\<dots> \<le> potential e l k t0 (buckets l) + 2 * e * burst l * (1 + of_nat (length rs))
      + gain e l (t1 - t0)"
    using IH step(4) [of k] age split step(1) unfolding g p' by (simp add: algebra_simps)
  finally show ?case by simp
qed

text \<open>
  C16 (bounds). From a fresh limiter, the requests of one credential that pass between two
  times number at most one burst plus the configured rate times the elapsed time, whatever
  the other credentials do and however often idle buckets are evicted; \<open>e\<close> is the rounding
  error of the floating-point arithmetic.
\<close>

theorem limiter_bounds_admission:
  assumes "rounding rnd e" and "new_limiter rnd per_minute = Some l"
    and "sorted (t0 # map fst rs)" and "\<forall>(t, key) \<in> set rs. t \<le> t1" and "t0 \<le> t1"
  shows "of_nat (admitted rnd k rs l) \<le> burst l + 2 * e * burst l * of_nat (length rs)
    + (1 + e) ^ 3 * refill_per_sec l * (of_int (t1 - t0) / 1000000000)"
proof -
  have "buckets l = []" using assms(2) by (auto simp: new_limiter_def split: if_splits)
  then show ?thesis
    using admitted_potential [OF assms(1) new_limiter_ok [OF assms(1,2)]
        new_limiter_rate [OF assms(1,2)] _ assms(3-5), of k]
    by (simp add: past_def potential_def gain_def)
qed

definition demo_limiter :: limiter where
  "demo_limiter = \<lparr> buckets = [], since_sweep = 0, refill_per_sec = 1, burst = 10 \<rparr>"

theorem limiter_bounds_admission_witness:
  "of_nat (admitted id ''k'' (replicate 12 (5, ''k'')) demo_limiter) \<le> (10 :: rat)"
proof -
  have "new_limiter id 60 = Some demo_limiter"
    by (simp add: new_limiter_def demo_limiter_def)
  moreover have "sorted ((5::int) # map fst (replicate 12 (5 :: int, ''k'')))"
    by (simp add: sorted_replicate)
  ultimately show ?thesis
    using limiter_bounds_admission [OF rounding_id, where per_minute = 60 and l = demo_limiter
        and ?t0.0 = 5 and ?t1.0 = 5 and rs = "replicate 12 (5, ''k'')" and k = "''k''"]
    by (simp add: demo_limiter_def)
qed

fun after_requests :: "(rat \<Rightarrow> rat) \<Rightarrow> (int \<times> string) list \<Rightarrow> limiter \<Rightarrow> limiter" where
  "after_requests rnd [] l = l"
| "after_requests rnd ((now, key) # rs) l = after_requests rnd rs (snd (check rnd now key l))"

lemma check_frame: "refill_per_sec (snd (check rnd now key l)) = refill_per_sec l"
proof (cases "check rnd now key l")
  case (Pair r l')
  have "refill_per_sec l' = refill_per_sec l" using Pair by (cases rule: check_cases) auto
  with Pair show ?thesis by simp
qed

lemma after_requests_ok:
  assumes "rounding rnd e" and "limiter_ok rnd l"
  shows "limiter_ok rnd (after_requests rnd rs l) \<and>
    refill_per_sec (after_requests rnd rs l) = refill_per_sec l"
  using assms(2)
proof (induction rs arbitrary: l)
  case (Cons q rs)
  obtain now key where q: "q = (now, key)" by force
  have "limiter_ok rnd (snd (check rnd now key l))"
    using check_ok [OF assms(1) Cons.prems] by (metis prod.collapse)
  with Cons.IH q check_frame show ?case by simp
qed simp

lemma retry_bound:
  assumes r: "rounding rnd e" and R: "(1 - e) / 60 \<le> R" and t: "0 \<le> t"
  shows "\<lceil>rnd (rnd (1 - t) / R)\<rceil> \<le> 61"
proof -
  have e: "0 \<le> e" "e \<le> 1 / 1000" using r by (auto simp: rounding_def)
  have R0: "0 < R" using R e by (auto intro: less_le_trans [of _ "(1 - e) / 60"])
  have "rnd (1 - t) \<le> rnd 1" using t by (intro rounding_mono [OF r]) simp
  then have "rnd (1 - t) \<le> 1" using r by (simp add: rounding_def)
  then have "rnd (1 - t) / R \<le> 1 / R" using R0 by (intro divide_right_mono) auto
  then have "rnd (rnd (1 - t) / R) \<le> rnd (1 / R)" by (rule rounding_mono [OF r])
  also have "\<dots> \<le> (1 + e) * (1 / R)" using R0 by (intro rounding_high [OF r]) simp
  also have "\<dots> \<le> 61"
  proof -
    have "(1 + e) * 60 \<le> 61 * (1 - e)" using e by simp
    also have "\<dots> \<le> 61 * (60 * R)" using R by simp
    finally have "1 + e \<le> 61 * R" by simp
    with R0 show ?thesis by (simp add: divide_le_eq)
  qed
  finally show ?thesis by (simp add: ceiling_le_iff)
qed

text \<open>
  Whatever requests arrive, in any order of keys and times, the limiter tracks
  at most \<open>MAX_TRACKED\<close> callers, one bucket each, every bucket stays between empty and its
  capacity, and a rejected caller is told to wait between 1 and 61 seconds.
\<close>

theorem limiter_stays_bounded:
  assumes "rounding rnd e" and "new_limiter rnd per_minute = Some l0"
    and "check rnd now key (after_requests rnd rs l0) = (res, l)"
  shows "length (buckets l) \<le> MAX_TRACKED \<and> distinct (map fst (buckets l)) \<and>
    (\<forall>(k, b) \<in> set (buckets l). 0 \<le> bk_tokens b \<and> bk_tokens b \<le> burst l) \<and>
    (\<forall>s. res = Some s \<longrightarrow> 1 \<le> s \<and> s \<le> 61)"
proof -
  note r = assms(1)
  let ?l = "after_requests rnd rs l0"
  have ok: "limiter_ok rnd ?l" and fr: "refill_per_sec ?l = refill_per_sec l0"
    using after_requests_ok [OF r new_limiter_ok [OF r assms(2)]] by auto
  have pm: "1 \<le> per_minute" "refill_per_sec l0 = rnd (of_nat per_minute / 60)"
    using assms(2) by (cases "per_minute = 0", auto simp: new_limiter_def)+
  have "(1 - e) * (1 / 60) \<le> (1 - e) * (of_nat per_minute / 60)"
    using r pm by (intro mult_left_mono) (auto simp: rounding_def)
  also have "\<dots> \<le> rnd (of_nat per_minute / 60)" by (intro rounding_low [OF r]) simp
  finally have R: "(1 - e) / 60 \<le> refill_per_sec ?l" using pm fr by simp
  have "1 \<le> s \<and> s \<le> 61" if "res = Some s" for s
    using assms(3)
  proof (cases rule: check_cases)
    case (reject b bs t)
    have "bucket_ok (sweep now ?l) b" using lookup_bucket_ok [OF sweep_ok [OF ok] reject(1)] by simp
    then have "0 \<le> t"
      using refilled_bounds(1) [OF r ok, of b now] reject(2) by (simp add: bucket_ok_def)
    then have "\<lceil>rnd (rnd (1 - t) / refill_per_sec ?l)\<rceil> \<le> 61" by (rule retry_bound [OF r R])
    moreover have "s = nat (max \<lceil>rnd (rnd (1 - t) / refill_per_sec ?l)\<rceil> 1)"
      using reject(4) that by simp
    ultimately show ?thesis by linarith
  qed (use that in auto)
  with check_ok [OF r ok assms(3)] show ?thesis by (auto simp: limiter_ok_def bucket_ok_def)
qed

theorem limiter_stays_bounded_witness:
  "length (buckets (snd (check id 7 ''k'' (after_requests id [(5, ''k''), (6, ''j'')] demo_limiter))))
    \<le> MAX_TRACKED"
proof -
  have "new_limiter id 60 = Some demo_limiter"
    by (simp add: new_limiter_def demo_limiter_def)
  then show ?thesis
    using limiter_stays_bounded [OF rounding_id, where per_minute = 60 and ?l0.0 = demo_limiter
        and now = 7 and key = "''k''" and rs = "[(5, ''k''), (6, ''j'')]"
        and res = "fst (check id 7 ''k'' (after_requests id [(5, ''k''), (6, ''j'')] demo_limiter))"
        and l = "snd (check id 7 ''k'' (after_requests id [(5, ''k''), (6, ''j'')] demo_limiter))"]
    by simp
qed

end
