(* ===== verification/Auth.thy ===== *)
theory Auth
  imports Samples RateLimit
begin

text \<open>
  \<open>auth.rs\<close>: from the \<open>Authorization\<close> and \<open>X-Crew-Session\<close> headers to the caller's
  identity. The token decides which agent is speaking; the session label only partitions
  that agent's own state.
\<close>

subsection \<open>Session labels\<close>

definition TOKEN_PREFIX :: string where
  "TOKEN_PREFIX = ''acs_''"

definition SESSION_HEADER :: string where
  "SESSION_HEADER = ''x-crew-session''"

definition MAX_SESSION_BYTES :: nat where
  "MAX_SESSION_BYTES = 64"

definition template_char :: "char \<Rightarrow> bool" where
  "template_char c \<longleftrightarrow> c \<in> {CHR ''$'', CHR 0x7B, CHR 0x7D}"

definition normalize_session :: "string \<Rightarrow> session_why + string" where
  "normalize_session raw =
     (let label = lower (trim raw)
      in if label = [] then Inr []
         else if MAX_SESSION_BYTES < length label then Inl (SessionTooLong (length label))
         else if list_ex (\<lambda>c. \<not> is_ascii c) label then Inl SessionNotAscii
         else if list_ex is_control label then Inl SessionControl
         else if list_ex template_char label then Inl SessionTemplate
         else if CHR ''/'' \<in> set label then Inl SessionSlash
         else Inr label)"

text \<open>What a label looks like once accepted.\<close>

definition good_session :: "string \<Rightarrow> bool" where
  "good_session s \<longleftrightarrow> length s \<le> MAX_SESSION_BYTES \<and> lower s = s \<and> trim s = s \<and>
     (\<forall>c \<in> set s. is_ascii c \<and> \<not> is_control c \<and> \<not> template_char c \<and> c \<noteq> CHR ''/'')"

lemma good_session_checks:
  assumes "lower s = s" and "trim s = s"
  shows "good_session s \<longleftrightarrow>
     \<not> MAX_SESSION_BYTES < length s \<and> \<not> list_ex (\<lambda>c. \<not> is_ascii c) s \<and>
     \<not> list_ex is_control s \<and> \<not> list_ex template_char s \<and> CHR ''/'' \<notin> set s"
  using assms by (auto simp: good_session_def list_ex_iff not_less)

lemma normalize_session_Inr:
  "normalize_session raw = Inr s \<longleftrightarrow> s = lower (trim raw) \<and> good_session s"
proof -
  define label where "label = lower (trim raw)"
  have "good_session label \<longleftrightarrow>
     \<not> MAX_SESSION_BYTES < length label \<and> \<not> list_ex (\<lambda>c. \<not> is_ascii c) label \<and>
     \<not> list_ex is_control label \<and> \<not> list_ex template_char label \<and>
     CHR ''/'' \<notin> set label"
    by (rule good_session_checks) (simp_all add: label_def)
  then have "normalize_session raw = Inr s \<longleftrightarrow> s = label \<and> good_session label"
    unfolding normalize_session_def label_def [symmetric] Let_def
    by (cases "label = []") (simp_all only: if_splits, auto)
  then show ?thesis by (auto simp: label_def)
qed

lemma good_session_fixed: "good_session s \<Longrightarrow> normalize_session s = Inr s"
  by (simp add: normalize_session_Inr good_session_def)

lemma good_session_no_slash: "good_session s \<Longrightarrow> CHR ''/'' \<notin> set s"
  by (auto simp: good_session_def)

lemma good_session_Nil [simp]: "good_session []"
  by (simp add: good_session_def lower_def)

interpretation session_names: canonical_names normalize_session
  by standard (simp add: normalize_session_Inr good_session_def)

subsection \<open>Errors and their responses\<close>

datatype auth_error =
    Missing
  | InvalidToken
  | Disabled
  | Internal
  | Throttled nat
  | BadSession session_why

fun auth_status :: "auth_error \<Rightarrow> nat" where
  "auth_status Missing = 401"
| "auth_status InvalidToken = 401"
| "auth_status Disabled = 403"
| "auth_status Internal = 500"
| "auth_status (Throttled secs) = 429"
| "auth_status (BadSession why) = 400"

record auth_response =
  ar_status :: nat
  ar_challenge :: bool               \<comment> \<open>\<open>WWW-Authenticate: Bearer\<close>\<close>
  ar_retry_after :: "string option"

definition into_response :: "auth_error \<Rightarrow> auth_response" where
  "into_response e =
     \<lparr> ar_status = auth_status e,
       ar_challenge = (e = Missing \<or> e = InvalidToken),
       ar_retry_after = (case e of Throttled secs \<Rightarrow> Some (show_nat secs) | _ \<Rightarrow> None) \<rparr>"

subsection \<open>Headers\<close>

type_synonym headers = "(string \<times> string) list"

definition session_from_headers :: "externals \<Rightarrow> headers \<Rightarrow> auth_error + string" where
  "session_from_headers x hs = (case map_of hs SESSION_HEADER of
       None \<Rightarrow> Inr []
     | Some v \<Rightarrow> (case header_str x v of
           None \<Rightarrow> Inl (BadSession SessionNotAscii)
         | Some raw \<Rightarrow> (case normalize_session raw of
               Inl why \<Rightarrow> Inl (BadSession why)
             | Inr s \<Rightarrow> Inr s)))"

definition bearer_token :: "externals \<Rightarrow> headers \<Rightarrow> string option" where
  "bearer_token x hs =
     (let v = Option.bind (map_of hs ''authorization'') (header_str x);
          t = Option.bind v (\<lambda>s. or_keep (strip_prefix ''Bearer '' s) (strip_prefix ''bearer '' s))
      in non_empty (map_option trim t))"

subsection \<open>Tokens\<close>

definition generate_token :: "externals \<Rightarrow> string \<Rightarrow> string" where
  "generate_token x bytes = TOKEN_PREFIX @ hex_encode x bytes"

definition hash_token :: "externals \<Rightarrow> string \<Rightarrow> string" where
  "hash_token x raw = sha256 x (trim raw)"

definition token_prefix :: "string \<Rightarrow> string" where
  "token_prefix raw = take 12 raw"

record auth_row =
  au_token :: uuid
  au_agent :: uuid
  au_name :: string
  au_disabled :: bool
  au_team :: uuid
  au_slug :: string

definition select_token :: "string \<Rightarrow> db \<Rightarrow> auth_row option" where
  "select_token hash d =
     Option.bind (List.find (\<lambda>t. tk_hash t = hash \<and> tk_revoked t = None) (tokens d)) (\<lambda>t.
     Option.bind (List.find (\<lambda>a. ag_id a = tk_agent t) (agents d)) (\<lambda>a.
     Option.bind (List.find (\<lambda>tm. tm_id tm = ag_team a) (teams d)) (\<lambda>tm.
     Some \<lparr> au_token = tk_id t, au_agent = ag_id a, au_name = ag_name a,
            au_disabled = (ag_disabled a \<noteq> None), au_team = tm_id tm, au_slug = tm_slug tm \<rparr>)))"

definition touch_token :: "uuid \<Rightarrow> timestamp \<Rightarrow> db \<Rightarrow> unit \<times> db" where
  "touch_token i now d =
     ((), d\<lparr>tokens := update_where (\<lambda>t. tk_id t = i) (\<lambda>t. t\<lparr>tk_last_used := Some now\<rparr>) (tokens d)\<rparr>)"

definition resolve_token :: "externals \<Rightarrow> string \<Rightarrow> conn \<Rightarrow> (auth_error + auth_ctx) \<times> conn" where
  "resolve_token x raw c =
     (if \<not> starts_with TOKEN_PREFIX raw then (Inl InvalidToken, c)
      else (case query (\<lambda>now. select_token (hash_token x raw)) c of
          (Inl e, c1) \<Rightarrow> (Inl Internal, c1)
        | (Inr None, c1) \<Rightarrow> (Inl InvalidToken, c1)
        | (Inr (Some row), c1) \<Rightarrow>
            if au_disabled row then (Inl Disabled, c1)
            else (Inr \<lparr> agent_id = au_agent row, agent_name = au_name row, team_id = au_team row,
                        team_slug = au_slug row, session = [] \<rparr>,
                  snd (attempt (execute (touch_token (au_token row))) c1))))"

text \<open>
  \<open>require_bearer\<close> up to \<open>next.run\<close>: what is inserted into the request's extensions, with
  the state of the optional limiter. \<open>now\<close> is the monotonic clock of the limiter.
\<close>

definition charge ::
  "(rat \<Rightarrow> rat) \<Rightarrow> int \<Rightarrow> string \<Rightarrow> limiter option \<Rightarrow> nat option \<times> limiter option" where
  "charge rnd now key ml = (case ml of
       None \<Rightarrow> (None, None)
     | Some l \<Rightarrow> (let (r, l') = check rnd now key l in (r, Some l')))"

definition require_bearer ::
  "externals \<Rightarrow> (rat \<Rightarrow> rat) \<Rightarrow> int \<Rightarrow> headers \<Rightarrow> limiter option \<Rightarrow> conn
     \<Rightarrow> (auth_error + auth_ctx) \<times> limiter option \<times> conn" where
  "require_bearer x rnd now hs ml c = (case bearer_token x hs of
       None \<Rightarrow> (Inl Missing, ml, c)
     | Some raw \<Rightarrow> (case charge rnd now (hex_encode x (hash_token x raw)) ml of
           (Some secs, ml') \<Rightarrow> (Inl (Throttled secs), ml', c)
         | (None, ml') \<Rightarrow> (case session_from_headers x hs of
               Inl e \<Rightarrow> (Inl e, ml', c)
             | Inr s \<Rightarrow> (case resolve_token x raw c of
                   (Inl e, c') \<Rightarrow> (Inl e, ml', c')
                 | (Inr ctx, c') \<Rightarrow> (Inr (ctx\<lparr>session := s\<rparr>), ml', c')))))"

subsection \<open>Laws\<close>

lemma session_from_headers_good: "session_from_headers x hs = Inr s \<Longrightarrow> good_session s"
  by (auto simp: session_from_headers_def normalize_session_Inr split: option.splits sum.splits)

text \<open>The token grants the identity \<open>ctx\<close> in the database \<open>d\<close>.\<close>

definition token_grants :: "externals \<Rightarrow> string \<Rightarrow> db \<Rightarrow> auth_ctx \<Rightarrow> bool" where
  "token_grants x raw d ctx \<longleftrightarrow> (\<exists>t \<in> set (tokens d). \<exists>a \<in> set (agents d).
     tk_hash t = sha256 x (trim raw) \<and> tk_revoked t = None \<and>
     ag_id a = tk_agent t \<and> ag_disabled a = None \<and>
     agent_id ctx = ag_id a \<and> agent_name ctx = ag_name a \<and> team_id ctx = ag_team a)"

lemma resolve_token_sound:
  assumes "resolve_token x raw c = (Inr ctx, c')"
  obtains c1 where "next_tick c = (False, c1)" "token_grants x raw (data c1) ctx" "session ctx = []"
proof -
  obtain b c1 where nt: "next_tick c = (b, c1)" by force
  with assms obtain row where sel: "select_token (hash_token x raw) (data c1) = Some row"
    and row: "\<not> au_disabled row" "\<not> b"
      "ctx = \<lparr> agent_id = au_agent row, agent_name = au_name row, team_id = au_team row,
               team_slug = au_slug row, session = [] \<rparr>"
    by (auto simp: resolve_token_def query_def sql_def split: if_splits option.splits)
  from sel obtain t a tm where
    t: "List.find (\<lambda>t. tk_hash t = hash_token x raw \<and> tk_revoked t = None) (tokens (data c1)) = Some t"
    and a: "List.find (\<lambda>a. ag_id a = tk_agent t) (agents (data c1)) = Some a"
    and tm: "List.find (\<lambda>tm. tm_id tm = ag_team a) (teams (data c1)) = Some tm"
    and eq: "row = \<lparr> au_token = tk_id t, au_agent = ag_id a, au_name = ag_name a,
            au_disabled = (ag_disabled a \<noteq> None), au_team = tm_id tm, au_slug = tm_slug tm \<rparr>"
    by (auto simp: select_token_def bind_eq_Some_conv)
  have "token_grants x raw (data c1) ctx"
    unfolding token_grants_def
    using find_Some_set [OF t] find_Some_set [OF a] find_Some_set [OF tm] row eq
    by (intro bexI [of _ t] bexI [of _ a]) (auto simp: hash_token_def)
  with that nt row show ?thesis by auto
qed

lemma require_bearer_Inr:
  assumes "require_bearer x rnd now hs ml c = (Inr ctx, ml', c')"
  obtains raw s ctx0 where "bearer_token x hs = Some raw" "session_from_headers x hs = Inr s"
    "resolve_token x raw c = (Inr ctx0, c')" "ctx = ctx0\<lparr>session := s\<rparr>"
  using assms
  by (auto simp: require_bearer_def split: option.splits prod.splits sum.splits)

text \<open>
  Who gets in: a request is admitted only with a token whose hash is in the
  table unrevoked, of an agent that is not disabled; the identity is that agent and its
  team, and the session is a short lower-case ASCII label without a slash.
\<close>

theorem require_bearer_sound:
  assumes "require_bearer x rnd now hs ml c = (Inr ctx, ml', c')"
  shows "good_session (session ctx) \<and> (\<exists>raw c1. bearer_token x hs = Some raw \<and>
     next_tick c = (False, c1) \<and> token_grants x raw (data c1) ctx)"
  using assms
proof (rule require_bearer_Inr)
  fix raw s ctx0
  assume r: "bearer_token x hs = Some raw" "session_from_headers x hs = Inr s"
    "resolve_token x raw c = (Inr ctx0, c')" "ctx = ctx0\<lparr>session := s\<rparr>"
  obtain c1 where "next_tick c = (False, c1)" "token_grants x raw (data c1) ctx0"
    using r(3) by (rule resolve_token_sound)
  with r session_from_headers_good [OF r(2)] show ?thesis by (auto simp: token_grants_def)
qed

definition demo_token :: token_row where
  "demo_token = \<lparr> tk_id = 31, tk_agent = 1, tk_hash = sha256 demo_ext ''acs_1'', tk_prefix = ''acs_1'',
     tk_label = None, tk_created = 0, tk_last_used = None, tk_revoked = None \<rparr>"

definition auth_conn :: conn where
  "auth_conn = demo_conn\<lparr>data := demo_db\<lparr>tokens := [demo_token]\<rparr>\<rparr>"

definition demo_headers :: headers where
  "demo_headers = [(''authorization'', ''Bearer acs_1''), (SESSION_HEADER, '' Web '')]"

lemma demo_resolves: "fst (resolve_token demo_ext ''acs_1'' auth_conn) = Inr ana"
proof -
  have "select_token (hash_token demo_ext ''acs_1'') (data auth_conn) =
      Some \<lparr> au_token = 31, au_agent = 1, au_name = ''ana'', au_disabled = False, au_team = 7,
             au_slug = ''t'' \<rparr>"
    by code_simp
  moreover have "starts_with TOKEN_PREFIX ''acs_1''" by code_simp
  moreover have "quiet auth_conn" by (simp add: auth_conn_def)
  ultimately show ?thesis by (simp add: resolve_token_def query_quiet ana_def)
qed

lemma demo_admitted:
  assumes "map_of hs ''authorization'' = Some ''Bearer acs_1''"
    and "session_from_headers demo_ext hs = Inr s"
  shows "fst (require_bearer demo_ext id 0 hs None auth_conn) = Inr (ana\<lparr>session := s\<rparr>)"
proof -
  have "bearer_token demo_ext [(''authorization'', ''Bearer acs_1'')] = Some ''acs_1''" by code_simp
  then have "bearer_token demo_ext hs = Some ''acs_1''" using assms(1) by (simp add: bearer_token_def)
  with demo_resolves assms(2) show ?thesis
    by (auto simp: require_bearer_def charge_def split: prod.splits)
qed

lemma demo_web: "session_from_headers demo_ext demo_headers = Inr ''web''"
  by code_simp

theorem require_bearer_sound_witness:
  "good_session ''web'' \<and> token_grants demo_ext ''acs_1'' (data auth_conn) ana_web"
proof -
  have "map_of demo_headers ''authorization'' = Some ''Bearer acs_1''" by code_simp
  from demo_admitted [OF this demo_web] obtain ml' c' where
    "require_bearer demo_ext id 0 demo_headers None auth_conn = (Inr ana_web, ml', c')"
    unfolding ana_web_def by (metis prod.collapse)
  from require_bearer_sound [OF this] obtain raw c1 where
    "good_session (session ana_web)" "bearer_token demo_ext demo_headers = Some raw"
    "next_tick auth_conn = (False, c1)" "token_grants demo_ext raw (data c1) ana_web"
    by blast
  moreover have "next_tick auth_conn = (False, auth_conn)"
    by (simp add: next_tick_def auth_conn_def demo_conn_def)
  moreover have "bearer_token demo_ext demo_headers = Some ''acs_1''" by code_simp
  ultimately show ?thesis by (simp add: ana_web_def)
qed

text \<open>
  The session header never decides who is speaking: two requests with the same
  \<open>Authorization\<close> header that are both admitted get the same agent and team, whatever their
  session headers.
\<close>

theorem session_is_not_identity:
  assumes "map_of hs ''authorization'' = map_of hs' ''authorization''"
    and "require_bearer x rnd now hs ml c = (Inr ctx, ml1, c1)"
    and "require_bearer x rnd' now' hs' ml' c = (Inr ctx', ml2, c2)"
  shows "ctx'\<lparr>session := []\<rparr> = ctx\<lparr>session := []\<rparr> \<and> c2 = c1"
proof -
  obtain raw s ctx0 where r: "bearer_token x hs = Some raw"
    "resolve_token x raw c = (Inr ctx0, c1)" "ctx = ctx0\<lparr>session := s\<rparr>"
    using assms(2) by (rule require_bearer_Inr)
  obtain raw' s' ctx0' where r': "bearer_token x hs' = Some raw'"
    "resolve_token x raw' c = (Inr ctx0', c2)" "ctx' = ctx0'\<lparr>session := s'\<rparr>"
    using assms(3) by (rule require_bearer_Inr)
  have "bearer_token x hs' = bearer_token x hs" using assms(1) by (simp add: bearer_token_def)
  with r r' show ?thesis by auto
qed

theorem session_is_not_identity_witness:
  "ana_web\<lparr>session := []\<rparr> = ana\<lparr>session := []\<rparr>"
proof -
  let ?hs = "[(''authorization'', ''Bearer acs_1'')]"
  have "session_from_headers demo_ext ?hs = Inr []" by code_simp
  then obtain ml1 c1 where one: "require_bearer demo_ext id 0 ?hs None auth_conn = (Inr ana, ml1, c1)"
    using demo_admitted [of ?hs "[]"] by (auto simp: ana_def) (metis prod.collapse)
  have same: "map_of ?hs ''authorization'' = map_of demo_headers ''authorization''" by code_simp
  then obtain ml2 c2 where
    two: "require_bearer demo_ext id 0 demo_headers None auth_conn = (Inr ana_web, ml2, c2)"
    using demo_admitted [OF _ demo_web] unfolding ana_web_def by simp (metis prod.collapse)
  from session_is_not_identity [OF same one two] show ?thesis by simp
qed

end
