(* ===== verification/Messaging.thy ===== *)
theory Messaging
  imports Attachments Auth
begin

text \<open>
  The writing half of \<open>store/messaging.rs\<close>: channels, addresses, the default channel of a
  session, and \<open>post_message\<close> with its attachments in one transaction. The reading half is
  in the theory \<open>Reading\<close>.
\<close>

definition MAX_LIMIT :: int where
  "MAX_LIMIT = 200"

definition MAX_BODY_BYTES :: nat where
  "MAX_BODY_BYTES = 1024 * 1024"

definition MAX_TOPIC_BYTES :: nat where
  "MAX_TOPIC_BYTES = 256"

subsection \<open>Message rows\<close>

record message_view =
  mv_id :: int
  mv_sender :: string
  mv_sender_session :: "string option"
  mv_announce :: bool
  mv_channel :: "string option"
  mv_recipient :: "string option"
  mv_recipient_session :: "string option"
  mv_body :: string
  mv_reply_to :: "int option"
  mv_metadata :: json
  mv_attachments :: "attachment_meta list"
  mv_created :: timestamp

record message_info =
  mi_id :: int
  mi_from :: string
  mi_from_session :: "string option"
  mi_announce :: bool
  mi_channel :: "string option"
  mi_to :: "string option"
  mi_to_session :: "string option"
  mi_body :: string
  mi_reply_to :: "int option"
  mi_metadata :: json
  mi_attachments :: "attachment_meta list"
  mi_created :: timestamp

definition message_info_of :: "message_view \<Rightarrow> message_info" where
  "message_info_of r =
     \<lparr> mi_id = mv_id r, mi_from = mv_sender r, mi_from_session = non_empty (mv_sender_session r),
       mi_announce = mv_announce r, mi_channel = mv_channel r, mi_to = mv_recipient r,
       mi_to_session = non_empty (mv_recipient_session r), mi_body = mv_body r,
       mi_reply_to = mv_reply_to r, mi_metadata = mv_metadata r,
       mi_attachments = mv_attachments r, mi_created = mv_created r \<rparr>"

text \<open>\<open>MESSAGE_SELECT\<close> for one message: the inner join drops a row without a sender.\<close>

definition message_view_of :: "db \<Rightarrow> message_row \<Rightarrow> message_view option" where
  "message_view_of d m = map_option (\<lambda>sender.
     \<lparr> mv_id = ms_id m, mv_sender = sender, mv_sender_session = ms_sender_session m,
       mv_announce = ms_announce m, mv_channel = Option.bind (ms_channel m) (channel_name_of d),
       mv_recipient = Option.bind (ms_recipient m) (agent_name_of d),
       mv_recipient_session = ms_recipient_session m, mv_body = ms_body m,
       mv_reply_to = ms_reply_to m, mv_metadata = ms_metadata m,
       mv_attachments = message_metas d (ms_id m), mv_created = ms_created m \<rparr>)
   (agent_name_of d (ms_sender m))"

subsection \<open>Channels\<close>

record channel_info =
  ci_name :: string
  ci_topic :: "string option"
  ci_messages :: nat
  ci_created :: timestamp

text \<open>Like every insert, it fails when the generated id is already in use.\<close>

definition upsert_channel ::
  "uuid \<Rightarrow> uuid \<Rightarrow> string \<Rightarrow> string option \<Rightarrow> uuid \<Rightarrow> timestamp \<Rightarrow> db \<Rightarrow> (channel_row \<times> db) option" where
  "upsert_channel fresh team name topic by now d =
     (let same = (\<lambda>c. ch_team c = team \<and> ch_name c = name);
          keep = (\<lambda>c. c\<lparr>ch_topic := or_keep topic (ch_topic c)\<rparr>)
      in case List.find same (channels d) of
           None \<Rightarrow>
             (let r = \<lparr> ch_id = fresh, ch_team = team, ch_name = name, ch_topic = topic,
                        ch_created_by = Some by, ch_created = now \<rparr>
              in if list_ex (\<lambda>c. ch_id c = fresh) (channels d) then None
                 else Some (r, d\<lparr>channels := channels d @ [r]\<rparr>))
         | Some old \<Rightarrow> Some (keep old, d\<lparr>channels := update_where same keep (channels d)\<rparr>))"

definition create_channel :: "uuid \<Rightarrow> auth_ctx \<Rightarrow> string \<Rightarrow> string option \<Rightarrow> channel_info io" where
  "create_channel fresh auth raw topic =
     (let name = normalize_channel raw
      in if name = [] then raise (Invalid (MessageWhy ChannelNameEmpty))
         else if 64 < length name then raise (Invalid (MessageWhy ChannelNameTooLong))
         else
           bind_io (lift (check_opt_text ''channel topic'' topic MAX_TOPIC_BYTES)) (\<lambda>topic.
           bind_io (sql (upsert_channel fresh (team_id auth) name topic (agent_id auth))) (\<lambda>row.
           ret \<lparr> ci_name = ch_name row, ci_topic = ch_topic row, ci_messages = 0,
                 ci_created = ch_created row \<rparr>)))"

definition list_channels :: "auth_ctx \<Rightarrow> channel_info list io" where
  "list_channels auth = query (\<lambda>now d.
     map (\<lambda>c. \<lparr> ci_name = ch_name c, ci_topic = ch_topic c,
                 ci_messages = length (filter (\<lambda>m. ms_channel m = Some (ch_id c)) (messages d)),
                 ci_created = ch_created c \<rparr>)
       (order_by ch_name (filter (\<lambda>c. ch_team c = team_id auth) (channels d))))"

subsection \<open>Addresses\<close>

definition parse_address :: "string \<Rightarrow> (string \<times> string option) bus_result" where
  "parse_address given =
     (let raw = trim given
      in case split_once (CHR ''/'') raw of
           None \<Rightarrow> Inr (raw, None)
         | Some (a, s) \<Rightarrow>
             (let agent = trim a
              in if agent = [] then Inl (Invalid (MessageWhy AddressWithoutAgent))
                 else case normalize_session s of
                     Inl why \<Rightarrow> Inl (Invalid (MessageWhy (AddressBadSession raw why)))
                   | Inr label \<Rightarrow>
                       if label = [] then Inl (Invalid (MessageWhy (AddressEmptySession raw agent)))
                       else Inr (agent, Some label)))"

definition default_channel :: "auth_ctx \<Rightarrow> (uuid \<times> string) option io" where
  "default_channel auth =
     (if session auth = [] then ret None
      else
        let name = normalize_channel (session auth) in
        bind_io (query (\<lambda>now d. find_channel d (team_id auth) name)) (\<lambda>row.
        ret (map_option (\<lambda>i. (i, name)) row)))"

subsection \<open>Read cursors\<close>

definition cursor_scope_for :: "string \<Rightarrow> string \<Rightarrow> bool \<Rightarrow> string" where
  "cursor_scope_for base sess all_sessions =
     (if all_sessions then base @ ''/a/'' @ sess
      else if sess = [] then base else base @ ''/s/'' @ sess)"

definition cursor_scope :: "string \<Rightarrow> string \<Rightarrow> string" where
  "cursor_scope base sess = cursor_scope_for base sess False"

text \<open>\<open>DM_FOR_SESSION\<close>.\<close>

definition dm_for_session :: "uuid \<Rightarrow> string \<Rightarrow> message_row \<Rightarrow> bool" where
  "dm_for_session agent sess m \<longleftrightarrow> ms_recipient m = Some agent \<and>
     (ms_recipient_session m = None \<or> ms_recipient_session m = Some sess)"

subsection \<open>Posting\<close>

record post_input =
  pi_channel :: "string option"
  pi_to :: "string option"
  pi_announce :: bool
  pi_body :: string
  pi_reply_to :: "int option"
  pi_metadata :: "json option"
  pi_attachments :: "new_attachment list"

record post_result =
  po_message :: message_info
  po_delivered_to :: "string list"

text \<open>Everyone in the team can read a channel.\<close>

definition team_names :: "uuid \<Rightarrow> db \<Rightarrow> string list" where
  "team_names team d = order_by id
     (map ag_name (filter (\<lambda>a. ag_team a = team \<and> ag_disabled a = None) (agents d)))"

text \<open>Channel id, recipient id, recipient session, and who can see the message.\<close>

type_synonym target = "uuid option \<times> uuid option \<times> string option \<times> string list"

definition to_channel :: "auth_ctx \<Rightarrow> uuid \<Rightarrow> target io" where
  "to_channel auth i =
     bind_io (query (\<lambda>now. team_names (team_id auth))) (\<lambda>names. ret (Some i, None, None, names))"

definition address_label :: "string \<Rightarrow> string option \<Rightarrow> string" where
  "address_label agent sess = (case sess of None \<Rightarrow> agent | Some s \<Rightarrow> agent @ ''/'' @ s)"

definition to_agent :: "auth_ctx \<Rightarrow> string \<Rightarrow> target io" where
  "to_agent auth raw =
     bind_io (lift (parse_address raw)) (\<lambda>(agent, sess).
     bind_io (agent_id_by_name (team_id auth) agent) (\<lambda>i.
     if i = agent_id auth \<and> sess = Some (session auth)
     then raise (Invalid (MessageWhy AddressIsSelf))
     else ret (None, Some i, sess, [address_label agent sess])))"

definition post_target :: "auth_ctx \<Rightarrow> string option \<Rightarrow> string option \<Rightarrow> target io" where
  "post_target auth channel to = (case (channel, to) of
       (Some _, Some _) \<Rightarrow> raise (Invalid (MessageWhy ChannelAndTo))
     | (None, None) \<Rightarrow>
         bind_io (default_channel auth) (\<lambda>def.
         case def of
           Some (i, _) \<Rightarrow> to_channel auth i
         | None \<Rightarrow>
             if session auth = [] then raise (Invalid (MessageWhy NoTarget))
             else raise (Invalid (MessageWhy (NoDefaultChannel (session auth)))))
     | (Some c, None) \<Rightarrow> bind_io (channel_id_by_name (team_id auth) c) (to_channel auth)
     | (None, Some t) \<Rightarrow> to_agent auth t)"

text \<open>
  The constraints on \<open>messages\<close>: exactly one of channel and recipient, sender, recipient and
  channel in the message's team, and a reply to an existing message.
\<close>

definition agent_in_team :: "db \<Rightarrow> uuid \<Rightarrow> uuid \<Rightarrow> bool" where
  "agent_in_team d team i \<longleftrightarrow> list_ex (\<lambda>a. ag_id a = i \<and> ag_team a = team) (agents d)"

definition message_allowed :: "db \<Rightarrow> message_row \<Rightarrow> bool" where
  "message_allowed d m \<longleftrightarrow>
     (ms_channel m \<noteq> None) \<noteq> (ms_recipient m \<noteq> None) \<and>
     agent_in_team d (ms_team m) (ms_sender m) \<and>
     (case ms_recipient m of None \<Rightarrow> True | Some r \<Rightarrow> agent_in_team d (ms_team m) r) \<and>
     (case ms_channel m of None \<Rightarrow> True
      | Some c \<Rightarrow> list_ex (\<lambda>r. ch_id r = c \<and> ch_team r = ms_team m) (channels d)) \<and>
     (case ms_reply_to m of None \<Rightarrow> True | Some i \<Rightarrow> list_ex (\<lambda>r. ms_id r = i) (messages d))"

definition new_message ::
  "auth_ctx \<Rightarrow> target \<Rightarrow> string \<Rightarrow> int option \<Rightarrow> json \<Rightarrow> bool \<Rightarrow> int \<Rightarrow> timestamp \<Rightarrow> message_row" where
  "new_message auth tgt body reply metadata announce i now = (case tgt of (channel, recipient, sess, _) \<Rightarrow>
     \<lparr> ms_id = i, ms_team = team_id auth, ms_channel = channel, ms_recipient = recipient,
       ms_recipient_session = sess, ms_sender = agent_id auth,
       ms_sender_session = session_label auth, ms_announce = announce, ms_body = body,
       ms_reply_to = reply, ms_metadata = metadata, ms_created = now \<rparr>)"

definition insert_message_stmt ::
  "externals \<Rightarrow> auth_ctx \<Rightarrow> target \<Rightarrow> string \<Rightarrow> int option \<Rightarrow> json \<Rightarrow> bool \<Rightarrow>
     timestamp \<Rightarrow> db \<Rightarrow> (int \<times> db) option" where
  "insert_message_stmt x auth tgt body reply metadata announce now d =
     (let m = new_message auth tgt body reply metadata announce (message_seq d) now
      in if message_allowed d m
         then Some (message_seq d, fire_message x now m
                (d\<lparr>messages := messages d @ [m], message_seq := message_seq d + 1\<rparr>))
         else None)"

definition fetch_message :: "int \<Rightarrow> db \<Rightarrow> message_view option" where
  "fetch_message i d = Option.bind (List.find (\<lambda>m. ms_id m = i) (messages d)) (message_view_of d)"

definition check_reply :: "auth_ctx \<Rightarrow> int option \<Rightarrow> unit io" where
  "check_reply auth reply = (case reply of
       None \<Rightarrow> ret ()
     | Some i \<Rightarrow>
         bind_io (query (\<lambda>now d. list_ex (\<lambda>m. ms_id m = i \<and> ms_team m = team_id auth) (messages d)))
           (\<lambda>exists. if exists then ret () else raise (NotFound (MessageWhy (NoMessage i)))))"

definition post_steps ::
  "externals \<Rightarrow> auth_ctx \<Rightarrow> target \<Rightarrow> string \<Rightarrow> int option \<Rightarrow> json \<Rightarrow> bool \<Rightarrow>
     new_attachment list \<Rightarrow> message_view io" where
  "post_steps x auth tgt body reply metadata announce files =
     bind_io (sql (insert_message_stmt x auth tgt body reply metadata announce)) (\<lambda>i.
     bind_io (each (insert_for_message (team_id auth) i (agent_id auth)) files) (\<lambda>_.
     sql (\<lambda>now d. map_option (\<lambda>v. (v, d)) (fetch_message i d))))"

definition post_tx ::
  "externals \<Rightarrow> auth_ctx \<Rightarrow> target \<Rightarrow> string \<Rightarrow> int option \<Rightarrow> json \<Rightarrow> bool \<Rightarrow>
     new_attachment list \<Rightarrow> message_view io" where
  "post_tx x auth tgt body reply metadata announce files =
     in_tx (post_steps x auth tgt body reply metadata announce files)"

definition post_message :: "externals \<Rightarrow> auth_ctx \<Rightarrow> post_input \<Rightarrow> post_result io" where
  "post_message x auth input =
     (let body = trim (pi_body input)
      in if body = [] then raise (Invalid (MessageWhy BodyEmpty))
         else if MAX_BODY_BYTES < length body
         then raise (Invalid (MessageWhy (BodyTooLong (length body))))
         else if pi_announce input \<and> pi_to input \<noteq> None \<and> pi_channel input = None
         then raise (Invalid (MessageWhy AnnounceOnDirect))
         else
           bind_io (post_target auth (pi_channel input) (pi_to input)) (\<lambda>tgt.
           bind_io (check_reply auth (pi_reply_to input)) (\<lambda>_.
           bind_io (lift (check_metadata x ''message'' (pi_metadata input))) (\<lambda>_.
           let metadata = (case pi_metadata input of None \<Rightarrow> JObj [] | Some v \<Rightarrow> v) in
           bind_io (post_tx x auth tgt body (pi_reply_to input) metadata (pi_announce input)
             (pi_attachments input)) (\<lambda>row.
           ret \<lparr> po_message = message_info_of row, po_delivered_to = snd (snd (snd tgt)) \<rparr>)))))"

subsection \<open>A message and its files appear together\<close>

definition file_of :: "attachment_row \<Rightarrow> new_attachment" where
  "file_of r = \<lparr> na_filename = at_filename r, na_type = at_type r, na_data = at_data r \<rparr>"

text \<open>\<open>files\<close> were added to message \<open>i\<close>, and nothing else happened.\<close>

definition files_added ::
  "uuid \<Rightarrow> int \<Rightarrow> uuid \<Rightarrow> new_attachment list \<Rightarrow> db \<Rightarrow> db \<Rightarrow> bool" where
  "files_added team i by files d d' \<longleftrightarrow> (\<exists>rows s.
     d' = d\<lparr>attachments := attachments d @ rows, attachment_seq := s\<rparr> \<and> map file_of rows = files \<and>
     (\<forall>r \<in> set rows. at_message r = Some i \<and> at_task r = None \<and> at_team r = team \<and>
        at_uploader r = by \<and> at_size r = int (length (at_data r))))"

lemma files_added_Nil: "files_added team i by [] d d"
  unfolding files_added_def by (rule exI [of _ "[]"], rule exI [of _ "attachment_seq d"]) simp

lemma files_added_Cons:
  assumes "files_added team i by [f] d d1" and "files_added team i by fs d1 d2"
  shows "files_added team i by (f # fs) d d2"
proof -
  obtain rows s where 1: "d1 = d\<lparr>attachments := attachments d @ rows, attachment_seq := s\<rparr>"
    "map file_of rows = [f]" "\<forall>r \<in> set rows. at_message r = Some i \<and> at_task r = None \<and>
      at_team r = team \<and> at_uploader r = by \<and> at_size r = int (length (at_data r))"
    using assms(1) by (auto simp: files_added_def)
  obtain rows' s' where 2: "d2 = d1\<lparr>attachments := attachments d1 @ rows', attachment_seq := s'\<rparr>"
    "map file_of rows' = fs" "\<forall>r \<in> set rows'. at_message r = Some i \<and> at_task r = None \<and>
      at_team r = team \<and> at_uploader r = by \<and> at_size r = int (length (at_data r))"
    using assms(2) by (auto simp: files_added_def)
  show ?thesis
    unfolding files_added_def
    by (rule exI [of _ "rows @ rows'"], rule exI [of _ s']) (use 1 2 in auto)
qed

lemma files_added_trans:
  assumes "files_added team i by [] d d1" and "files_added team i by fs d1 d2"
  shows "files_added team i by fs d d2"
proof -
  obtain s where "d1 = d\<lparr>attachments := attachments d, attachment_seq := s\<rparr>"
    using assms(1) by (auto simp: files_added_def)
  with assms(2) show ?thesis by (auto simp: files_added_def)
qed

lemma new_message_simps [simp]:
  "ms_id (new_message auth tgt body reply metadata announce i now) = i"
  "ms_team (new_message auth tgt body reply metadata announce i now) = team_id auth"
  "ms_sender (new_message auth tgt body reply metadata announce i now) = agent_id auth"
  "ms_sender_session (new_message auth tgt body reply metadata announce i now) = session_label auth"
  "ms_body (new_message auth tgt body reply metadata announce i now) = body"
  "ms_reply_to (new_message auth tgt body reply metadata announce i now) = reply"
  "ms_announce (new_message auth tgt body reply metadata announce i now) = announce"
  "ms_metadata (new_message auth tgt body reply metadata announce i now) = metadata"
  "ms_channel (new_message auth tgt body reply metadata announce i now) = fst tgt"
  "ms_recipient (new_message auth tgt body reply metadata announce i now) = fst (snd tgt)"
  "ms_recipient_session (new_message auth tgt body reply metadata announce i now) = fst (snd (snd tgt))"
  by (simp_all add: new_message_def split: prod.splits)

lemma insert_attachment_added:
  "insert_attachment_stmt team (Some i) None by f now d = Some (a, d') \<Longrightarrow> files_added team i by [f] d d'"
  unfolding files_added_def
  by (auto simp: insert_attachment_stmt_def file_of_def split: if_splits)

lemma reads_check_quota [reads_intros]: "reads_only (check_attachment_quota team n)"
  unfolding check_attachment_quota_def
proof (rule reads_bind)
  show "reads_only (sql (\<lambda>now d. map_option (\<lambda>l. (l, d)) (team_limit team d)))"
    unfolding reads_only_def by (auto intro!: valid_sql)
  show "reads_only (case limit of None \<Rightarrow> ret () | Some l \<Rightarrow> bind_io (query (\<lambda>now. used_bytes team))
      (\<lambda>used. if l < used + n then raise (Invalid (FileWhy (QuotaExceeded used l n))) else ret ()))"
    for limit by (cases limit) (auto intro!: reads_intros)
qed

lemma valid_insert_for_message:
  "valid (=) (\<lambda>d. d = d0) (insert_for_message team i by f)
     (\<lambda>r d. \<forall>a. r = Inr a \<longrightarrow> files_added team i by [f] d0 d)"
proof -
  have ins: "valid (=) (\<lambda>d. d = d0) (sql (insert_attachment_stmt team (Some i) None by f))
     (\<lambda>r d. \<forall>a. r = Inr a \<longrightarrow> files_added team i by [f] d0 d)"
    by (rule valid_sql) (auto intro: insert_attachment_added)
  show ?thesis
    unfolding insert_for_message_def
    by (rule reads_then_valid) (auto intro!: reads_intros valid_bind [OF ins] valid_ret)
qed

lemma valid_insert_files:
  "valid (=) (\<lambda>d. d = d0) (each (insert_for_message team i by) fs)
     (\<lambda>r d. \<forall>ys. r = Inr ys \<longrightarrow> files_added team i by fs d0 d)"
proof (induction fs arbitrary: d0)
  case (Cons f fs)
  have "valid (=) (\<lambda>d. \<forall>a. Inr y = Inr a \<longrightarrow> files_added team i by [f] d0 d)
      (bind_io (each (insert_for_message team i by) fs) (\<lambda>ys. ret (y # ys)))
      (\<lambda>r d. \<forall>ys. r = Inr ys \<longrightarrow> files_added team i by (f # fs) d0 d)" for y :: attachment_meta
    by (rule valid_point)
      (auto intro!: valid_bind [OF Cons.IH] valid_ret intro: files_added_Cons)
  then show ?case
    by (auto intro!: valid_bind [OF valid_insert_for_message])
qed (auto intro!: valid_ret files_added_Nil)

text \<open>What a successful post leaves behind.\<close>

definition posted ::
  "externals \<Rightarrow> auth_ctx \<Rightarrow> target \<Rightarrow> string \<Rightarrow> int option \<Rightarrow> json \<Rightarrow> bool \<Rightarrow>
     new_attachment list \<Rightarrow> db \<Rightarrow> db \<Rightarrow> bool" where
  "posted x auth tgt body reply metadata announce files d d' \<longleftrightarrow> (\<exists>now.
     let m = new_message auth tgt body reply metadata announce (message_seq d) now in
     message_allowed d m \<and>
     files_added (team_id auth) (ms_id m) (agent_id auth) files
       (fire_message x now m (d\<lparr>messages := messages d @ [m], message_seq := message_seq d + 1\<rparr>)) d')"

lemma valid_post_steps:
  "valid (=) (\<lambda>d. d = d0) (post_steps x auth tgt body reply metadata announce files)
     (\<lambda>r d. \<forall>v. r = Inr v \<longrightarrow> posted x auth tgt body reply metadata announce files d0 d \<and>
        fetch_message (message_seq d0) d = Some v)"
proof -
  let ?P = "posted x auth tgt body reply metadata announce"
  let ?Q = "\<lambda>r d. \<forall>v. r = Inr v \<longrightarrow> ?P files d0 d \<and> fetch_message (message_seq d0) d = Some v"
  have ins: "valid (=) (\<lambda>d. d = d0) (sql (insert_message_stmt x auth tgt body reply metadata announce))
     (\<lambda>r d. \<forall>i. r = Inr i \<longrightarrow> i = message_seq d0 \<and> ?P [] d0 d)"
    by (rule valid_sql)
      (auto simp: insert_message_stmt_def posted_def Let_def intro: files_added_Nil split: if_splits)
  have fetch: "valid (=) (\<lambda>d. ?P files d0 d)
      (sql (\<lambda>now d. map_option (\<lambda>v. (v, d)) (fetch_message (message_seq d0) d))) ?Q"
    by (rule valid_sql) auto
  have rest: "valid (=) (?P [] d0)
      (bind_io (each (insert_for_message (team_id auth) (message_seq d0) (agent_id auth)) files)
        (\<lambda>_. sql (\<lambda>now d. map_option (\<lambda>v. (v, d)) (fetch_message (message_seq d0) d)))) ?Q"
  proof (rule valid_point)
    fix d1 assume d1: "?P [] d0 d1"
    have "?P files d0 d" if "files_added (team_id auth) (message_seq d0) (agent_id auth) files d1 d" for d
      using d1 that unfolding posted_def Let_def new_message_simps by (blast intro: files_added_trans)
    then show "valid (=) (\<lambda>d. d = d1)
      (bind_io (each (insert_for_message (team_id auth) (message_seq d0) (agent_id auth)) files)
        (\<lambda>_. sql (\<lambda>now d. map_option (\<lambda>v. (v, d)) (fetch_message (message_seq d0) d)))) ?Q"
      by (auto intro!: valid_bind [OF valid_insert_files] valid_conseq [OF fetch])
  qed
  show ?thesis
    unfolding post_steps_def by (rule valid_bind [OF ins]) (auto intro!: valid_pure rest)
qed

lemma valid_post_tx:
  "valid (=) (\<lambda>d. d = d0) (post_tx x auth tgt body reply metadata announce files)
     (\<lambda>r d. case r of Inl e \<Rightarrow> d = d0
       | Inr v \<Rightarrow> posted x auth tgt body reply metadata announce files d0 d \<and>
                 fetch_message (message_seq d0) d = Some v)"
  unfolding post_tx_def
  by (rule valid_conseq [OF valid_tx [OF valid_post_steps]]) (auto split: sum.splits)

lemma reads_post_target [reads_intros]: "reads_only (post_target auth channel to)"
proof -
  have ch: "reads_only (to_channel auth i)" for i
    by (auto simp: to_channel_def intro!: reads_intros)
  have ag: "reads_only (to_agent auth raw)" for raw
    by (auto simp: to_agent_def intro!: reads_intros split: prod.splits)
  have df: "reads_only (default_channel auth)"
    by (auto simp: default_channel_def Let_def intro!: reads_intros)
  show ?thesis
    by (auto simp: post_target_def intro!: reads_intros ch ag df split: option.splits)
qed

lemma reads_check_reply [reads_intros]: "reads_only (check_reply auth reply)"
  by (auto simp: check_reply_def intro!: reads_intros split: option.splits)

definition metadata_or_empty :: "json option \<Rightarrow> json" where
  "metadata_or_empty m = (case m of None \<Rightarrow> JObj [] | Some v \<Rightarrow> v)"

lemma valid_post_message:
  "valid (=) (\<lambda>d. d = d0) (post_message x auth input)
     (\<lambda>r d. case r of Inl e \<Rightarrow> d = d0
       | Inr res \<Rightarrow> \<exists>tgt v. posted x auth tgt (trim (pi_body input)) (pi_reply_to input)
             (metadata_or_empty (pi_metadata input)) (pi_announce input) (pi_attachments input) d0 d \<and>
           fetch_message (message_seq d0) d = Some v \<and> po_message res = message_info_of v \<and>
           po_delivered_to res = snd (snd (snd tgt)))"
  unfolding post_message_def Let_def metadata_or_empty_def [symmetric]
  by (auto intro!: valid_raise reads_then_valid reads_intros valid_ret
      valid_bind [OF valid_post_tx] split: sum.splits) blast+

text \<open>
  C19 (safety). Posting is all or nothing: whichever statement fails, the commit included, an
  error leaves every table, the event log and the webhook outbox as they were; a success
  adds exactly one message by the caller, with all its files, its event and its deliveries,
  and answers with that message.
\<close>

theorem post_message_atomic:
  assumes "rely (=) c"
  shows "case post_message x auth input c of
      (Inl e, c') \<Rightarrow> data c' = data c
    | (Inr res, c') \<Rightarrow> \<exists>tgt v. posted x auth tgt (trim (pi_body input)) (pi_reply_to input)
          (metadata_or_empty (pi_metadata input)) (pi_announce input) (pi_attachments input)
          (data c) (data c') \<and>
        fetch_message (message_seq (data c)) (data c') = Some v \<and>
        po_message res = message_info_of v \<and> po_delivered_to res = snd (snd (snd tgt))"
  using validD [OF valid_post_message [of "data c" x auth input] assms]
  by (auto split: prod.splits sum.splits) blast

definition late_failure :: conn where
  "late_failure = demo_conn\<lparr>sched := map (\<lambda>b. \<lparr> fails = b, takes = 5, others = id \<rparr>)
     [False, False, False, False, False, False, True]\<rparr>"

definition post_build :: post_input where
  "post_build = \<lparr> pi_channel = Some ''#General'', pi_to = None, pi_announce = False,
     pi_body = '' built '', pi_reply_to = None, pi_metadata = None,
     pi_attachments = [demo_file] \<rparr>"

theorem post_message_atomic_witness:
  "data (snd (post_message demo_ext ana post_build late_failure)) = demo_db"
proof -
  have "rely (=) late_failure" by (simp add: rely_def late_failure_def)
  moreover have "isl (fst (post_message demo_ext ana post_build late_failure))" by code_simp
  moreover have "data late_failure = demo_db" by (simp add: late_failure_def demo_conn_def)
  ultimately show ?thesis
    using post_message_atomic [of late_failure demo_ext ana post_build]
    by (auto split: prod.splits sum.splits)
qed

subsection \<open>Posting keeps the quota\<close>

lemma keeps_post_target [keeps_intros]: "keeps I (post_target auth channel to)"
proof -
  have ch: "keeps I (to_channel auth i)" for i
    by (auto simp: to_channel_def intro!: keeps_intros)
  have ag: "keeps I (to_agent auth raw)" for raw
    by (auto simp: to_agent_def intro!: keeps_intros split: prod.splits)
  have df: "keeps I (default_channel auth)"
    by (auto simp: default_channel_def Let_def intro!: keeps_intros)
  show ?thesis
    by (auto simp: post_target_def intro!: keeps_intros ch ag df split: option.splits)
qed

lemma keeps_check_reply [keeps_intros]: "keeps I (check_reply auth reply)"
  by (auto simp: check_reply_def intro!: keeps_intros split: option.splits)

lemma keeps_post_message:
  assumes "\<And>tgt body reply metadata announce files.
    keeps I (post_tx x auth tgt body reply metadata announce files)"
  shows "keeps I (post_message x auth input)"
  using assms unfolding post_message_def Let_def by (auto intro!: keeps_intros)

lemma insert_message_frame:
  assumes "insert_message_stmt x auth tgt body reply metadata announce now d = Some (i, d')"
  shows "teams d' = teams d" "attachments d' = attachments d" "cursors d' = cursors d"
    "agents d' = agents d" "channels d' = channels d"
  using assms by (auto simp: insert_message_stmt_def Let_def split: if_splits)

lemma within_quota_frame:
  "within_quota team d \<Longrightarrow> teams d' = teams d \<Longrightarrow> attachments d' = attachments d \<Longrightarrow> within_quota team d'"
  by (simp add: within_quota_def used_bytes_def team_limit_def)


subsection \<open>Addresses and session headers agree\<close>

lemma split_once_trim_None: "CHR ''/'' \<notin> set s \<Longrightarrow> split_once (CHR ''/'') (trim s) = None"
  using set_trim [of s] by (auto simp: split_once_None)

lemma good_session_ends:
  "good_session s \<Longrightarrow> s \<noteq> [] \<Longrightarrow> \<not> is_space (last s)"
  using trim_last [of s] by (simp add: good_session_def)

lemma trim_address:
  assumes "trim a = a" and "a \<noteq> []" and "s \<noteq> []" and "\<not> is_space (last s)"
  shows "trim (a @ CHR ''/'' # s) = a @ CHR ''/'' # s"
proof (rule trim_unchanged)
  obtain y ys where a: "a = y # ys" using assms(2) by (cases a) auto
  then have "\<not> is_space (hd a)" using trim_hd [of a y ys] assms(1) by simp
  with assms(2-4) show "a @ CHR ''/'' # s = [] \<or>
      (\<not> is_space (hd (a @ CHR ''/'' # s)) \<and> \<not> is_space (last (a @ CHR ''/'' # s)))" by simp
qed

lemma parse_address_Inr:
  assumes "parse_address raw = Inr (a, s)"
  shows "trim a = a \<and> CHR ''/'' \<notin> set a \<and>
    (s = None \<or> (a \<noteq> [] \<and> (\<exists>l. s = Some l \<and> l \<noteq> [] \<and> good_session l)))"
proof (cases "split_once (CHR ''/'') (trim raw)")
  case None
  with assms show ?thesis by (auto simp: parse_address_def Let_def split_once_None)
next
  case (Some p)
  obtain u v where p: "p = (u, v)" by (cases p)
  have "CHR ''/'' \<notin> set (trim u)" using Some p set_trim [of u] by (auto simp: split_once_Some)
  moreover obtain l where "a = trim u" "trim u \<noteq> []" "normalize_session v = Inr l" "l \<noteq> []" "s = Some l"
    using assms Some p by (simp add: parse_address_def Let_def split: if_splits sum.splits)
  moreover from this have "good_session l" by (metis normalize_session_Inr)
  ultimately show ?thesis by simp
qed

lemma parse_address_slash:
  assumes "trim a = a" and "a \<noteq> []" and "CHR ''/'' \<notin> set a" and "s \<noteq> []" and "\<not> is_space (last s)"
  shows "parse_address (a @ CHR ''/'' # s) = (case normalize_session s of
      Inl why \<Rightarrow> Inl (Invalid (MessageWhy (AddressBadSession (a @ CHR ''/'' # s) why)))
    | Inr label \<Rightarrow> if label = [] then Inl (Invalid (MessageWhy (AddressEmptySession (a @ CHR ''/'' # s) a)))
        else Inr (a, Some label))"
  using assms by (simp add: parse_address_def Let_def trim_address split: sum.splits)

text \<open>
  A parsed address, printed the way \<open>delivered_to\<close> reports it, parses to
  the same agent and session again.
\<close>

theorem parse_address_roundtrip:
  assumes "parse_address raw = Inr (a, s)"
  shows "parse_address (address_label a s) = Inr (a, s)"
proof (cases s)
  case None
  then show ?thesis
    using parse_address_Inr [OF assms] split_once_trim_None [of a]
    by (simp add: address_label_def parse_address_def)
next
  case (Some l)
  then have l: "l \<noteq> []" "good_session l" "a \<noteq> []" "trim a = a" "CHR ''/'' \<notin> set a"
    using parse_address_Inr [OF assms] by auto
  with Some show ?thesis
    by (simp add: address_label_def parse_address_slash good_session_ends good_session_fixed)
qed

theorem parse_address_roundtrip_witness:
  "parse_address '' dani / Market-Data '' = Inr (''dani'', Some ''market-data'') \<and>
   parse_address ''dani/market-data'' = Inr (''dani'', Some ''market-data'')"
proof -
  have "parse_address '' dani / Market-Data '' = Inr (''dani'', Some ''market-data'')" by code_simp
  from this parse_address_roundtrip [OF this] show ?thesis by (simp add: address_label_def)
qed

text \<open>
  A session can be addressed exactly when it could have announced itself:
  the session half of an address is accepted, and normalised to the same label, as an
  \<open>X-Crew-Session\<close> header with that text, except that it may not be empty.
\<close>

theorem address_like_header:
  assumes "map_of hs SESSION_HEADER = Some v" and "header_str x v = Some s"
    and "trim a = a" and "a \<noteq> []" and "CHR ''/'' \<notin> set a" and "s \<noteq> []" and "\<not> is_space (last s)"
    and "l \<noteq> []"
  shows "parse_address (a @ CHR ''/'' # s) = Inr (a, Some l) \<longleftrightarrow> session_from_headers x hs = Inr l"
  using assms
  by (auto simp: parse_address_slash session_from_headers_def split: sum.splits)

theorem address_like_header_witness:
  "parse_address ''dani/Api'' = Inr (''dani'', Some ''api'') \<longleftrightarrow>
   session_from_headers demo_ext [(SESSION_HEADER, ''Api'')] = Inr ''api''"
proof -
  have "map_of [(SESSION_HEADER, ''Api'')] SESSION_HEADER = Some ''Api''" by simp
  moreover have "header_str demo_ext ''Api'' = Some ''Api''" by code_simp
  moreover have "trim ''dani'' = ''dani''" "\<not> is_space (last ''Api'')" by code_simp+
  ultimately show ?thesis
    using address_like_header [where a = "''dani''" and s = "''Api''" and l = "''api''" and x = demo_ext]
    by simp
qed

subsection \<open>Cursor keys do not collide\<close>

text \<open>
  The read cursor of each view of each session is its own: bases and session
  labels contain no slash, and two cursor keys are equal only for the same base, the same
  session and the same view.
\<close>

theorem cursor_keys_distinct:
  assumes "CHR ''/'' \<notin> set b" and "CHR ''/'' \<notin> set b'" and "good_session s" and "good_session s'"
  shows "cursor_scope_for b s all = cursor_scope_for b' s' all' \<longleftrightarrow> b = b' \<and> s = s' \<and> all = all'"
proof -
  have one: "split_once (CHR ''/'') (cursor_scope_for b s all) =
      (if \<not> all \<and> s = [] then None
       else Some (b, (if all then CHR ''a'' else CHR ''s'') # CHR ''/'' # s))"
    if "CHR ''/'' \<notin> set b" for b s all
    using that by (auto simp: cursor_scope_for_def split_once_None)
  have "b = b' \<and> s = s' \<and> all = all'" if eq: "cursor_scope_for b s all = cursor_scope_for b' s' all'"
  proof -
    have "(if \<not> all \<and> s = [] then None else Some (b, (if all then CHR ''a'' else CHR ''s'') # CHR ''/'' # s)) =
      (if \<not> all' \<and> s' = [] then None else Some (b', (if all' then CHR ''a'' else CHR ''s'') # CHR ''/'' # s'))"
      using arg_cong [OF eq, of "split_once (CHR ''/'')"] by (simp only: one [OF assms(1)] one [OF assms(2)])
    then consider "\<not> all" "s = []" "\<not> all'" "s' = []" | "b = b'" "s = s'" "all = all'"
      by (simp split: if_splits)
    then show ?thesis
      using eq by cases (simp_all add: cursor_scope_for_def)
  qed
  then show ?thesis by auto
qed

theorem cursor_keys_distinct_witness:
  "cursor_scope_for ''inbox'' ''api+all-sessions'' False \<noteq> cursor_scope_for ''inbox'' ''api'' True"
proof -
  have "normalize_session ''api+all-sessions'' = Inr ''api+all-sessions''"
    "normalize_session ''api'' = Inr ''api''" by code_simp+
  then have "good_session ''api+all-sessions''" "good_session ''api''"
    by (auto simp: normalize_session_Inr)
  then show ?thesis
    using cursor_keys_distinct [of "''inbox''" "''inbox''"] by simp
qed

end
