(* ===== verification/Reading.thy ===== *)
theory Reading
  imports Messaging
begin

text \<open>
  The reading half of \<open>store/messaging.rs\<close>: scopes and their cursors, \<open>read_messages\<close>,
  \<open>search_messages\<close>, the two lookups of \<open>ask_agent\<close>, and \<open>whoami\<close> of \<open>store/mod.rs\<close>.
\<close>

subsection \<open>Selecting messages\<close>

text \<open>\<open>MESSAGE_SELECT \<dots> WHERE P\<close>, in the order of the ids.\<close>

definition select_messages :: "db \<Rightarrow> (message_row \<Rightarrow> bool) \<Rightarrow> message_view list" where
  "select_messages d P = List.map_filter (message_view_of d) (order_by ms_id (filter P (messages d)))"

text \<open>\<open>ORDER BY m.id DESC LIMIT n\<close>.\<close>

definition newest_messages :: "db \<Rightarrow> int \<Rightarrow> (message_row \<Rightarrow> bool) \<Rightarrow> message_view list" where
  "newest_messages d n P = take (nat n) (rev (select_messages d P))"

definition max_id :: "int \<Rightarrow> message_info list \<Rightarrow> int" where
  "max_id seen ms = (case map mi_id ms of [] \<Rightarrow> seen | i # rest \<Rightarrow> fold max rest i)"

subsection \<open>Asking\<close>

text \<open>\<open>(m.reply_to = $3) DESC NULLS LAST\<close>: true, then false, then unknown.\<close>

definition reply_rank :: "int \<Rightarrow> message_row \<Rightarrow> nat" where
  "reply_rank q m = (case ms_reply_to m of None \<Rightarrow> 2 | Some i \<Rightarrow> if i = q then 0 else 1)"

definition answers :: "auth_ctx \<Rightarrow> uuid \<Rightarrow> string option \<Rightarrow> int \<Rightarrow> message_row \<Rightarrow> bool" where
  "answers auth target tsession q m \<longleftrightarrow>
     ms_sender m = target \<and> ms_recipient m = Some (agent_id auth) \<and> q < ms_id m \<and>
     (ms_recipient_session m = None \<or> ms_recipient_session m = Some (session auth)) \<and>
     (case tsession of None \<Rightarrow> True | Some s \<Rightarrow> coalesce (ms_sender_session m) = s)"

definition select_answer :: "auth_ctx \<Rightarrow> uuid \<Rightarrow> string option \<Rightarrow> int \<Rightarrow> db \<Rightarrow> message_view option" where
  "select_answer auth target tsession q d =
     (case List.map_filter (message_view_of d)
         (order_by (reply_rank q) (order_by ms_id (filter (answers auth target tsession q) (messages d)))) of
        [] \<Rightarrow> None | v # _ \<Rightarrow> Some v)"

definition find_answer :: "auth_ctx \<Rightarrow> uuid \<Rightarrow> string option \<Rightarrow> int \<Rightarrow> message_info option io" where
  "find_answer auth target tsession q =
     bind_io (query (\<lambda>now. select_answer auth target tsession q)) (\<lambda>row.
     ret (map_option message_info_of row))"

definition is_question :: "auth_ctx \<Rightarrow> uuid \<Rightarrow> string option \<Rightarrow> int \<Rightarrow> message_row \<Rightarrow> bool" where
  "is_question auth target tsession q m \<longleftrightarrow>
     ms_id m = q \<and> ms_sender m = agent_id auth \<and> ms_recipient m = Some target \<and>
     coalesce (ms_sender_session m) = session auth \<and> ms_recipient_session m = tsession"

definition verify_question :: "auth_ctx \<Rightarrow> uuid \<Rightarrow> string option \<Rightarrow> int \<Rightarrow> unit io" where
  "verify_question auth target tsession q =
     bind_io (query (\<lambda>now d. list_ex (is_question auth target tsession q) (messages d))) (\<lambda>exists.
     if exists then ret () else raise (Invalid (MessageWhy (NotYourQuestion q))))"

subsection \<open>Scopes\<close>

datatype scope = ScopeAll | ScopeInbox | ScopeChannel uuid string

fun scope_base :: "externals \<Rightarrow> scope \<Rightarrow> string" where
  "scope_base x ScopeAll = ''all''"
| "scope_base x ScopeInbox = ''inbox''"
| "scope_base x (ScopeChannel i name) = ''channel:'' @ uuid_text x i"

definition cursor_key_for :: "externals \<Rightarrow> scope \<Rightarrow> auth_ctx \<Rightarrow> bool \<Rightarrow> string" where
  "cursor_key_for x s auth all_sessions = cursor_scope_for (scope_base x s) (session auth) all_sessions"

fun scope_label :: "scope \<Rightarrow> string" where
  "scope_label ScopeAll = ''all''"
| "scope_label ScopeInbox = ''inbox''"
| "scope_label (ScopeChannel i name) = CHR ''#'' # name"

definition resolve_scope :: "auth_ctx \<Rightarrow> string \<Rightarrow> scope io" where
  "resolve_scope auth raw =
     (let s = lower (trim raw)
      in if s \<in> {'''', ''all''} then ret ScopeAll
         else if s \<in> {''inbox'', ''dm'', ''direct''} then ret ScopeInbox
         else
           let name = normalize_channel s in
           bind_io (channel_id_by_name (team_id auth) name) (\<lambda>i. ret (ScopeChannel i name)))"

definition dm_visible :: "auth_ctx \<Rightarrow> bool \<Rightarrow> message_row \<Rightarrow> bool" where
  "dm_visible auth all_sessions m \<longleftrightarrow> ms_recipient m = Some (agent_id auth) \<and>
     (all_sessions \<or> ms_recipient_session m = None \<or> ms_recipient_session m = Some (session auth))"

fun in_scope :: "scope \<Rightarrow> auth_ctx \<Rightarrow> bool \<Rightarrow> message_row \<Rightarrow> bool" where
  "in_scope ScopeAll auth all_sessions m = (ms_team m = team_id auth \<and>
     (ms_channel m \<noteq> None \<or> dm_visible auth all_sessions m \<or> ms_sender m = agent_id auth))"
| "in_scope ScopeInbox auth all_sessions m = dm_visible auth all_sessions m"
| "in_scope (ScopeChannel i name) auth all_sessions m = (ms_channel m = Some i)"

subsection \<open>Reading\<close>

record read_input =
  ri_scope :: string
  ri_only_new :: bool
  ri_limit :: int
  ri_all_sessions :: bool

record message_list =
  ml_messages :: "message_info list"
  ml_scope :: string
  ml_cursor :: int
  ml_truncated :: bool

definition cursor_at :: "uuid \<Rightarrow> string \<Rightarrow> db \<Rightarrow> int" where
  "cursor_at agent key d = (case List.find (\<lambda>c. rc_agent c = agent \<and> rc_scope c = key) (cursors d) of
       None \<Rightarrow> 0 | Some c \<Rightarrow> rc_last c)"

definition upsert_cursor :: "uuid \<Rightarrow> string \<Rightarrow> int \<Rightarrow> db \<Rightarrow> db" where
  "upsert_cursor agent key n d =
     (let same = (\<lambda>c. rc_agent c = agent \<and> rc_scope c = key)
      in if list_ex same (cursors d)
         then d\<lparr>cursors := update_where same (\<lambda>c. c\<lparr>rc_last := max (rc_last c) n\<rparr>) (cursors d)\<rparr>
         else d\<lparr>cursors := cursors d @ [\<lparr> rc_agent = agent, rc_scope = key, rc_last = n \<rparr>]\<rparr>)"

definition read_messages :: "externals \<Rightarrow> auth_ctx \<Rightarrow> read_input \<Rightarrow> message_list io" where
  "read_messages x auth input =
     bind_io (resolve_scope auth (ri_scope input)) (\<lambda>sc.
     let limit = clamp 1 MAX_LIMIT (ri_limit input);
         key = cursor_key_for x sc auth (ri_all_sessions input)
     in bind_io (if ri_only_new input then query (\<lambda>now. cursor_at (agent_id auth) key) else ret 0) (\<lambda>seen.
        bind_io (query (\<lambda>now d. newest_messages d limit
          (\<lambda>m. in_scope sc auth (ri_all_sessions input) m \<and> seen < ms_id m))) (\<lambda>rows.
        let truncated = (int (length rows) = limit);
            ms = rev (map message_info_of rows);
            new_cursor = max_id seen ms
        in bind_io (if ri_only_new input \<and> seen < new_cursor
             then execute (\<lambda>now d. ((), upsert_cursor (agent_id auth) key new_cursor d)) else ret ()) (\<lambda>_.
           ret \<lparr> ml_messages = ms, ml_scope = scope_label sc, ml_cursor = new_cursor,
                 ml_truncated = truncated \<rparr>))))"

definition searchable :: "externals \<Rightarrow> auth_ctx \<Rightarrow> string \<Rightarrow> message_row \<Rightarrow> bool" where
  "searchable x auth q m \<longleftrightarrow> ms_team m = team_id auth \<and>
     (ms_channel m \<noteq> None \<or> ms_recipient m = Some (agent_id auth) \<or> ms_sender m = agent_id auth) \<and>
     text_match x (ms_body m) q"

definition search_messages :: "externals \<Rightarrow> auth_ctx \<Rightarrow> string \<Rightarrow> int \<Rightarrow> message_list io" where
  "search_messages x auth raw n =
     (let q = trim raw
      in if q = [] then raise (Invalid (TextWhy QueryEmpty))
         else
           let limit = clamp 1 MAX_LIMIT n in
           bind_io (query (\<lambda>now d. newest_messages d limit (searchable x auth q))) (\<lambda>rows.
           let ms = map message_info_of rows
           in ret \<lparr> ml_messages = ms, ml_scope = ''search:'' @ q, ml_cursor = max_id 0 ms,
                    ml_truncated = (int (length rows) = limit) \<rparr>))"

subsection \<open>Who am I\<close>

record who_am_i =
  wi_agent :: string
  wi_agent_id :: string
  wi_team :: string
  wi_team_id :: string
  wi_session :: "string option"
  wi_default_channel :: "string option"
  wi_unread :: nat
  wi_claimed :: nat

definition unread_inbox :: "auth_ctx \<Rightarrow> db \<Rightarrow> nat" where
  "unread_inbox auth d =
     (let seen = cursor_at (agent_id auth) (cursor_scope ''inbox'' (session auth)) d
      in length (filter (\<lambda>m. dm_for_session (agent_id auth) (session auth) m \<and> seen < ms_id m) (messages d)))"

definition whoami :: "externals \<Rightarrow> auth_ctx \<Rightarrow> who_am_i io" where
  "whoami x auth =
     bind_io (query (\<lambda>now. unread_inbox auth)) (\<lambda>unread.
     bind_io (query (\<lambda>now d. length (filter (\<lambda>t. ts_claimed_by t = Some (agent_id auth) \<and>
         ts_status t = Claimed \<and> coalesce (ts_claimed_session t) = session auth) (tasks d)))) (\<lambda>claimed.
     bind_io (default_channel auth) (\<lambda>def.
     ret \<lparr> wi_agent = agent_name auth, wi_agent_id = uuid_text x (agent_id auth),
           wi_team = team_slug auth, wi_team_id = uuid_text x (team_id auth),
           wi_session = session_label auth, wi_default_channel = map_option snd def,
           wi_unread = unread, wi_claimed = claimed \<rparr>)))"

subsection \<open>The message table\<close>

text \<open>
  What the constraints on \<open>messages\<close> and \<open>agents\<close> keep true: unique ids below the sequence,
  and every message between known agents and channels of its own team.
\<close>

definition message_ok :: "db \<Rightarrow> message_row \<Rightarrow> bool" where
  "message_ok d m \<longleftrightarrow> message_allowed d (m\<lparr>ms_reply_to := None\<rparr>)"

definition wf_messages :: "db \<Rightarrow> bool" where
  "wf_messages d \<longleftrightarrow> distinct (map ag_id (agents d)) \<and> distinct (map ch_id (channels d)) \<and>
     distinct (map ms_id (messages d)) \<and>
     (\<forall>m \<in> set (messages d). ms_id m < message_seq d \<and> message_ok d m)"

lemma message_ok_frame:
  "agents d' = agents d \<Longrightarrow> channels d' = channels d \<Longrightarrow> message_ok d' m = message_ok d m"
  by (simp add: message_ok_def message_allowed_def agent_in_team_def split: option.splits)

lemma wf_insert_message:
  assumes "wf_messages d"
    and "insert_message_stmt x auth tgt body reply metadata announce now d = Some (i, d')"
  shows "wf_messages d'"
proof -
  let ?m = "new_message auth tgt body reply metadata announce (message_seq d) now"
  have d': "messages d' = messages d @ [?m]" "message_seq d' = message_seq d + 1" "message_allowed d ?m"
    using assms(2) by (auto simp: insert_message_stmt_def Let_def split: if_splits)
  have fr: "agents d' = agents d" "channels d' = channels d"
    using insert_message_frame(4,5) [OF assms(2)] by auto
  have "message_ok d ?m" using d'(3) by (auto simp: message_ok_def message_allowed_def)
  then show ?thesis
    using assms(1) d'(1,2) by (auto simp: wf_messages_def message_ok_frame [OF fr] fr)
qed

lemma wf_messages_frame:
  "agents d' = agents d \<Longrightarrow> channels d' = channels d \<Longrightarrow> messages d' = messages d \<Longrightarrow>
   message_seq d' = message_seq d \<Longrightarrow> wf_messages d' = wf_messages d"
  by (simp add: wf_messages_def message_ok_frame [of d' d])

lemma wf_files_added:
  assumes "files_added team i by files d d'" and "wf_messages d"
  shows "wf_messages d'"
proof -
  have "wf_messages d' = wf_messages d"
    using assms(1) by (intro wf_messages_frame) (auto simp: files_added_def)
  with assms(2) show ?thesis by simp
qed

lemma wf_posted:
  assumes "posted x auth tgt body reply metadata announce files d d'" and "wf_messages d"
  shows "wf_messages d'"
proof -
  obtain now where now: "message_allowed d (new_message auth tgt body reply metadata announce (message_seq d) now)"
    "files_added (team_id auth) (message_seq d) (agent_id auth) files
       (fire_message x now (new_message auth tgt body reply metadata announce (message_seq d) now)
         (d\<lparr>messages := messages d @ [new_message auth tgt body reply metadata announce (message_seq d) now],
            message_seq := message_seq d + 1\<rparr>)) d'"
    using assms(1) by (auto simp: posted_def Let_def)
  then have "insert_message_stmt x auth tgt body reply metadata announce now d = Some (message_seq d,
      fire_message x now (new_message auth tgt body reply metadata announce (message_seq d) now)
         (d\<lparr>messages := messages d @ [new_message auth tgt body reply metadata announce (message_seq d) now],
            message_seq := message_seq d + 1\<rparr>))"
    by (simp add: insert_message_stmt_def Let_def)
  from wf_files_added [OF now(2) wf_insert_message [OF assms(2) this]] show ?thesis .
qed


subsection \<open>Rows, ids and limits\<close>

lemma message_view_of_id: "message_view_of d m = Some v \<Longrightarrow> mv_id v = ms_id m"
  by (auto simp: message_view_of_def)

lemma mi_id_message_info_of [simp]: "mi_id (message_info_of v) = mv_id v"
  by (simp add: message_info_of_def)

lemma wf_sender_known:
  assumes "wf_messages d" and "m \<in> set (messages d)"
  obtains v where "message_view_of d m = Some v" "mv_id v = ms_id m"
proof -
  have "agent_in_team d (ms_team m) (ms_sender m)"
    using assms by (auto simp: wf_messages_def message_ok_def message_allowed_def)
  then have "agent_name_of d (ms_sender m) \<noteq> None"
    by (auto simp: agent_in_team_def agent_name_of_def list_ex_iff find_None_iff_set)
  then show thesis using that by (auto simp: message_view_of_def)
qed

lemma map_filter_ids:
  "(\<And>m. m \<in> set ms \<Longrightarrow> \<exists>v. f m = Some v \<and> g v = h m) \<Longrightarrow> map g (List.map_filter f ms) = map h ms"
  by (induction ms) (force simp: List.map_filter_simps split: option.splits)+

text \<open>The ids of what is selected, oldest first.\<close>

definition matching_ids :: "db \<Rightarrow> (message_row \<Rightarrow> bool) \<Rightarrow> int list" where
  "matching_ids d P = map ms_id (order_by ms_id (filter P (messages d)))"

lemma select_messages_ids:
  assumes "wf_messages d"
  shows "map mv_id (select_messages d P) = matching_ids d P"
  unfolding select_messages_def matching_ids_def
proof (rule map_filter_ids)
  fix m assume "m \<in> set (order_by ms_id (filter P (messages d)))"
  then have "m \<in> set (messages d)" by simp
  from wf_sender_known [OF assms this] show "\<exists>v. message_view_of d m = Some v \<and> mv_id v = ms_id m"
    by blast
qed

lemma matching_ids_sorted: "sorted (matching_ids d P)"
  by (simp add: matching_ids_def sorted_order_by)

lemma set_matching_ids: "set (matching_ids d P) = ms_id ` {m \<in> set (messages d). P m}"
  by (auto simp: matching_ids_def)

lemma newest_messages_ids:
  assumes "wf_messages d"
  shows "map mi_id (rev (map message_info_of (newest_messages d n P)))
    = drop (length (matching_ids d P) - nat n) (matching_ids d P)"
proof -
  have "map mi_id (rev (map message_info_of (newest_messages d n P)))
    = rev (take (nat n) (rev (map mv_id (select_messages d P))))"
    by (simp add: newest_messages_def rev_map take_map comp_def)
  then show ?thesis by (simp add: select_messages_ids [OF assms] take_rev)
qed

lemma max_id_Max: "max_id seen ms = (if ms = [] then seen else Max (mi_id ` set ms))"
proof (cases ms)
  case (Cons m rest)
  have "fold max (map mi_id rest) (mi_id m) = Max (set (mi_id m # map mi_id rest))"
    by (simp only: Max.set_eq_fold)
  with Cons show ?thesis by (simp add: max_id_def)
qed (simp add: max_id_def)

lemma max_id_ge: "m \<in> set ms \<Longrightarrow> mi_id m \<le> max_id seen ms"
  by (auto simp: max_id_Max)

subsection \<open>What a read returns\<close>

definition resolved :: "db \<Rightarrow> auth_ctx \<Rightarrow> string \<Rightarrow> scope bus_result" where
  "resolved d auth raw =
     (let s = lower (trim raw)
      in if s \<in> {'''', ''all''} then Inr ScopeAll
         else if s \<in> {''inbox'', ''dm'', ''direct''} then Inr ScopeInbox
         else
           let name = normalize_channel s; key = normalize_channel name in
           and_then (ok_or (find_channel d (team_id auth) key) (NotFound (TextWhy (NoChannel key))))
             (\<lambda>i. Inr (ScopeChannel i name)))"

lemma resolve_scope_quiet: "quiet c \<Longrightarrow> resolve_scope auth raw c = (resolved (data c) auth raw, c)"
  by (simp add: resolve_scope_def resolved_def Let_def quiet_simps split: sum.splits)

definition read_floor :: "externals \<Rightarrow> auth_ctx \<Rightarrow> read_input \<Rightarrow> scope \<Rightarrow> db \<Rightarrow> int" where
  "read_floor x auth input sc d = (if ri_only_new input
     then cursor_at (agent_id auth) (cursor_key_for x sc auth (ri_all_sessions input)) d else 0)"

definition unread_rows :: "externals \<Rightarrow> auth_ctx \<Rightarrow> read_input \<Rightarrow> scope \<Rightarrow> db \<Rightarrow> message_row \<Rightarrow> bool" where
  "unread_rows x auth input sc d m \<longleftrightarrow>
     in_scope sc auth (ri_all_sessions input) m \<and> read_floor x auth input sc d < ms_id m"

definition read_answer :: "externals \<Rightarrow> auth_ctx \<Rightarrow> read_input \<Rightarrow> scope \<Rightarrow> db \<Rightarrow> message_list" where
  "read_answer x auth input sc d =
     (let limit = clamp 1 MAX_LIMIT (ri_limit input);
          rows = newest_messages d limit (unread_rows x auth input sc d);
          ms = rev (map message_info_of rows)
      in \<lparr> ml_messages = ms, ml_scope = scope_label sc,
           ml_cursor = max_id (read_floor x auth input sc d) ms,
           ml_truncated = (int (length rows) = limit) \<rparr>)"

definition read_effect :: "externals \<Rightarrow> auth_ctx \<Rightarrow> read_input \<Rightarrow> scope \<Rightarrow> db \<Rightarrow> db" where
  "read_effect x auth input sc d =
     (let n = ml_cursor (read_answer x auth input sc d)
      in if ri_only_new input \<and> read_floor x auth input sc d < n
         then upsert_cursor (agent_id auth) (cursor_key_for x sc auth (ri_all_sessions input)) n d else d)"

lemma read_messages_quiet:
  assumes "quiet c"
  shows "read_messages x auth input c = (case resolved (data c) auth (ri_scope input) of
      Inl e \<Rightarrow> (Inl e, c)
    | Inr sc \<Rightarrow> (Inr (read_answer x auth input sc (data c)), c\<lparr>data := read_effect x auth input sc (data c)\<rparr>))"
proof (cases "resolved (data c) auth (ri_scope input)")
  case (Inr sc)
  have same: "c\<lparr>data := data c\<rparr> = c" by simp
  have floor: "(if ri_only_new input
      then query (\<lambda>now. cursor_at (agent_id auth) (cursor_key_for x sc auth (ri_all_sessions input)))
      else ret 0) c = (Inr (read_floor x auth input sc (data c)), c)"
    using assms by (simp add: quiet_simps read_floor_def)
  show ?thesis
    using Inr assms
    unfolding read_messages_def
    by (simp add: bind_quiet resolve_scope_quiet Let_def floor)
      (simp add: quiet_simps read_answer_def read_effect_def Let_def unread_rows_def [abs_def] same)
qed (use assms in \<open>simp add: read_messages_def bind_quiet resolve_scope_quiet\<close>)

lemma upsert_cursor_at [simp]:
  "cursor_at agent key (upsert_cursor agent key n d) =
     (case List.find (\<lambda>c. rc_agent c = agent \<and> rc_scope c = key) (cursors d) of
        None \<Rightarrow> n | Some c \<Rightarrow> max (rc_last c) n)"
proof (cases "list_ex (\<lambda>c. rc_agent c = agent \<and> rc_scope c = key) (cursors d)")
  case True
  then have "List.find (\<lambda>c. rc_agent c = agent \<and> rc_scope c = key) (cursors d) \<noteq> None"
    by (auto simp: find_None_iff_set list_ex_iff)
  then obtain c where c: "List.find (\<lambda>c. rc_agent c = agent \<and> rc_scope c = key) (cursors d) = Some c"
    by blast
  have "List.find (\<lambda>c. rc_agent c = agent \<and> rc_scope c = key)
      (update_where (\<lambda>c. rc_agent c = agent \<and> rc_scope c = key) (\<lambda>c. c\<lparr>rc_last := max (rc_last c) n\<rparr>) (cursors d))
    = Some (c\<lparr>rc_last := max (rc_last c) n\<rparr>)"
    using c find_Some_set [OF c] by (subst find_update_where) auto
  with True c show ?thesis by (simp add: cursor_at_def upsert_cursor_def Let_def)
next
  case False
  then have "List.find (\<lambda>c. rc_agent c = agent \<and> rc_scope c = key) (cursors d) = None"
    by (auto simp: find_None_iff_set list_ex_iff)
  with False show ?thesis by (simp add: cursor_at_def upsert_cursor_def Let_def find_append)
qed

lemma read_effect_frame:
  "messages (read_effect x auth input sc d) = messages d"
  "channels (read_effect x auth input sc d) = channels d"
  "agents (read_effect x auth input sc d) = agents d"
  by (simp_all add: read_effect_def upsert_cursor_def Let_def)

lemma read_answer_ids:
  assumes "wf_messages d"
  shows "map mi_id (ml_messages (read_answer x auth input sc d)) =
    (let ids = matching_ids d (unread_rows x auth input sc d)
     in drop (length ids - nat (clamp 1 MAX_LIMIT (ri_limit input))) ids)"
  using newest_messages_ids [OF assms] by (simp add: read_answer_def Let_def)

lemma read_raises_cursor:
  assumes "ri_only_new input" and "m \<in> set (ml_messages (read_answer x auth input sc d))"
    and "wf_messages d"
  shows "mi_id m \<le> cursor_at (agent_id auth) (cursor_key_for x sc auth (ri_all_sessions input))
    (read_effect x auth input sc d)"
proof -
  let ?a = "read_answer x auth input sc d"
  have le: "mi_id m \<le> ml_cursor ?a"
    using assms(2) max_id_ge [of m] by (simp add: read_answer_def Let_def)
  have "mi_id m \<in> set (map mi_id (ml_messages ?a))" using assms(2) by simp
  then have "mi_id m \<in> set (matching_ids d (unread_rows x auth input sc d))"
    unfolding read_answer_ids [OF assms(3)] Let_def by (rule in_set_dropD)
  then have "read_floor x auth input sc d < mi_id m"
    by (auto simp: set_matching_ids unread_rows_def)
  with le assms(1) show ?thesis
    by (auto simp: read_effect_def Let_def split: option.splits)
qed


definition demo_message :: "int \<Rightarrow> message_row" where
  "demo_message i = \<lparr> ms_id = i, ms_team = 7, ms_channel = Some 20, ms_recipient = None,
     ms_recipient_session = None, ms_sender = 2, ms_sender_session = None, ms_announce = False,
     ms_body = ''hello'', ms_reply_to = None, ms_metadata = JObj [], ms_created = 0 \<rparr>"

definition demo_dm :: "int \<Rightarrow> int option \<Rightarrow> message_row" where
  "demo_dm i reply = (demo_message i)\<lparr>ms_channel := None, ms_recipient := Some 1, ms_reply_to := reply\<rparr>"

definition mail_conn :: "message_row list \<Rightarrow> conn" where
  "mail_conn ms = demo_conn\<lparr>data := demo_db\<lparr>messages := ms, message_seq := 100\<rparr>\<rparr>"

definition read_new :: "string \<Rightarrow> int \<Rightarrow> read_input" where
  "read_new s n = \<lparr> ri_scope = s, ri_only_new = True, ri_limit = n, ri_all_sessions = False \<rparr>"

lemma quiet_mail_conn [simp]: "quiet (mail_conn ms)"
  by (simp add: mail_conn_def)

lemma wf_mail_conn: "wf_messages (data (mail_conn [demo_message 1, demo_message 2, demo_dm 3 None]))"
  by (simp add: wf_messages_def mail_conn_def demo_dm_def demo_message_def message_ok_def
      message_allowed_def agent_in_team_def demo_simps)




subsection \<open>Who can read what\<close>

lemma channel_team:
  assumes "wf_messages d" and "find_channel d team name = Some i"
    and "m \<in> set (messages d)" and "ms_channel m = Some i"
  shows "ms_team m = team"
proof -
  obtain ch where ch: "ch \<in> set (channels d)" "ch_team ch = team" "ch_id ch = i"
    using assms(2) by (auto simp: find_channel_def dest: find_Some_set)
  have "\<exists>r \<in> set (channels d). ch_id r = i \<and> ch_team r = ms_team m"
    using assms(1,3,4) by (auto simp: wf_messages_def message_ok_def message_allowed_def list_ex_iff)
  then obtain r where "r \<in> set (channels d)" "ch_id r = i" "ch_team r = ms_team m" by blast
  with ch assms(1) show ?thesis by (metis distinct_key_eq wf_messages_def)
qed

lemma recipient_team:
  assumes "wf_messages d" and "agent_in_team d team a" and "m \<in> set (messages d)" and "ms_recipient m = Some a"
  shows "ms_team m = team"
proof -
  have "agent_in_team d (ms_team m) a"
    using assms(1,3,4) by (auto simp: wf_messages_def message_ok_def message_allowed_def)
  with assms(1,2) show ?thesis
    unfolding agent_in_team_def list_ex_iff wf_messages_def by (metis distinct_key_eq)
qed

definition may_read :: "auth_ctx \<Rightarrow> message_row \<Rightarrow> bool" where
  "may_read auth m \<longleftrightarrow> ms_team m = team_id auth \<and>
     (ms_channel m \<noteq> None \<or> ms_recipient m = Some (agent_id auth) \<or> ms_sender m = agent_id auth)"

lemma in_scope_may_read:
  assumes "wf_messages d" and "agent_in_team d (team_id auth) (agent_id auth)"
    and "resolved d auth raw = Inr sc" and "m \<in> set (messages d)" and "in_scope sc auth all m"
  shows "may_read auth m"
proof (cases sc)
  case (ScopeChannel i name)
  then have "\<exists>n. find_channel d (team_id auth) n = Some i"
    using assms(3) by (auto simp: resolved_def Let_def and_then_Inr split: if_splits)
  with ScopeChannel assms show ?thesis
    using channel_team [OF assms(1)] by (auto simp: may_read_def)
qed (use assms recipient_team [OF assms(1,2,4)] in \<open>auto simp: may_read_def dm_visible_def\<close>)

lemma newest_messages_from:
  assumes "wf_messages d" and "v \<in> set (newest_messages d n P)"
  obtains m where "m \<in> set (messages d)" "P m" "mv_id v = ms_id m"
proof -
  have "v \<in> set (select_messages d P)"
    using assms(2) set_take_subset by (fastforce simp: newest_messages_def)
  then have "mv_id v \<in> set (matching_ids d P)"
    unfolding select_messages_ids [OF assms(1), symmetric] by simp
  then show thesis using that by (auto simp: set_matching_ids)
qed

text \<open>
  C24 (safety). Reading and searching stay within what the caller may read: every message in
  an answer is of the caller's team, and a direct message only if the caller is one of its
  two parties.
\<close>

theorem reads_stay_private:
  assumes "quiet c" and "wf_messages (data c)" and "agent_in_team (data c) (team_id auth) (agent_id auth)"
    and "read_messages x auth input c = (Inr ml, c') \<or> search_messages x auth q n c = (Inr ml, c')"
    and "mi \<in> set (ml_messages ml)"
  shows "\<exists>m \<in> set (messages (data c)). mi_id mi = ms_id m \<and> may_read auth m"
  using assms(4)
proof
  assume "read_messages x auth input c = (Inr ml, c')"
  then obtain sc where sc: "resolved (data c) auth (ri_scope input) = Inr sc"
    "ml = read_answer x auth input sc (data c)"
    unfolding read_messages_quiet [OF assms(1)] by (auto split: sum.splits)
  then obtain v n where "v \<in> set (newest_messages (data c) n (unread_rows x auth input sc (data c)))"
    "mi = message_info_of v"
    using assms(5) by (auto simp: read_answer_def Let_def)
  then show ?thesis
    using in_scope_may_read [OF assms(2,3) sc(1)] newest_messages_from [OF assms(2)]
    by (metis unread_rows_def mi_id_message_info_of)
next
  assume "search_messages x auth q n c = (Inr ml, c')"
  then obtain v where "v \<in> set (newest_messages (data c) (clamp 1 MAX_LIMIT n) (searchable x auth (trim q)))"
    "mi = message_info_of v"
    using assms(1,5) by (auto simp: search_messages_def Let_def quiet_simps split: if_splits)
  then show ?thesis
    using newest_messages_from [OF assms(2)]
    by (metis searchable_def may_read_def mi_id_message_info_of)
qed

theorem reads_stay_private_witness:
  "\<exists>ml c'. read_messages demo_ext ana (read_new ''all'' 2)
      (mail_conn [demo_message 1, demo_message 2, demo_dm 3 None]) = (Inr ml, c') \<and>
    length (ml_messages ml) = 2 \<and> (\<forall>mi \<in> set (ml_messages ml).
      \<exists>m \<in> set (messages (data (mail_conn [demo_message 1, demo_message 2, demo_dm 3 None]))).
        mi_id mi = ms_id m \<and> may_read ana m)"
proof -
  let ?c = "mail_conn [demo_message 1, demo_message 2, demo_dm 3 None]" and ?i = "read_new ''all'' 2"
  let ?ml = "read_answer demo_ext ana ?i ScopeAll (data ?c)"
  have r: "resolved (data ?c) ana (ri_scope ?i) = Inr ScopeAll" by code_simp
  then have run: "read_messages demo_ext ana ?i ?c = (Inr ?ml,
      ?c\<lparr>data := read_effect demo_ext ana ?i ScopeAll (data ?c)\<rparr>)"
    by (simp add: read_messages_quiet)
  have n: "length (ml_messages ?ml) = 2" by code_simp
  have a: "agent_in_team (data ?c) (team_id ana) (agent_id ana)" by code_simp
  show ?thesis
    using run n reads_stay_private [OF quiet_mail_conn wf_mail_conn a disjI1 [OF run]] by blast
qed

subsection \<open>Answers\<close>

lemma find_answer_quiet:
  "quiet c \<Longrightarrow> find_answer auth target ts q c =
     (Inr (map_option message_info_of (select_answer auth target ts q (data c))), c)"
  by (simp add: find_answer_def quiet_simps)

lemma map_filter_total:
  "(\<And>m. m \<in> set ms \<Longrightarrow> f m \<noteq> None) \<Longrightarrow> List.map_filter f ms = map (the \<circ> f) ms"
  by (induction ms) (force simp: List.map_filter_simps split: option.splits)+

lemma order_by_two_hd:
  fixes k1 :: "'a \<Rightarrow> nat" and k2 :: "'a \<Rightarrow> int"
  assumes "order_by k1 (order_by k2 xs) = y # ys" and "z \<in> set xs"
  shows "k1 y < k1 z \<or> (k1 y = k1 z \<and> k2 y \<le> k2 z)"
proof -
  have le: "k1 y \<le> k1 z" using order_by_hd_least [OF assms(1)] assms(2) by simp
  have "filter (\<lambda>x. k1 x = k1 y) (order_by k1 (order_by k2 xs)) = filter (\<lambda>x. k1 x = k1 y) (order_by k2 xs)"
    unfolding order_by_def by (rule sort_key_stable [symmetric, THEN sym])
  then have "y # filter (\<lambda>x. k1 x = k1 y) ys = filter (\<lambda>x. k1 x = k1 y) (order_by k2 xs)"
    unfolding assms(1) by simp
  then obtain zs where zs: "filter (\<lambda>x. k1 x = k1 y) (order_by k2 xs) = y # zs" by metis
  have "sorted (map k2 (y # zs))"
    unfolding zs [symmetric] using sorted_filter [of k2 "order_by k2 xs"] sorted_order_by by blast
  moreover have "z \<in> set (y # zs)" if "k1 z = k1 y"
    unfolding zs [symmetric] using that assms(2) by simp
  ultimately show ?thesis using le by (cases "k1 z = k1 y") auto
qed

lemma select_answer_hd:
  assumes "wf_messages d"
  shows "select_answer auth target ts q d =
    (case order_by (reply_rank q) (order_by ms_id (filter (answers auth target ts q) (messages d))) of
       [] \<Rightarrow> None | m # _ \<Rightarrow> message_view_of d m)"
proof -
  let ?ms = "order_by (reply_rank q) (order_by ms_id (filter (answers auth target ts q) (messages d)))"
  have "message_view_of d m \<noteq> None" if "m \<in> set ?ms" for m
  proof -
    from that have "m \<in> set (messages d)" by simp
    from wf_sender_known [OF assms this] show ?thesis by fastforce
  qed
  then have "List.map_filter (message_view_of d) ?ms = map (the \<circ> message_view_of d) ?ms"
    and "\<And>m ms'. ?ms = m # ms' \<Longrightarrow> message_view_of d m \<noteq> None"
    by (auto intro!: map_filter_total)
  then show ?thesis by (auto simp: select_answer_def split: list.splits)
qed


lemma wf_dms: "wf_messages (data (mail_conn [demo_dm 10 None, demo_dm 11 (Some 5)]))"
  by (simp add: wf_messages_def mail_conn_def demo_dm_def demo_message_def message_ok_def
      message_allowed_def agent_in_team_def demo_simps)


text \<open>
  Without an explicit reply the answer is not always the first direct message
  after the question: a later message that replies to something else sorts before an earlier
  one that replies to nothing.
\<close>

theorem find_answer_prefers_other_reply:
  "map_sum id (map_option mi_id)
     (fst (find_answer ana 2 None 5 (mail_conn [demo_dm 6 None, demo_dm 9 (Some 1)]))) = Inr (Some 9)"
  by code_simp

text \<open>
  With more unread messages than the limit an incremental read returns the
  newest ones and moves the cursor past the others: the next read returns nothing, although
  the first message was never shown.
\<close>

theorem unread_skipped:
  "let c = mail_conn [demo_message 1, demo_message 2];
       (r, c1) = read_messages demo_ext ana (read_new ''all'' 1) c;
       (r', _) = read_messages demo_ext ana (read_new ''all'' 200) c1
   in map_sum id (\<lambda>ml. map mi_id (ml_messages ml)) r = Inr [2] \<and>
      map_sum id (\<lambda>ml. map mi_id (ml_messages ml)) r' = Inr []"
  by code_simp

text \<open>
  Reading everything does not empty the inbox count: after the default read
  has returned a direct message, \<open>whoami\<close> still reports it unread.
\<close>

theorem read_all_keeps_inbox_count:
  "let (r, c1) = read_messages demo_ext ana (read_new ''all'' 50) (mail_conn [demo_dm 3 None]);
       (w, _) = whoami demo_ext ana c1
   in map_sum id (\<lambda>ml. map mi_id (ml_messages ml)) r = Inr [3] \<and> map_sum id wi_unread w = Inr 1"
  by code_simp

definition post_to :: "string \<Rightarrow> post_input" where
  "post_to ch = \<lparr> pi_channel = Some ch, pi_to = None, pi_announce = False, pi_body = ''hi'',
     pi_reply_to = None, pi_metadata = None, pi_attachments = [] \<rparr>"

text \<open>
  Normalising a channel name twice is not normalising it once. A channel created
  as \<open># #dev\<close> is stored as \<open>#dev\<close>; the name \<open>create_channel\<close> answered with is not found by
  \<open>post_message\<close>, and no spelling reads it, because \<open>read_messages\<close> normalises twice.
\<close>

theorem channel_unreadable:
  "let (r, c1) = create_channel 40 ana ''# #dev'' None demo_conn;
       missing = NotFound (TextWhy (NoChannel ''dev''))
   in map_sum id ci_name r = Inr ''#dev'' \<and>
      map_sum id po_delivered_to (fst (post_message demo_ext ana (post_to ''# #dev'') c1)) = Inr [''ana'', ''bob'', ''eve''] \<and>
      map_sum id po_delivered_to (fst (post_message demo_ext ana (post_to ''#dev'') c1)) = Inl missing \<and>
      map_sum id ml_scope (fst (read_messages demo_ext ana (read_new ''#dev'' 50) c1)) = Inl missing \<and>
      map_sum id ml_scope (fst (read_messages demo_ext ana (read_new ''# #dev'' 50) c1)) = Inl missing"
  by code_simp

text \<open>
  A result that has exactly as many messages as the limit is reported as truncated even when
  no other message exists.
\<close>

theorem truncated_without_rest:
  "map_sum id (\<lambda>ml. (map mi_id (ml_messages ml), ml_truncated ml))
     (fst (read_messages demo_ext ana (read_new ''all'' 1) (mail_conn [demo_message 1]))) = Inr ([1], True)"
  by code_simp

end
