(* ===== verification/Events.thy ===== *)
theory Events
  imports Reading
begin

text \<open>
  \<open>events.rs\<close> and \<open>tools/events.rs\<close>: the accessors of a bus event, who may see it, and the
  long poll \<open>wait_for_updates\<close>. A \<open>NOTIFY\<close> payload is the JSON value the triggers of
  \<open>Schema\<close> publish. What a subscription delivers within the deadline is an input of the
  model: a list of received events, a lag, a closed channel or the timer.
\<close>

subsection \<open>Bus events\<close>

type_synonym bus_event = json

definition str_field :: "bus_event \<Rightarrow> string \<Rightarrow> string option" where
  "str_field e k = Option.bind (json_get e k) as_str"

definition ev_kind :: "bus_event \<Rightarrow> string" where
  "ev_kind e = coalesce (str_field e ''kind'')"

definition uuid_field :: "externals \<Rightarrow> bus_event \<Rightarrow> string \<Rightarrow> uuid option" where
  "uuid_field x e k = Option.bind (str_field e k) (uuid_parse x)"

definition ev_team :: "externals \<Rightarrow> bus_event \<Rightarrow> uuid option" where
  "ev_team x e = uuid_field x e ''team_id''"

definition ev_recipient :: "externals \<Rightarrow> bus_event \<Rightarrow> uuid option" where
  "ev_recipient x e = uuid_field x e ''recipient_agent_id''"

definition ev_sender :: "externals \<Rightarrow> bus_event \<Rightarrow> uuid option" where
  "ev_sender x e = uuid_field x e ''sender_agent_id''"

definition ev_channel :: "externals \<Rightarrow> bus_event \<Rightarrow> uuid option" where
  "ev_channel x e = uuid_field x e ''channel_id''"

definition ev_message_id :: "bus_event \<Rightarrow> int option" where
  "ev_message_id e = Option.bind (json_get e ''id'') as_i64"

definition ev_recipient_session :: "bus_event \<Rightarrow> string option" where
  "ev_recipient_session e = str_field e ''recipient_session''"

definition ev_sender_session :: "bus_event \<Rightarrow> string option" where
  "ev_sender_session e = str_field e ''sender_session''"

definition is_announcement :: "bus_event \<Rightarrow> bool" where
  "is_announcement e = (Option.bind (json_get e ''announce'') as_bool = Some True)"

definition is_direct_message :: "externals \<Rightarrow> bus_event \<Rightarrow> bool" where
  "is_direct_message x e \<longleftrightarrow> ev_kind e = ''message'' \<and> ev_recipient x e \<noteq> None"

definition visible_to :: "externals \<Rightarrow> bus_event \<Rightarrow> uuid \<Rightarrow> uuid \<Rightarrow> string \<Rightarrow> bool" where
  "visible_to x e team agent sess =
     (if ev_team x e \<noteq> Some team then False
      else if is_direct_message x e then
        (if ev_sender x e = Some agent then True
         else if ev_recipient x e \<noteq> Some agent then False
         else (case ev_recipient_session e of Some addressed \<Rightarrow> addressed = sess | None \<Rightarrow> True))
      else True)"

subsection \<open>The hub\<close>

text \<open>
  \<open>run_pg_listener\<close>, one attached connection: every notification that parses is published
  to the hub in order, one that does not is dropped, a reconnect is skipped, and an error
  ends the attachment.
\<close>

datatype pg_recv = Notification string | Reconnected | ListenError

fun attached :: "(string \<Rightarrow> json option) \<Rightarrow> pg_recv list \<Rightarrow> bus_event list \<times> pg_recv list" where
  "attached parse [] = ([], [])"
| "attached parse (Notification payload # rs) =
     (let (evs, rest) = attached parse rs
      in (case parse payload of None \<Rightarrow> evs | Some v \<Rightarrow> v # evs, rest))"
| "attached parse (Reconnected # rs) = attached parse rs"
| "attached parse (ListenError # rs) = ([], rs)"

subsection \<open>Filters\<close>

definition DEFAULT_TIMEOUT_SECS :: int where
  "DEFAULT_TIMEOUT_SECS = 25"

definition MAX_TIMEOUT_SECS :: int where
  "MAX_TIMEOUT_SECS = 55"

record wait_args =
  wa_timeout :: "int option"
  wa_kinds :: "string list option"
  wa_all_channels :: bool

definition pending_row :: "auth_ctx \<Rightarrow> uuid option \<Rightarrow> message_row \<Rightarrow> bool" where
  "pending_row auth focus m \<longleftrightarrow> ms_team m = team_id auth \<and>
     \<not> (ms_sender m = agent_id auth \<and> coalesce (ms_sender_session m) = session auth) \<and>
     ((ms_channel m \<noteq> None \<and> (focus = None \<or> ms_channel m = focus \<or> ms_announce m)) \<or>
      (ms_recipient m = Some (agent_id auth) \<and>
       (ms_recipient_session m = None \<or> ms_recipient_session m = Some (session auth))))"

definition unread_dms :: "auth_ctx \<Rightarrow> nat io" where
  "unread_dms auth = query (\<lambda>now d.
     let seen = cursor_at (agent_id auth) (cursor_scope ''inbox'' (session auth)) d
     in length (filter (\<lambda>m. ms_recipient m = Some (agent_id auth) \<and> seen < ms_id m \<and>
          (ms_recipient_session m = None \<or> ms_recipient_session m = Some (session auth))) (messages d)))"

definition unread_anything :: "auth_ctx \<Rightarrow> uuid option \<Rightarrow> nat io" where
  "unread_anything auth focus = query (\<lambda>now d.
     let seen = cursor_at (agent_id auth) (cursor_scope ''all'' (session auth)) d
     in length (filter (\<lambda>m. seen < ms_id m \<and> pending_row auth focus m) (messages d)))"

definition in_focus :: "externals \<Rightarrow> bus_event \<Rightarrow> uuid option \<Rightarrow> bool" where
  "in_focus x e focus =
     (if is_announcement e then True
      else case (focus, ev_channel x e) of
          (Some channel, Some posted_in) \<Rightarrow> channel = posted_in
        | _ \<Rightarrow> True)"

definition wants :: "string list option \<Rightarrow> string \<Rightarrow> bool" where
  "wants kinds kind = (case kinds of None \<Rightarrow> True
     | Some ks \<Rightarrow> kind \<in> set (map (\<lambda>k. lower (trim k)) ks))"

definition own_message :: "externals \<Rightarrow> auth_ctx \<Rightarrow> bus_event \<Rightarrow> bool" where
  "own_message x auth e \<longleftrightarrow> ev_kind e = ''message'' \<and> ev_sender x e = Some (agent_id auth) \<and>
     coalesce (ev_sender_session e) = session auth"

subsection \<open>Descriptions\<close>

record wait_event =
  we_kind :: string
  we_summary :: string

definition arrow :: string where
  "arrow = [CHR '' '', CHR 0xE2, CHR 0x86, CHR 0x92, CHR '' '']"

definition describe_message :: "int \<Rightarrow> db \<Rightarrow> string option" where
  "describe_message i d =
     Option.bind (List.find (\<lambda>m. ms_id m = i) (messages d)) (\<lambda>m.
     map_option (\<lambda>sender.
       let channel = Option.bind (ms_channel m) (channel_name_of d);
           recipient = Option.bind (ms_recipient m) (agent_name_of d);
           target = coalesce (or_keep (map_option (\<lambda>c. CHR ''#'' # c) channel)
                                      (map_option (\<lambda>r. CHR ''@'' # r) recipient))
       in sender @ arrow @ target @ '': '' @ take 200 (ms_body m))
     (agent_name_of d (ms_sender m)))"

definition wait_event_of :: "string \<Rightarrow> string \<Rightarrow> wait_event" where
  "wait_event_of kind summary = \<lparr> we_kind = kind, we_summary = summary \<rparr>"

definition task_holder :: "externals \<Rightarrow> bus_event \<Rightarrow> string io" where
  "task_holder x e = (case str_field e ''claimed_by'' of
       None \<Rightarrow> ret []
     | Some u \<Rightarrow>
         bind_io (attempt (sql (\<lambda>now d. map_option (\<lambda>i. (agent_name_of d i, d)) (uuid_parse x u)))) (\<lambda>r.
         ret (case Option.bind r id of None \<Rightarrow> [] | Some n \<Rightarrow> '' by '' @ n)))"

definition describe :: "externals \<Rightarrow> bus_event \<Rightarrow> wait_event option io" where
  "describe x e =
     (if ev_kind e = ''message'' then
        (case ev_message_id e of
           None \<Rightarrow> ret None
         | Some i \<Rightarrow>
             bind_io (attempt (query (\<lambda>now. describe_message i))) (\<lambda>r.
             ret (map_option (wait_event_of ''message'') (Option.bind r id))))
      else if ev_kind e = ''task'' then
        (case str_field e ''key'' of
           None \<Rightarrow> ret None
         | Some key \<Rightarrow>
             let status = (case str_field e ''status'' of None \<Rightarrow> ''?'' | Some s \<Rightarrow> s) in
             bind_io (task_holder x e) (\<lambda>holder.
             ret (Some (wait_event_of ''task'' (''task '' @ [CHR 0x27] @ key @ [CHR 0x27] @ '' is now '' @ status @ holder)))))
      else if ev_kind e = ''lock'' then
        (case str_field e ''name'' of
           None \<Rightarrow> ret None
         | Some name \<Rightarrow>
             let what = (case str_field e ''event'' of None \<Rightarrow> ''changed'' | Some s \<Rightarrow> s) in
             ret (Some (wait_event_of ''lock'' (''lock '' @ [CHR 0x27] @ name @ [CHR 0x27] @ '' '' @ what))))
      else if ev_kind e = ''note'' then
        (let sc = (case str_field e ''scope'' of None \<Rightarrow> ''global'' | Some s \<Rightarrow> s) in
         case str_field e ''key'' of
           None \<Rightarrow> ret None
         | Some key \<Rightarrow> ret (Some (wait_event_of ''note'' (''note '' @ sc @ ''/'' @ key @ '' was updated''))))
      else ret None)"

datatype suggestion =
    FetchThem | FetchMessages | SeeTasks | RetryLocks | ReadNote | NothingHappened

definition suggestion_for :: "wait_event list \<Rightarrow> nat \<Rightarrow> suggestion" where
  "suggestion_for events unread =
     (if list_ex (\<lambda>e. we_kind e = ''message'') events \<or> 0 < unread then FetchMessages
      else if list_ex (\<lambda>e. we_kind e = ''task'') events then SeeTasks
      else if list_ex (\<lambda>e. we_kind e = ''lock'') events then RetryLocks
      else if list_ex (\<lambda>e. we_kind e = ''note'') events then ReadNote
      else NothingHappened)"

subsection \<open>Waiting\<close>

record wait_result =
  wr_woke :: bool
  wr_timed_out :: bool
  wr_events :: "wait_event list"
  wr_unread :: nat
  wr_suggestion :: suggestion

datatype recv = Received bus_event | Lagged | Closed | TimedOut

definition relevant :: "externals \<Rightarrow> auth_ctx \<Rightarrow> string list option \<Rightarrow> uuid option \<Rightarrow> bus_event \<Rightarrow> bool" where
  "relevant x auth kinds focus e \<longleftrightarrow>
     visible_to x e (team_id auth) (agent_id auth) (session auth) \<and> wants kinds (ev_kind e) \<and>
     in_focus x e focus"

definition in_grace :: "externals \<Rightarrow> auth_ctx \<Rightarrow> string list option \<Rightarrow> uuid option \<Rightarrow> bus_event \<Rightarrow> bool" where
  "in_grace x auth kinds focus e \<longleftrightarrow>
     visible_to x e (team_id auth) (agent_id auth) (session auth) \<and> in_focus x e focus \<and>
     wants kinds (ev_kind e) \<and>
     \<not> (ev_kind e = ''message'' \<and> ev_sender x e = Some (agent_id auth))"

text \<open>The grace window: what arrives within 150 ms after the first event.\<close>

fun grace :: "externals \<Rightarrow> auth_ctx \<Rightarrow> string list option \<Rightarrow> uuid option \<Rightarrow> recv list \<Rightarrow> wait_event list io" where
  "grace x auth kinds focus (Received e # rs) =
     (if in_grace x auth kinds focus e then
        bind_io (describe x e) (\<lambda>r.
        bind_io (grace x auth kinds focus rs) (\<lambda>more.
        ret (case r of None \<Rightarrow> more | Some w \<Rightarrow> w # more)))
      else grace x auth kinds focus rs)"
| "grace x auth kinds focus _ = ret []"

fun wait_loop :: "externals \<Rightarrow> auth_ctx \<Rightarrow> string list option \<Rightarrow> uuid option \<Rightarrow> recv list \<Rightarrow> wait_event list io" where
  "wait_loop x auth kinds focus (Received e # rs) =
     (if \<not> relevant x auth kinds focus e then wait_loop x auth kinds focus rs
      else if own_message x auth e then wait_loop x auth kinds focus rs
      else
        bind_io (describe x e) (\<lambda>r.
        case r of
          None \<Rightarrow> wait_loop x auth kinds focus rs
        | Some w \<Rightarrow> bind_io (grace x auth kinds focus rs) (\<lambda>more. ret (w # more))))"
| "wait_loop x auth kinds focus (Lagged # rs) =
     ret [wait_event_of ''unknown'' ''event stream lagged; re-check the bus'']"
| "wait_loop x auth kinds focus _ = ret []"

text \<open>\<open>arrives t\<close> is what the subscription delivers within \<open>t\<close> seconds.\<close>

definition wait_for_updates ::
  "externals \<Rightarrow> auth_ctx \<Rightarrow> wait_args \<Rightarrow> (int \<Rightarrow> recv list) \<Rightarrow> wait_result io" where
  "wait_for_updates x auth args arrives =
     (let timeout = clamp 5 MAX_TIMEOUT_SECS
            (case wa_timeout args of None \<Rightarrow> DEFAULT_TIMEOUT_SECS | Some t \<Rightarrow> t)
      in bind_io (if wa_all_channels args then ret None
            else bind_io (default_channel auth) (\<lambda>def. ret (map_option fst def))) (\<lambda>focus.
         bind_io (unread_anything auth focus) (\<lambda>pending.
         if 0 < pending \<and> wants (wa_kinds args) ''message'' then
           bind_io (attempt (unread_dms auth)) (\<lambda>dms.
           ret \<lparr> wr_woke = True, wr_timed_out = False,
                 wr_events = [wait_event_of ''message'' (show_nat pending @ '' unread message(s) already waiting'')],
                 wr_unread = (case dms of None \<Rightarrow> 0 | Some n \<Rightarrow> n), wr_suggestion = FetchThem \<rparr>)
         else
           bind_io (wait_loop x auth (wa_kinds args) focus (arrives timeout)) (\<lambda>events.
           bind_io (attempt (unread_dms auth)) (\<lambda>dms.
           let unread = (case dms of None \<Rightarrow> 0 | Some n \<Rightarrow> n)
           in ret \<lparr> wr_woke = (events \<noteq> []), wr_timed_out = (events = []), wr_events = events,
                    wr_unread = unread, wr_suggestion = suggestion_for events unread \<rparr>)))))"

subsection \<open>The event of a message\<close>

lemma payload_kind [simp]: "ev_kind (message_payload x m) = ''message''"
  by (simp add: ev_kind_def str_field_def message_payload_def)

lemma payload_message_id [simp]: "ev_message_id (message_payload x m) = Some (ms_id m)"
  by (simp add: ev_message_id_def message_payload_def)

lemma payload_sessions [simp]:
  "ev_recipient_session (message_payload x m) = ms_recipient_session m"
  "ev_sender_session (message_payload x m) = ms_sender_session m"
  by (cases "ms_recipient_session m"; cases "ms_sender_session m";
      simp add: ev_recipient_session_def ev_sender_session_def str_field_def message_payload_def)+

lemma payload_announce [simp]: "is_announcement (message_payload x m) = ms_announce m"
  by (simp add: is_announcement_def message_payload_def)

lemma payload_uuids:
  assumes "uuid_roundtrip x"
  shows "ev_team x (message_payload x m) = Some (ms_team m)"
    and "ev_sender x (message_payload x m) = Some (ms_sender m)"
    and "ev_recipient x (message_payload x m) = ms_recipient m"
    and "ev_channel x (message_payload x m) = ms_channel m"
proof -
  have u: "uuid_parse x (uuid_text x i) = Some i" for i
    using assms by (simp add: uuid_roundtrip_def)
  show "ev_team x (message_payload x m) = Some (ms_team m)"
    "ev_sender x (message_payload x m) = Some (ms_sender m)"
    by (simp_all add: ev_team_def ev_sender_def uuid_field_def str_field_def message_payload_def u)
  show "ev_recipient x (message_payload x m) = ms_recipient m"
    by (cases "ms_recipient m")
      (simp_all add: ev_recipient_def uuid_field_def str_field_def message_payload_def u)
  show "ev_channel x (message_payload x m) = ms_channel m"
    by (cases "ms_channel m")
      (simp_all add: ev_channel_def uuid_field_def str_field_def message_payload_def u)
qed

text \<open>Exactly one of channel and recipient, as the table's check demands.\<close>

definition one_target :: "message_row \<Rightarrow> bool" where
  "one_target m \<longleftrightarrow> (ms_channel m \<noteq> None) \<noteq> (ms_recipient m \<noteq> None)"

lemma payload_visible:
  assumes "uuid_roundtrip x"
  shows "visible_to x (message_payload x m) team agent sess \<longleftrightarrow>
    ms_team m = team \<and> (ms_recipient m = None \<or> ms_sender m = agent \<or>
      (ms_recipient m = Some agent \<and> (ms_recipient_session m = None \<or> ms_recipient_session m = Some sess)))"
  by (auto simp: visible_to_def is_direct_message_def payload_uuids [OF assms] split: option.splits)

text \<open>
  C26 (equivalence). The event stream and the database agree on who may see a message: the
  \<open>NOTIFY\<close> payload of a stored message is visible to a session exactly when reading with
  scope \<open>all\<close> would return that message to it.
\<close>

theorem visible_is_readable:
  assumes "uuid_roundtrip x" and "one_target m"
  shows "visible_to x (message_payload x m) (team_id auth) (agent_id auth) (session auth) \<longleftrightarrow>
    in_scope ScopeAll auth False m"
  using assms(2) by (auto simp: payload_visible [OF assms(1)] one_target_def dm_visible_def)

theorem visible_is_readable_witness:
  "visible_to demo_ext (message_payload demo_ext (demo_dm 3 None)) 7 1 [] \<longleftrightarrow>
    in_scope ScopeAll ana False (demo_dm 3 None)"
proof -
  have "one_target (demo_dm 3 None)" by (simp add: one_target_def demo_dm_def)
  moreover have "team_id ana = 7" "agent_id ana = 1" "session ana = []" by (simp_all add: ana_def)
  ultimately show ?thesis using visible_is_readable [OF demo_uuid_roundtrip, of "demo_dm 3 None" ana] by simp
qed


definition from_sibling :: message_row where
  "from_sibling = (demo_message 4)\<lparr>ms_channel := None, ms_recipient := Some 2, ms_sender := 1\<rparr>"


subsection \<open>What a wait reports\<close>

lemma describe_quiet:
  assumes "quiet c"
  shows "\<exists>r. describe x e c = (Inr r, c)"
proof -
  have att: "\<exists>r. attempt (query f) c = (Inr r, c)" for f :: "timestamp \<Rightarrow> db \<Rightarrow> string option"
    using assms by (simp add: attempt_def quiet_simps)
  have holder: "\<exists>h. task_holder x e c = (Inr h, c)"
    using assms by (auto simp: task_holder_def attempt_def quiet_simps split: option.splits)
  show ?thesis
    using holder att assms
    by (auto simp: describe_def Let_def quiet_simps attempt_def split: option.splits)
qed

definition described :: "externals \<Rightarrow> bus_event \<Rightarrow> conn \<Rightarrow> wait_event option" where
  "described x e c = (case fst (describe x e c) of Inl err \<Rightarrow> None | Inr r \<Rightarrow> r)"

lemma describe_run: "quiet c \<Longrightarrow> describe x e c = (Inr (described x e c), c)"
  using describe_quiet [of c x e] by (auto simp: described_def)

lemma grace_run:
  assumes "quiet c"
  shows "\<exists>ws. grace x auth kinds focus rs c = (Inr ws, c) \<and>
    (\<forall>w \<in> set ws. \<exists>e. Received e \<in> set rs \<and> relevant x auth kinds focus e \<and> described x e c = Some w)"
proof (induction rs)
  case (Cons r rs)
  then obtain ws where ws: "grace x auth kinds focus rs c = (Inr ws, c)"
    "\<forall>w \<in> set ws. \<exists>e. Received e \<in> set rs \<and> relevant x auth kinds focus e \<and> described x e c = Some w"
    by blast
  show ?case
  proof (cases r)
    case (Received e)
    have "relevant x auth kinds focus e" if "in_grace x auth kinds focus e"
      using that by (simp add: in_grace_def relevant_def)
    with Received ws show ?thesis
      by (auto simp: bind_quiet ret_quiet describe_run [OF assms] split: option.splits)
  qed (simp_all add: ret_quiet)
qed (simp add: ret_quiet)

definition received :: "recv \<Rightarrow> bool" where
  "received r \<longleftrightarrow> (\<exists>e. r = Received e)"

lemma received_simps [simp]:
  "received (Received e)" "\<not> received Lagged" "\<not> received Closed" "\<not> received TimedOut"
  by (simp_all add: received_def)

definition wakes :: "externals \<Rightarrow> auth_ctx \<Rightarrow> string list option \<Rightarrow> uuid option \<Rightarrow> conn \<Rightarrow> bus_event \<Rightarrow> bool" where
  "wakes x auth kinds focus c e \<longleftrightarrow>
     relevant x auth kinds focus e \<and> \<not> own_message x auth e \<and> described x e c \<noteq> None"

lemma wait_loop_run:
  assumes "quiet c"
  shows "\<exists>ws. wait_loop x auth kinds focus rs c = (Inr ws, c) \<and>
    (ws = [] \<longleftrightarrow> (\<forall>e. Received e \<in> set (takeWhile received rs) \<longrightarrow> \<not> wakes x auth kinds focus c e) \<and>
       (\<forall>rest. dropWhile received rs \<noteq> Lagged # rest)) \<and>
    (\<forall>w \<in> set ws. we_kind w = ''unknown'' \<or>
       (\<exists>e. Received e \<in> set rs \<and> relevant x auth kinds focus e \<and> described x e c = Some w))"
proof (induction rs)
  case (Cons r rs)
  then obtain ws where ws: "wait_loop x auth kinds focus rs c = (Inr ws, c)"
    "ws = [] \<longleftrightarrow> (\<forall>e. Received e \<in> set (takeWhile received rs) \<longrightarrow> \<not> wakes x auth kinds focus c e) \<and>
       (\<forall>rest. dropWhile received rs \<noteq> Lagged # rest)"
    "\<forall>w \<in> set ws. we_kind w = ''unknown'' \<or>
       (\<exists>e. Received e \<in> set rs \<and> relevant x auth kinds focus e \<and> described x e c = Some w)"
    by blast
  show ?case
  proof (cases r)
    case (Received e)
    show ?thesis
    proof (cases "wakes x auth kinds focus c e")
      case False
      then have "wait_loop x auth kinds focus (r # rs) c = (Inr ws, c)"
        using Received ws(1)
        by (auto simp: wakes_def bind_quiet describe_run [OF assms])
      moreover have "ws = [] \<longleftrightarrow> (\<forall>e. Received e \<in> set (takeWhile received (r # rs)) \<longrightarrow>
            \<not> wakes x auth kinds focus c e) \<and> (\<forall>rest. dropWhile received (r # rs) \<noteq> Lagged # rest)"
        using False Received ws(2) by auto
      ultimately show ?thesis using ws(3) by auto
    next
      case True
      then obtain w where w: "described x e c = Some w" by (auto simp: wakes_def)
      obtain more where more: "grace x auth kinds focus rs c = (Inr more, c)"
        "\<forall>v \<in> set more. \<exists>e. Received e \<in> set rs \<and> relevant x auth kinds focus e \<and> described x e c = Some v"
        using grace_run [OF assms, of x auth kinds focus rs] by blast
      have "wait_loop x auth kinds focus (r # rs) c = (Inr (w # more), c)"
        using True Received w more(1)
        by (simp add: wakes_def bind_quiet ret_quiet describe_run [OF assms])
      moreover have "Received e \<in> set (takeWhile received (r # rs))" using Received by simp
      moreover have "relevant x auth kinds focus e" using True by (simp add: wakes_def)
      ultimately show ?thesis using True Received w more(2) by (intro exI [of _ "w # more"]) auto
    qed
  qed (simp_all add: ret_quiet wait_event_of_def)
qed (simp add: ret_quiet)


definition all_args :: wait_args where
  "all_args = \<lparr> wa_timeout = None, wa_kinds = None, wa_all_channels = True \<rparr>"


text \<open>
  Once one event has been received, the 150 ms that follow treat the caller's own messages
  by agent, not by session: an announcement from the caller's other window wakes this one
  if it arrives first and is dropped if it arrives second.
\<close>

definition sibling_announcement :: message_row where
  "sibling_announcement = (demo_message 2)\<lparr>ms_sender := 1, ms_announce := True\<rparr>"

theorem grace_drops_sibling:
  "let c = mail_conn [demo_message 1, sibling_announcement];
       from_bob = Received (message_payload demo_ext (demo_message 1));
       from_ana = Received (message_payload demo_ext sibling_announcement)
   in map_sum id length (fst (wait_loop demo_ext ana_web None None [from_ana, from_bob] c)) = Inr 2 \<and>
      map_sum id length (fst (wait_loop demo_ext ana_web None None [from_bob, from_ana] c)) = Inr 1"
  by code_simp

end
