(* ===== verification/Ask.thy ===== *)
theory Ask
  imports Events
begin

text \<open>
  \<open>ask_agent\<close> of \<open>tools/messaging.rs\<close>: post a question (or resume an earlier one) and block
  until the answer or the deadline. As in \<open>Events\<close>, what the subscription delivers within the
  deadline is an input.
\<close>

subsection \<open>The handler\<close>

definition ASK_DEFAULT_TIMEOUT_SECS :: int where
  "ASK_DEFAULT_TIMEOUT_SECS = 45"

definition ASK_MAX_TIMEOUT_SECS :: int where
  "ASK_MAX_TIMEOUT_SECS = 55"

record ask_args =
  aa_to :: string
  aa_question :: "string option"
  aa_timeout :: "int option"
  aa_resume :: "int option"

datatype ask_suggestion = AnswerInInbox | NotAnsweredYet string int int

record ask_result =
  ak_answered :: bool
  ak_to :: string
  ak_question :: int
  ak_answer :: "message_info option"
  ak_suggestion :: ask_suggestion

definition has_another_live_session :: "auth_ctx \<Rightarrow> bool io" where
  "has_another_live_session auth = query (\<lambda>now d.
     list_ex (\<lambda>p. pr_agent p = agent_id auth \<and> pr_session p \<noteq> session auth \<and> now < pr_expires p)
       (presences d))"

definition ask_wakes :: "externals \<Rightarrow> auth_ctx \<Rightarrow> uuid \<Rightarrow> int \<Rightarrow> bus_event \<Rightarrow> bool" where
  "ask_wakes x auth target q e \<longleftrightarrow>
     (let for_us = (case ev_recipient_session e of None \<Rightarrow> True | Some s \<Rightarrow> s = session auth)
      in ev_kind e = ''message'' \<and> ev_sender x e = Some target \<and>
         ev_recipient x e = Some (agent_id auth) \<and>
         (case ev_message_id e of None \<Rightarrow> False | Some i \<Rightarrow> q < i) \<and> for_us)"

text \<open>The inner loop: whether something woke the call, and what is still to be received.\<close>

fun next_wake :: "externals \<Rightarrow> auth_ctx \<Rightarrow> uuid \<Rightarrow> int \<Rightarrow> recv list \<Rightarrow> bool \<times> recv list" where
  "next_wake x auth target q [] = (False, [])"
| "next_wake x auth target q (Received e # rs) =
     (if ask_wakes x auth target q e then (True, rs) else next_wake x auth target q rs)"
| "next_wake x auth target q (Lagged # rs) = (True, rs)"
| "next_wake x auth target q (Closed # rs) = (False, rs)"
| "next_wake x auth target q (TimedOut # rs) = (False, rs)"

lemma next_wake_shorter: "next_wake x auth target q rs = (True, rest) \<Longrightarrow> length rest < length rs"
  by (induction x auth target q rs rule: next_wake.induct) (auto split: if_splits)

function ask_loop ::
  "externals \<Rightarrow> auth_ctx \<Rightarrow> uuid \<Rightarrow> string option \<Rightarrow> int \<Rightarrow> string \<Rightarrow> int \<Rightarrow> recv list \<Rightarrow> ask_result io" where
  "ask_loop x auth target ts q to timeout rs =
     bind_io (find_answer auth target ts q) (\<lambda>found.
     case found of
       Some a \<Rightarrow> ret \<lparr> ak_answered = True, ak_to = to, ak_question = q, ak_answer = Some a,
                      ak_suggestion = AnswerInInbox \<rparr>
     | None \<Rightarrow>
         (case next_wake x auth target q rs of
            (True, rest) \<Rightarrow> ask_loop x auth target ts q to timeout rest
          | (False, _) \<Rightarrow>
              bind_io (find_answer auth target ts q) (\<lambda>last_look.
              ret \<lparr> ak_answered = (last_look \<noteq> None), ak_to = to, ak_question = q,
                    ak_answer = last_look,
                    ak_suggestion = (if last_look \<noteq> None then AnswerInInbox
                                     else NotAnsweredYet to timeout q) \<rparr>)))"
  by pat_completeness auto

termination
  by (relation "measure (\<lambda>(x, auth, target, ts, q, to, timeout, rs). length rs)")
    (use next_wake_shorter in auto)

declare ask_loop.simps [simp del]

definition ask_timeout :: "ask_args \<Rightarrow> int" where
  "ask_timeout args = clamp 5 ASK_MAX_TIMEOUT_SECS
     (case aa_timeout args of None \<Rightarrow> ASK_DEFAULT_TIMEOUT_SECS | Some t \<Rightarrow> t)"

definition check_askable :: "auth_ctx \<Rightarrow> uuid \<Rightarrow> string option \<Rightarrow> unit io" where
  "check_askable auth target ts =
     (if target \<noteq> agent_id auth then ret ()
      else
        bind_io (case ts of
            Some s \<Rightarrow> ret (s = session auth)
          | None \<Rightarrow> bind_io (has_another_live_session auth) (\<lambda>other. ret (\<not> other))) (\<lambda>only_me.
        if only_me then raise (Invalid (MessageWhy NobodyToAnswer)) else ret ()))"

definition question_input :: "string \<Rightarrow> string \<Rightarrow> post_input" where
  "question_input to question = \<lparr> pi_channel = None, pi_to = Some to, pi_announce = False,
     pi_body = question, pi_reply_to = None, pi_metadata = Some (JObj [(''question'', JBool True)]),
     pi_attachments = [] \<rparr>"

definition question_id ::
  "externals \<Rightarrow> auth_ctx \<Rightarrow> ask_args \<Rightarrow> string \<Rightarrow> uuid \<Rightarrow> string option \<Rightarrow> int io" where
  "question_id x auth args to target ts = (case aa_resume args of
       Some i \<Rightarrow> bind_io (verify_question auth target ts i) (\<lambda>_. ret i)
     | None \<Rightarrow>
         (case non_empty (map_option trim (aa_question args)) of
            None \<Rightarrow> raise (Invalid (MessageWhy QuestionMissing))
          | Some question \<Rightarrow>
              bind_io (post_message x auth (question_input to question)) (\<lambda>posted.
              ret (mi_id (po_message posted)))))"

definition ask_agent :: "externals \<Rightarrow> auth_ctx \<Rightarrow> ask_args \<Rightarrow> (int \<Rightarrow> recv list) \<Rightarrow> ask_result io" where
  "ask_agent x auth args arrives =
     (let to = trim (aa_to args); timeout = ask_timeout args
      in bind_io (lift (parse_address to)) (\<lambda>(name, ts).
         bind_io (agent_id_by_name (team_id auth) name) (\<lambda>target.
         bind_io (check_askable auth target ts) (\<lambda>_.
         bind_io (question_id x auth args to target ts) (\<lambda>q.
         ask_loop x auth target ts q to timeout (arrives timeout))))))"

subsection \<open>The wait\<close>

lemma reads_find_answer [reads_intros]: "reads_only (find_answer auth target ts q)"
  by (auto simp: find_answer_def intro!: reads_intros)

lemma reads_ask_loop [reads_intros]: "reads_only (ask_loop x auth target ts q to timeout rs)"
proof (induction x auth target ts q to timeout rs rule: ask_loop.induct)
  case (1 x auth target ts q to timeout rs)
  show ?case
    unfolding ask_loop.simps [of x auth target ts q to timeout rs]
    by (auto intro!: reads_intros 1 split: option.splits prod.splits bool.splits)
qed

lemma find_answer_ticks: "length (sched c) \<le> Suc (length (sched (snd (find_answer auth target ts q c))))"
proof -
  have "length (sched c) \<le> Suc (length (sched (snd (query f c))))" for f :: "timestamp \<Rightarrow> db \<Rightarrow> message_view option"
    by (cases "sched c") (auto simp: query_def sql_def next_tick_def)
  then show ?thesis
    unfolding find_answer_def bind_io_def ret_def
    by (cases "query (\<lambda>now. select_answer auth target ts q) c") (metis (no_types, lifting) case_prod_conv snd_conv
        sum.case_eq_if)
qed


text \<open>
  C30 (liveness). No answer is missed: the event of every message that counts as an answer
  wakes the call, and the lookup that follows, or one made when the message is already
  there, returns an answer at once.
\<close>

theorem answer_is_not_missed:
  assumes "uuid_roundtrip x" and "quiet c" and "wf_messages (data c)"
    and "m \<in> set (messages (data c))" and "answers auth target ts q m"
  shows "ask_wakes x auth target q (message_payload x m) \<and>
    (\<exists>r. ask_loop x auth target ts q to timeout rs c = (Inr r, c) \<and> ak_answered r \<and> ak_question r = q)"
proof
  show "ask_wakes x auth target q (message_payload x m)"
    using assms(5)
    by (auto simp: ask_wakes_def answers_def payload_uuids [OF assms(1)] split: option.splits)
  have "order_by (reply_rank q) (order_by ms_id (filter (answers auth target ts q) (messages (data c)))) \<noteq> []"
    using assms(4,5) by (auto simp: filter_empty_conv)
  then obtain m' ms where ms: "order_by (reply_rank q)
      (order_by ms_id (filter (answers auth target ts q) (messages (data c)))) = m' # ms"
    by (meson neq_Nil_conv)
  then have "m' \<in> set (order_by (reply_rank q)
      (order_by ms_id (filter (answers auth target ts q) (messages (data c)))))" by simp
  then have "m' \<in> set (messages (data c))" by simp
  from wf_sender_known [OF assms(3) this] obtain v where "message_view_of (data c) m' = Some v" by blast
  then have "select_answer auth target ts q (data c) = Some v"
    using ms by (simp add: select_answer_hd [OF assms(3)])
  then show "\<exists>r. ask_loop x auth target ts q to timeout rs c = (Inr r, c) \<and> ak_answered r \<and> ak_question r = q"
    using assms(2)
    by (simp add: ask_loop.simps [of x auth target ts q to timeout rs] bind_quiet find_answer_quiet ret_quiet)
qed

theorem answer_is_not_missed_witness:
  "ask_wakes demo_ext ana 2 5 (message_payload demo_ext (demo_dm 10 None)) \<and>
   (\<exists>r. ask_loop demo_ext ana 2 None 5 ''bob'' 45 [] (mail_conn [demo_dm 10 None, demo_dm 11 (Some 5)])
      = (Inr r, mail_conn [demo_dm 10 None, demo_dm 11 (Some 5)]) \<and> ak_answered r)"
proof -
  have "demo_dm 10 None \<in> set (messages (data (mail_conn [demo_dm 10 None, demo_dm 11 (Some 5)])))"
    by (simp add: mail_conn_def)
  moreover have "answers ana 2 None 5 (demo_dm 10 None)" by code_simp
  ultimately show ?thesis
    using answer_is_not_missed [OF demo_uuid_roundtrip quiet_mail_conn wf_dms] by blast
qed

subsection \<open>One question\<close>

definition asked :: "externals \<Rightarrow> auth_ctx \<Rightarrow> ask_args \<Rightarrow> db \<Rightarrow> db \<Rightarrow> bool" where
  "asked x auth args d d' \<longleftrightarrow> aa_resume args = None \<and>
     (\<exists>tgt question. aa_question args \<noteq> None \<and> question = trim (the (aa_question args)) \<and>
        posted x auth tgt question None (JObj [(''question'', JBool True)]) False [] d d')"

lemma reads_check_askable [reads_intros]: "reads_only (check_askable auth target ts)"
  by (auto simp: check_askable_def has_another_live_session_def intro!: reads_intros split: option.splits)

lemma reads_verify_question [reads_intros]: "reads_only (verify_question auth target ts q)"
  by (auto simp: verify_question_def intro!: reads_intros)

lemma valid_question_id:
  "valid (=) (\<lambda>d. d = d0) (question_id x auth args to target ts)
     (\<lambda>r d. d = d0 \<or> asked x auth args d0 d)"
proof (cases "aa_resume args")
  case (Some i)
  have "reads_only (question_id x auth args to target ts)"
    by (auto simp: question_id_def Some intro!: reads_intros)
  from reads_onlyD [OF this] show ?thesis by (rule valid_conseq) auto
next
  case None
  show ?thesis
  proof (cases "non_empty (map_option trim (aa_question args))")
    case None': None
    show ?thesis by (simp add: question_id_def None None' valid_raise)
  next
    case (Some question)
    then have "aa_question args \<noteq> None" "question = trim (the (aa_question args))"
      by (auto simp: non_empty_def split: option.splits if_splits)
    then have ask: "asked x auth args d0 d"
      if "posted x auth tgt question None (JObj [(''question'', JBool True)]) False [] d0 d" for tgt d
      using that None unfolding asked_def by blast
    have "valid (=) (\<lambda>d. d = d0) (post_message x auth (question_input to question))
        (\<lambda>r d. d = d0 \<or> asked x auth args d0 d)"
      by (rule valid_conseq [OF valid_post_message], assumption)
        (use ask \<open>question = _\<close> in \<open>auto simp: question_input_def metadata_or_empty_def split: sum.splits\<close>)
    then show ?thesis
      by (auto simp: question_id_def None Some intro!: valid_bind valid_ret)
  qed
qed

text \<open>
  C31 (safety). One call sends at most one message: whatever fails and however it ends,
  \<open>ask_agent\<close> either leaves the database as it was or has posted exactly its question, and a
  resumed call posts nothing.
\<close>

theorem ask_sends_once:
  assumes "rely (=) c"
  shows "data (snd (ask_agent x auth args arrives c)) = data c \<or>
    asked x auth args (data c) (data (snd (ask_agent x auth args arrives c)))"
proof -
  have "valid (=) (\<lambda>d. d = data c) (ask_agent x auth args arrives)
      (\<lambda>r d. d = data c \<or> asked x auth args (data c) d)"
    unfolding ask_agent_def Let_def
    by (auto intro!: reads_then_valid reads_intros valid_bind [OF valid_question_id]
        reads_onlyD [OF reads_ask_loop] split: prod.splits)
  from validD [OF this assms] show ?thesis by simp
qed

definition ask_bob :: ask_args where
  "ask_bob = \<lparr> aa_to = ''bob'', aa_question = Some ''ready?'', aa_timeout = None, aa_resume = None \<rparr>"

theorem ask_sends_once_witness:
  "asked demo_ext ana ask_bob demo_db (data (snd (ask_agent demo_ext ana ask_bob (\<lambda>t. []) demo_conn)))"
proof -
  have "rely (=) demo_conn" by (simp add: rely_def demo_conn_def)
  moreover have "data demo_conn = demo_db" by (simp add: demo_conn_def)
  moreover have "length (messages (data (snd (ask_agent demo_ext ana ask_bob (\<lambda>t. []) demo_conn)))) = 1"
    by code_simp
  moreover have "messages demo_db = []" by (simp add: demo_db_def empty_db_def)
  ultimately show ?thesis
    using ask_sends_once [of demo_conn demo_ext ana ask_bob "\<lambda>t. []"] by auto
qed

end
