(* ===== verification/Notes.thy ===== *)
theory Notes
  imports Samples
begin

text \<open>
  \<open>store/notes.rs\<close>: the team's durable notes under a scope and a key, with an append-only
  list of revisions. The upsert, the revision and the read-back of \<open>set_note\<close> are three
  separate statements.
\<close>

subsection \<open>Names and rows\<close>

definition MAX_VALUE_BYTES :: nat where
  "MAX_VALUE_BYTES = 1024 * 1024"

definition MAX_TAGS :: nat where
  "MAX_TAGS = 16"

definition MAX_TAG_BYTES :: nat where
  "MAX_TAG_BYTES = 64"

definition MAX_NOTE_LIMIT :: int where
  "MAX_NOTE_LIMIT = 200"

record note_info =
  ni_scope :: string
  ni_key :: string
  ni_value :: string
  ni_tags :: "string list"
  ni_updated_by :: "string option"
  ni_updated :: timestamp

text \<open>\<open>NOTE_SELECT\<close> and the conversion of its row.\<close>

definition note_info_of :: "db \<Rightarrow> note_row \<Rightarrow> note_info" where
  "note_info_of d n = \<lparr> ni_scope = nt_scope n, ni_key = nt_key n, ni_value = nt_value n,
     ni_tags = nt_tags n, ni_updated_by = Option.bind (nt_updated_by n) (agent_name_of d),
     ni_updated = nt_updated n \<rparr>"

definition clean_word :: "string \<Rightarrow> string" where
  "clean_word s = lower (trim s)"

definition normalize_scope :: "string option \<Rightarrow> string" where
  "normalize_scope sc = (case non_empty (map_option clean_word sc) of None \<Rightarrow> ''global'' | Some s \<Rightarrow> s)"

definition note_key :: "uuid \<Rightarrow> string \<Rightarrow> string \<Rightarrow> note_row \<Rightarrow> bool" where
  "note_key team sc key n \<longleftrightarrow> nt_team n = team \<and> nt_scope n = sc \<and> nt_key n = key"

definition find_note :: "db \<Rightarrow> uuid \<Rightarrow> string \<Rightarrow> string \<Rightarrow> note_row option" where
  "find_note d team sc key = List.find (note_key team sc key) (note_table d)"

subsection \<open>Writing\<close>

record set_input =
  si_scope :: "string option"
  si_key :: string
  si_value :: string
  si_tags :: "string list option"

definition clean_tags :: "string list option \<Rightarrow> string list" where
  "clean_tags ts = filter (\<lambda>t. t \<noteq> []) (map clean_word (case ts of None \<Rightarrow> [] | Some l \<Rightarrow> l))"

definition upsert_note_stmt ::
  "externals \<Rightarrow> uuid \<Rightarrow> auth_ctx \<Rightarrow> string \<Rightarrow> string \<Rightarrow> string \<Rightarrow> string list \<Rightarrow> timestamp \<Rightarrow> db
     \<Rightarrow> (uuid \<times> db) option" where
  "upsert_note_stmt x fresh auth sc key val tags now d =
     (case find_note d (team_id auth) sc key of
        None \<Rightarrow>
          (let n = \<lparr> nt_id = fresh, nt_team = team_id auth, nt_scope = sc, nt_key = key,
                     nt_value = val, nt_tags = tags, nt_updated_by = Some (agent_id auth),
                     nt_updated = now \<rparr>
           in if list_ex (\<lambda>m. nt_id m = fresh) (note_table d) then None
              else Some (fresh, fire_note x now n (d\<lparr>note_table := note_table d @ [n]\<rparr>)))
      | Some old \<Rightarrow>
          (let n = old\<lparr>nt_value := val, nt_tags := tags, nt_updated_by := Some (agent_id auth),
                       nt_updated := now\<rparr>
           in Some (nt_id old, fire_note x now n
                (d\<lparr>note_table := update_where (note_key (team_id auth) sc key) (\<lambda>_. n) (note_table d)\<rparr>))))"

text \<open>The revision, whose foreign key needs the note.\<close>

definition insert_revision_stmt :: "uuid \<Rightarrow> string \<Rightarrow> uuid \<Rightarrow> timestamp \<Rightarrow> db \<Rightarrow> (unit \<times> db) option" where
  "insert_revision_stmt i val by now d =
     (if list_ex (\<lambda>n. nt_id n = i) (note_table d)
      then Some ((), d\<lparr>revisions := revisions d @ [\<lparr> rv_id = revision_seq d, rv_note = i,
             rv_value = val, rv_updated_by = Some by, rv_created = now \<rparr>],
           revision_seq := revision_seq d + 1\<rparr>)
      else None)"

record note_ref =
  nr_scope :: string
  nr_key :: string
  nr_found :: bool
  nr_note :: "note_info option"

definition get_note :: "auth_ctx \<Rightarrow> string option \<Rightarrow> string \<Rightarrow> note_ref io" where
  "get_note auth sc raw =
     (let s = normalize_scope sc; key = trim raw
      in bind_io (query (\<lambda>now d. map_option (note_info_of d) (find_note d (team_id auth) s key))) (\<lambda>row.
         ret \<lparr> nr_scope = s, nr_key = key, nr_found = (row \<noteq> None), nr_note = row \<rparr>))"

fun check_tags :: "string list \<Rightarrow> unit bus_result" where
  "check_tags [] = Inr ()"
| "check_tags (t # ts) = and_then (check_text ''note tag'' t MAX_TAG_BYTES) (\<lambda>_. check_tags ts)"

definition set_note :: "externals \<Rightarrow> uuid \<Rightarrow> auth_ctx \<Rightarrow> set_input \<Rightarrow> note_info io" where
  "set_note x fresh auth input =
     (let sc = normalize_scope (si_scope input);
          key = trim (si_key input);
          tags = clean_tags (si_tags input)
      in if key = [] then raise (Invalid (NoteWhy NoteKeyEmpty))
         else if MAX_VALUE_BYTES < length (si_value input)
         then raise (Invalid (NoteWhy (NoteTooLong (length (si_value input)))))
         else if MAX_TAGS < length tags then raise (Invalid (NoteWhy (TooManyTags (length tags))))
         else
           bind_io (lift (check_tags tags)) (\<lambda>_.
           bind_io (sql (upsert_note_stmt x fresh auth sc key (si_value input) tags)) (\<lambda>i.
           bind_io (sql (insert_revision_stmt i (si_value input) (agent_id auth))) (\<lambda>_.
           bind_io (get_note auth (Some sc) key) (\<lambda>r.
           lift (ok_or (nr_note r) (NotFound (NoteWhy NoteVanished))))))))"

record note_ack =
  na_ok :: bool
  na_scope :: string
  na_key :: string

text \<open>Deleting a note deletes its revisions.\<close>

definition delete_note_stmt :: "uuid \<Rightarrow> string \<Rightarrow> string \<Rightarrow> db \<Rightarrow> bool \<times> db" where
  "delete_note_stmt team sc key d =
     (let gone = filter (note_key team sc key) (note_table d); ids = map nt_id gone
      in (gone \<noteq> [], d\<lparr>note_table := filter (\<lambda>n. \<not> note_key team sc key n) (note_table d),
            revisions := filter (\<lambda>r. rv_note r \<notin> set ids) (revisions d)\<rparr>))"

definition delete_note :: "auth_ctx \<Rightarrow> string option \<Rightarrow> string \<Rightarrow> note_ack io" where
  "delete_note auth sc raw =
     (let s = normalize_scope sc; key = trim raw
      in bind_io (execute (\<lambda>now. delete_note_stmt (team_id auth) s key)) (\<lambda>deleted.
         ret \<lparr> na_ok = deleted, na_scope = s, na_key = key \<rparr>))"

subsection \<open>Listing and searching\<close>

definition note_filter :: "uuid \<Rightarrow> string option \<Rightarrow> string option \<Rightarrow> note_row \<Rightarrow> bool" where
  "note_filter team sc tag n \<longleftrightarrow> nt_team n = team \<and>
     (case sc of None \<Rightarrow> True | Some s \<Rightarrow> nt_scope n = s) \<and>
     (case tag of None \<Rightarrow> True | Some t \<Rightarrow> t \<in> set (nt_tags n))"

definition list_notes :: "auth_ctx \<Rightarrow> string option \<Rightarrow> string option \<Rightarrow> int \<Rightarrow> note_info list io" where
  "list_notes auth sc tag n =
     (let limit = clamp 1 MAX_NOTE_LIMIT n;
          s = non_empty (map_option clean_word sc); t = non_empty (map_option clean_word tag)
      in query (\<lambda>now d. map (note_info_of d) (take (nat limit)
           (order_by nt_scope (order_by nt_key (filter (note_filter (team_id auth) s t) (note_table d)))))))"

definition search_notes ::
  "externals \<Rightarrow> auth_ctx \<Rightarrow> string \<Rightarrow> string option \<Rightarrow> int \<Rightarrow> note_info list io" where
  "search_notes x auth raw sc n =
     (let q = trim raw
      in if q = [] then raise (Invalid (TextWhy QueryEmpty))
         else
           let limit = clamp 1 MAX_NOTE_LIMIT n; s = non_empty (map_option clean_word sc)
           in query (\<lambda>now d. map (note_info_of d) (take (nat limit)
                (order_by (\<lambda>m. - nt_updated m)
                  (filter (\<lambda>m. note_filter (team_id auth) s None m \<and>
                       text_match x (nt_key m @ '' '' @ nt_value m) q) (note_table d))))))"

subsection \<open>Scopes\<close>

lemma clean_word_idem [simp]: "clean_word (clean_word s) = clean_word s"
  by (simp add: clean_word_def)

lemma normalize_scope_idem: "normalize_scope (Some (normalize_scope sc)) = normalize_scope sc"
proof (cases "non_empty (map_option clean_word sc)")
  case None
  have "clean_word ''global'' = ''global''" by code_simp
  with None show ?thesis by (simp add: normalize_scope_def)
next
  case (Some s)
  then have "s \<noteq> []" "clean_word s = s"
    by (auto simp: non_empty_def split: option.splits if_splits)
  with Some show ?thesis by (simp add: normalize_scope_def)
qed

interpretation note_scopes: canonical_names "\<lambda>s. Inr (normalize_scope (Some s)) :: unit + string"
  by standard (auto simp: normalize_scope_idem)

text \<open>
  The unique key of the table, ids included, and what the statements do to it.
\<close>

definition wf_notes :: "db \<Rightarrow> bool" where
  "wf_notes d \<longleftrightarrow> distinct (map (\<lambda>n. (nt_team n, nt_scope n, nt_key n)) (note_table d)) \<and>
     distinct (map nt_id (note_table d))"

lemma find_note_SomeD:
  "find_note d team sc key = Some n \<Longrightarrow> n \<in> set (note_table d) \<and> note_key team sc key n"
  by (auto simp: find_note_def dest: find_Some_set)

lemma upsert_note_finds:
  assumes "upsert_note_stmt x fresh auth sc key val tags now d = Some (i, d')"
  shows "\<exists>n. find_note d' (team_id auth) sc key = Some n \<and> nt_id n = i \<and> nt_value n = val \<and>
     nt_tags n = tags \<and> nt_updated_by n = Some (agent_id auth) \<and> nt_updated n = now \<and>
     note_key (team_id auth) sc key n"
proof (cases "find_note d (team_id auth) sc key")
  case None
  with assms show ?thesis
    by (auto simp: upsert_note_stmt_def Let_def find_note_def find_append note_key_def split: if_splits)
next
  case (Some old)
  let ?n = "old\<lparr>nt_value := val, nt_tags := tags, nt_updated_by := Some (agent_id auth), nt_updated := now\<rparr>"
  have k: "note_key (team_id auth) sc key ?n"
    using find_note_SomeD [OF Some] by (simp add: note_key_def)
  have "List.find (note_key (team_id auth) sc key)
      (update_where (note_key (team_id auth) sc key) (\<lambda>_. ?n) (note_table d)) = Some ?n"
    using Some k find_note_SomeD [OF Some] by (subst find_update_where) (auto simp: find_note_def)
  with Some k assms show ?thesis
    by (auto simp: upsert_note_stmt_def Let_def find_note_def)
qed

lemma upsert_note_frame:
  assumes "upsert_note_stmt x fresh auth sc key val tags now d = Some (i, d')"
  shows "revisions d' = revisions d" "agents d' = agents d"
  using assms by (auto simp: upsert_note_stmt_def Let_def split: option.splits if_splits)

lemma get_note_quiet:
  "quiet c \<Longrightarrow> get_note auth sc key c =
     (let row = map_option (note_info_of (data c)) (find_note (data c) (team_id auth) (normalize_scope sc) (trim key))
      in (Inr \<lparr> nr_scope = normalize_scope sc, nr_key = trim key, nr_found = (row \<noteq> None), nr_note = row \<rparr>, c))"
  by (simp add: get_note_def Let_def quiet_simps)

text \<open>
  C32 (roundtrip). A note that was set is read back by every teammate under every spelling of
  its scope and key: the value, the tags and the author of the last write, and the write has
  left its revision.
\<close>

theorem set_note_roundtrip:
  assumes "quiet c" and "trim (si_key input) \<noteq> []" and "length (si_value input) \<le> MAX_VALUE_BYTES"
    and "length (clean_tags (si_tags input)) \<le> MAX_TAGS" and "check_tags (clean_tags (si_tags input)) = Inr ()"
    and "team_id reader = team_id auth" and "normalize_scope sc = normalize_scope (si_scope input)"
    and "trim key = trim (si_key input)" and "fresh \<notin> nt_id ` set (note_table (data c))"
  shows "\<exists>ni d. set_note x fresh auth input c = (Inr ni, c\<lparr>data := d\<rparr>) \<and>
    ni_value ni = si_value input \<and> ni_tags ni = clean_tags (si_tags input) \<and>
    ni_updated_by ni = agent_name_of (data c) (agent_id auth) \<and>
    map_sum id nr_note (fst (get_note reader sc key (c\<lparr>data := d\<rparr>))) = Inr (Some ni) \<and>
    map rv_value (revisions d) = map rv_value (revisions (data c)) @ [si_value input]"
proof -
  let ?sc = "normalize_scope (si_scope input)" and ?key = "trim (si_key input)"
  have "upsert_note_stmt x fresh auth ?sc ?key (si_value input) (clean_tags (si_tags input))
      (clock c) (data c) \<noteq> None"
    using assms(9) by (auto simp: upsert_note_stmt_def Let_def list_ex_iff split: option.split)
  then obtain i d1 where up: "upsert_note_stmt x fresh auth ?sc ?key (si_value input)
      (clean_tags (si_tags input)) (clock c) (data c) = Some (i, d1)" by fastforce
  from upsert_note_finds [OF up] obtain n where n: "find_note d1 (team_id auth) ?sc ?key = Some n"
    "nt_id n = i" "nt_value n = si_value input" "nt_tags n = clean_tags (si_tags input)"
    "nt_updated_by n = Some (agent_id auth)" by blast
  let ?d = "d1\<lparr>revisions := revisions d1 @ [\<lparr> rv_id = revision_seq d1, rv_note = i,
     rv_value = si_value input, rv_updated_by = Some (agent_id auth), rv_created = clock c \<rparr>],
     revision_seq := revision_seq d1 + 1\<rparr>"
  have "list_ex (\<lambda>m. nt_id m = i) (note_table d1)"
    using n(2) find_note_SomeD [OF n(1)] by (auto simp: list_ex_iff)
  then have rev: "insert_revision_stmt i (si_value input) (agent_id auth) (clock c) d1 = Some ((), ?d)"
    by (simp add: insert_revision_stmt_def)
  have found: "find_note ?d (team_id auth) ?sc ?key = Some n" using n(1) by (simp add: find_note_def)
  have "set_note x fresh auth input c = (Inr (note_info_of ?d n), c\<lparr>data := ?d\<rparr>)"
    using assms(1-5) up rev found
    by (simp add: set_note_def Let_def not_less quiet_simps lift_def get_note_quiet normalize_scope_idem)
  moreover have "map_sum id nr_note (fst (get_note reader sc key (c\<lparr>data := ?d\<rparr>))) = Inr (Some (note_info_of ?d n))"
    using assms(1,6-8) found by (simp add: get_note_quiet Let_def)
  moreover have "ni_updated_by (note_info_of ?d n) = agent_name_of (data c) (agent_id auth)"
    using n(5) upsert_note_frame [OF up] by (simp add: note_info_of_def agent_name_of_def)
  ultimately show ?thesis
    using n(3,4) upsert_note_frame [OF up]
    by (intro exI [of _ "note_info_of ?d n"] exI [of _ ?d]) (simp add: note_info_of_def)
qed

definition runbook :: set_input where
  "runbook = \<lparr> si_scope = Some '' API '', si_key = '' deploy '', si_value = ''v1'',
     si_tags = Some ['' Infra ''] \<rparr>"

theorem set_note_roundtrip_witness:
  "\<exists>ni d. set_note demo_ext 60 ana runbook demo_conn = (Inr ni, demo_conn\<lparr>data := d\<rparr>) \<and>
    map_sum id nr_note (fst (get_note bob (Some ''api'') ''deploy'' (demo_conn\<lparr>data := d\<rparr>))) = Inr (Some ni) \<and>
    ni_value ni = ''v1''"
proof -
  have "trim (si_key runbook) \<noteq> []" "length (si_value runbook) \<le> MAX_VALUE_BYTES"
    "length (clean_tags (si_tags runbook)) \<le> MAX_TAGS" "check_tags (clean_tags (si_tags runbook)) = Inr ()"
    "team_id bob = team_id ana" "normalize_scope (Some ''api'') = normalize_scope (si_scope runbook)"
    "trim ''deploy'' = trim (si_key runbook)" "si_value runbook = ''v1''"
    "60 \<notin> nt_id ` set (note_table (data demo_conn))"
    by code_simp+
  then show ?thesis
    using set_note_roundtrip [where c = demo_conn and input = runbook and reader = bob and auth = ana
        and sc = "Some ''api''" and key = "''deploy''" and x = demo_ext and fresh = 60] by auto
qed

text \<open>
  The upsert and its revision are not one transaction: when the second statement fails, the
  call answers with an error, the value has been overwritten, and no revision of it exists.
\<close>

definition failing_revision :: "db \<Rightarrow> conn" where
  "failing_revision d = demo_conn\<lparr>data := d, sched :=
     [\<lparr> fails = False, takes = 0, others = id \<rparr>, \<lparr> fails = True, takes = 0, others = id \<rparr>]\<rparr>"

theorem overwrite_without_revision:
  "let d = data (snd (set_note demo_ext 60 ana runbook demo_conn));
       (r, c) = set_note demo_ext 61 bob (runbook\<lparr>si_value := ''v2''\<rparr>) (failing_revision d)
   in map_sum id ni_value r = Inl Db \<and> map nt_value (note_table (data c)) = [''v2''] \<and>
      map rv_value (revisions (data c)) = [''v1'']"
  by code_simp

end
