(* ===== verification/Webhooks.thy ===== *)
theory Webhooks
  imports Messaging "HOL-Library.Multiset"
begin

text \<open>
  \<open>webhooks.rs\<close>: the delivery outbox. A dispatcher claims due deliveries under a hold of
  sixty seconds, posts them, records the outcome with exponential backoff and retires old
  rows. What the receivers answer is a parameter; so are the rows that concurrent claims
  keep locked.
\<close>

subsection \<open>Claiming\<close>

definition MAX_ATTEMPTS :: int where
  "MAX_ATTEMPTS = 6"

definition BATCH :: nat where
  "BATCH = 32"

definition PRUNE_INTERVAL :: timestamp where
  "PRUNE_INTERVAL = seconds 600"

definition KEEP_SENT :: timestamp where
  "KEEP_SENT = seconds (24 * 3600)"

definition KEEP_FAILED :: timestamp where
  "KEEP_FAILED = seconds (7 * 24 * 3600)"

record delivery =
  cd_id :: int
  cd_url :: string
  cd_kind :: string
  cd_summary :: string
  cd_payload :: json
  cd_attempts :: int

definition delivery_of :: "db \<Rightarrow> delivery_row \<Rightarrow> delivery option" where
  "delivery_of d r = map_option (\<lambda>w. \<lparr> cd_id = dl_id r, cd_url = wh_url w, cd_kind = wh_kind w,
     cd_summary = dl_summary r, cd_payload = dl_payload r, cd_attempts = dl_attempts r \<rparr>)
     (List.find (\<lambda>w. wh_id w = dl_webhook r) (webhooks d))"

definition due :: "timestamp \<Rightarrow> delivery_row \<Rightarrow> bool" where
  "due now r \<longleftrightarrow> dl_status r = Pending \<and> dl_next r \<le> now"

text \<open>\<open>FOR UPDATE SKIP LOCKED\<close>: the rows in \<open>skip\<close> are locked by another claim.\<close>

definition due_ids :: "int list \<Rightarrow> timestamp \<Rightarrow> db \<Rightarrow> int list" where
  "due_ids skip now d = map dl_id (take BATCH (order_by dl_next (order_by dl_id
     (filter (\<lambda>r. due now r \<and> dl_id r \<notin> set skip) (deliveries d)))))"

definition hold_row :: "timestamp \<Rightarrow> delivery_row \<Rightarrow> delivery_row" where
  "hold_row now r = r\<lparr>dl_attempts := dl_attempts r + 1, dl_next := now + seconds 60, dl_updated := now\<rparr>"

definition claim_deliveries :: "int list \<Rightarrow> timestamp \<Rightarrow> db \<Rightarrow> delivery list \<times> db" where
  "claim_deliveries skip now d =
     (let taken = due_ids skip now d;
          hit = (\<lambda>r. dl_id r \<in> set taken \<and> delivery_of d r \<noteq> None)
      in (List.map_filter (delivery_of d) (map (hold_row now) (filter hit (deliveries d))),
          d\<lparr>deliveries := update_where hit (hold_row now) (deliveries d)\<rparr>))"

definition claim :: "int list \<Rightarrow> delivery list io" where
  "claim skip = execute (claim_deliveries skip)"

subsection \<open>Sending\<close>

definition body_for :: "string \<Rightarrow> string \<Rightarrow> json \<Rightarrow> json" where
  "body_for kind summary payload =
     (if kind = ''slack'' then JObj [(''text'', JStr summary)]
      else if kind = ''discord'' then JObj [(''content'', JStr summary)]
      else payload)"

text \<open>A response with its status code and the code's rendering, or the client's error.\<close>

datatype http_result = Answered nat string | NotSent string

definition set_delivery :: "int \<Rightarrow> (delivery_row \<Rightarrow> delivery_row) \<Rightarrow> db \<Rightarrow> db" where
  "set_delivery i f d = d\<lparr>deliveries := update_where (\<lambda>r. dl_id r = i) f (deliveries d)\<rparr>"

definition sent_row :: "timestamp \<Rightarrow> delivery_row \<Rightarrow> delivery_row" where
  "sent_row now r = r\<lparr>dl_status := Sent, dl_error := None, dl_updated := now\<rparr>"

definition mark_sent :: "int \<Rightarrow> unit option io" where
  "mark_sent i = attempt (execute (\<lambda>now d. ((), set_delivery i (sent_row now) d)))"

definition backoff :: "int \<Rightarrow> int" where
  "backoff attempts = min (min (2 ^ nat (clamp 1 8 attempts)) (2 ^ 63 - 1)) 600"

definition failed_row :: "int \<Rightarrow> string \<Rightarrow> timestamp \<Rightarrow> delivery_row \<Rightarrow> delivery_row" where
  "failed_row attempts err now r =
     r\<lparr>dl_status := (if MAX_ATTEMPTS \<le> attempts then Failed else Pending),
       dl_next := now + seconds (backoff attempts), dl_error := Some (take 500 err), dl_updated := now\<rparr>"

definition mark_failed :: "int \<Rightarrow> int \<Rightarrow> string \<Rightarrow> unit option io" where
  "mark_failed i attempts err =
     attempt (execute (\<lambda>now d. ((), set_delivery i (failed_row attempts err now) d)))"

definition success :: "http_result \<Rightarrow> bool" where
  "success r = (case r of Answered s t \<Rightarrow> 200 \<le> s \<and> s < 300 | NotSent e \<Rightarrow> False)"

definition permanent :: "nat \<Rightarrow> bool" where
  "permanent s \<longleftrightarrow> 400 \<le> s \<and> s < 500 \<and> s \<noteq> 408 \<and> s \<noteq> 429"

definition send_one :: "http_result \<Rightarrow> delivery \<Rightarrow> unit option io" where
  "send_one r cd = (case r of
       Answered s t \<Rightarrow>
         if 200 \<le> s \<and> s < 300 then mark_sent (cd_id cd)
         else mark_failed (cd_id cd) (if permanent s then MAX_ATTEMPTS else cd_attempts cd) (''HTTP '' @ t)
     | NotSent e \<Rightarrow> mark_failed (cd_id cd) (cd_attempts cd) e)"

text \<open>
  The requests of a batch run concurrently and each records its own outcome; here in the
  order of the list, which \<open>send_order_irrelevant\<close> shows does not matter. The result is the
  log of posts: what was sent where, and how it ended.
\<close>

record post =
  po_delivery :: delivery
  po_body :: json
  po_result :: http_result

definition send_batch :: "(delivery \<Rightarrow> http_result) \<Rightarrow> delivery list \<Rightarrow> post list io" where
  "send_batch net = each (\<lambda>cd.
     bind_io (send_one (net cd) cd) (\<lambda>_.
     ret \<lparr> po_delivery = cd, po_body = body_for (cd_kind cd) (cd_summary cd) (cd_payload cd),
           po_result = net cd \<rparr>))"

subsection \<open>The dispatcher\<close>

definition retired :: "timestamp \<Rightarrow> delivery_row \<Rightarrow> bool" where
  "retired now r \<longleftrightarrow> (dl_status r = Sent \<and> dl_updated r < now - KEEP_SENT) \<or>
     (dl_status r = Failed \<and> dl_updated r < now - KEEP_FAILED)"

definition prune_deliveries :: "unit option io" where
  "prune_deliveries = attempt (execute (\<lambda>now d.
     ((), d\<lparr>deliveries := filter (\<lambda>r. \<not> retired now r) (deliveries d)\<rparr>)))"

text \<open>
  What ends a wait: the token is cancelled, the hub is gone, or after some time an event
  or the poll interval. The wake-ups are an input; the wait is over when they run out.
\<close>

datatype wake = Cancel | HubClosed | After nat

datatype stop = Returned | StillWaiting | OutOfFuel

definition wait_for :: "nat \<Rightarrow> conn \<Rightarrow> conn" where
  "wait_for k c = c\<lparr>clock := clock c + int k\<rparr>"

definition maybe_prune :: "timestamp \<Rightarrow> conn \<Rightarrow> timestamp \<times> conn" where
  "maybe_prune last_prune c =
     (if PRUNE_INTERVAL \<le> clock c - last_prune then (clock c, snd (prune_deliveries c)) else (last_prune, c))"

definition log_posts :: "post list bus_result \<Rightarrow> post list" where
  "log_posts r = (case r of Inl e \<Rightarrow> [] | Inr ps \<Rightarrow> ps)"

fun run_dispatcher ::
  "nat \<Rightarrow> (delivery \<Rightarrow> http_result) \<Rightarrow> wake list \<Rightarrow> timestamp \<Rightarrow> conn \<Rightarrow> (post list \<times> stop) \<times> conn" where
  "run_dispatcher 0 net ws lp c = (([], OutOfFuel), c)"
| "run_dispatcher (Suc n) net ws lp c =
     (let (lp1, c1) = maybe_prune lp c;
          (r, c2) = claim [] c1;
          batch = (case r of Inl e \<Rightarrow> [] | Inr b \<Rightarrow> b)
      in if batch \<noteq> [] then
           (let (ps, c3) = send_batch net batch c2;
                ((qs, stop), c4) = run_dispatcher n net ws lp1 c3
            in ((log_posts ps @ qs, stop), c4))
         else (case ws of
             [] \<Rightarrow> (([], StillWaiting), c2)
           | After k # ws' \<Rightarrow> run_dispatcher n net ws' lp1 (wait_for k c2)
           | _ # ws' \<Rightarrow> (([], Returned), c2)))"


subsection \<open>One round\<close>

definition outcome_row :: "http_result \<Rightarrow> delivery \<Rightarrow> timestamp \<Rightarrow> delivery_row \<Rightarrow> delivery_row" where
  "outcome_row r cd now = (case r of
       Answered s t \<Rightarrow>
         if 200 \<le> s \<and> s < 300 then sent_row now
         else failed_row (if permanent s then MAX_ATTEMPTS else cd_attempts cd) (''HTTP '' @ t) now
     | NotSent e \<Rightarrow> failed_row (cd_attempts cd) e now)"

definition post_of :: "(delivery \<Rightarrow> http_result) \<Rightarrow> delivery \<Rightarrow> post" where
  "post_of net cd = \<lparr> po_delivery = cd, po_body = body_for (cd_kind cd) (cd_summary cd) (cd_payload cd),
     po_result = net cd \<rparr>"

definition settle :: "(delivery \<Rightarrow> http_result) \<Rightarrow> timestamp \<Rightarrow> delivery \<Rightarrow> db \<Rightarrow> db" where
  "settle net now cd = set_delivery (cd_id cd) (outcome_row (net cd) cd now)"

lemma row_updates [simp]:
  "dl_id (hold_row now r) = dl_id r" "dl_id (outcome_row q cd now r) = dl_id r"
  "dl_webhook (hold_row now r) = dl_webhook r" "dl_webhook (outcome_row q cd now r) = dl_webhook r"
  "dl_status (hold_row now r) = dl_status r" "dl_attempts (hold_row now r) = dl_attempts r + 1"
  "dl_attempts (outcome_row q cd now r) = dl_attempts r"
  by (simp_all add: hold_row_def outcome_row_def sent_row_def failed_row_def split: http_result.split)

lemma send_one_quiet:
  "quiet c \<Longrightarrow> send_one (net cd) cd c = (Inr (Some ()), c\<lparr>data := settle net (clock c) cd (data c)\<rparr>)"
  by (cases "net cd")
    (simp_all add: send_one_def mark_sent_def mark_failed_def attempt_def execute_quiet settle_def
      outcome_row_def)

lemma send_batch_quiet:
  "quiet c \<Longrightarrow> send_batch net batch c =
     (Inr (map (post_of net) batch), c\<lparr>data := fold (settle net (clock c)) batch (data c)\<rparr>)"
proof (induction batch arbitrary: c)
  case (Cons cd batch)
  then show ?case
    by (simp add: send_batch_def bind_quiet send_one_quiet ret_def post_of_def)
qed (simp add: send_batch_def ret_def)

lemma settle_simps [simp]:
  "webhooks (settle net now cd d) = webhooks d"
  "deliveries (settle net now cd d) =
     update_where (\<lambda>r. dl_id r = cd_id cd) (outcome_row (net cd) cd now) (deliveries d)"
  by (simp_all add: settle_def set_delivery_def)

lemma fold_settle:
  assumes "distinct (map cd_id batch)"
  shows "webhooks (fold (settle net now) batch d) = webhooks d \<and>
    deliveries (fold (settle net now) batch d) =
     map (\<lambda>r. case List.find (\<lambda>cd. cd_id cd = dl_id r) batch of
         None \<Rightarrow> r | Some cd \<Rightarrow> outcome_row (net cd) cd now r) (deliveries d)"
  using assms
proof (induction batch arbitrary: d)
  case (Cons cd batch)
  have *: "List.find (\<lambda>b. cd_id b = cd_id cd) batch = None"
    using Cons.prems by (simp add: find_None_iff_set) (metis image_eqI)
  have IH: "deliveries (fold (settle net now) batch (settle net now cd d)) =
     map (\<lambda>r. case List.find (\<lambda>cd. cd_id cd = dl_id r) batch of
         None \<Rightarrow> r | Some cd \<Rightarrow> outcome_row (net cd) cd now r) (deliveries (settle net now cd d))"
    using Cons by simp
  show ?case using Cons
    by (simp add: IH update_where_def *)
qed simp

text \<open>The requests of a batch may finish in any order.\<close>

theorem send_order_irrelevant:
  assumes "quiet c" and "distinct (map cd_id batch)" and "mset batch' = mset batch"
  shows "deliveries (data (snd (send_batch net batch' c))) = deliveries (data (snd (send_batch net batch c)))"
proof -
  have d': "distinct (map cd_id batch')"
    using assms(2,3) by (metis mset_map mset_eq_imp_distinct_iff)
  have "List.find (\<lambda>cd. cd_id cd = i) batch' = List.find (\<lambda>cd. cd_id cd = i) batch" for i
  proof (cases "\<exists>cd \<in> set batch. cd_id cd = i")
    case True
    then obtain cd where "cd \<in> set batch" "cd_id cd = i" by blast
    moreover have "cd \<in> set batch'" using calculation(1) assms(3) by (metis mset_eq_setD)
    ultimately show ?thesis using d' assms(2) by (metis find_unique)
  next
    case False
    moreover have "set batch' = set batch" using assms(3) by (rule mset_eq_setD)
    ultimately have "List.find (\<lambda>cd. cd_id cd = i) batch' = None" "List.find (\<lambda>cd. cd_id cd = i) batch = None"
      by (auto simp: find_None_iff_set)
    then show ?thesis by simp
  qed
  then show ?thesis
    using fold_settle [OF d'] fold_settle [OF assms(2)] by (simp add: send_batch_quiet assms(1))
qed


text \<open>
  The outbox is well formed: unique ids, every delivery has its webhook, and what is pending
  has attempts left.
\<close>

definition wf_outbox :: "db \<Rightarrow> bool" where
  "wf_outbox d \<longleftrightarrow> distinct (map dl_id (deliveries d)) \<and>
     (\<forall>r \<in> set (deliveries d). (\<exists>w \<in> set (webhooks d). wh_id w = dl_webhook r) \<and>
        (dl_status r = Pending \<longrightarrow> 0 \<le> dl_attempts r \<and> dl_attempts r < MAX_ATTEMPTS))"

text \<open>What a claim at \<open>now\<close> and its posts make of one row.\<close>

definition posted_row :: "(delivery \<Rightarrow> http_result) \<Rightarrow> timestamp \<Rightarrow> db \<Rightarrow> delivery_row \<Rightarrow> delivery_row" where
  "posted_row net now d r =
     (let h = hold_row now r; cd = the (delivery_of d h) in outcome_row (net cd) cd now h)"

definition taken :: "timestamp \<Rightarrow> db \<Rightarrow> delivery_row \<Rightarrow> bool" where
  "taken now d r \<longleftrightarrow> dl_id r \<in> set (due_ids [] now d)"

definition round_db :: "(delivery \<Rightarrow> http_result) \<Rightarrow> timestamp \<Rightarrow> db \<Rightarrow> db" where
  "round_db net now d =
     fold (settle net now) (fst (claim_deliveries [] now d)) (snd (claim_deliveries [] now d))"

lemma delivery_of_wf:
  "wf_outbox d \<Longrightarrow> r \<in> set (deliveries d) \<Longrightarrow> delivery_of d r \<noteq> None \<and> delivery_of d (hold_row now r) \<noteq> None"
  by (auto simp: wf_outbox_def delivery_of_def find_None_iff_set)

lemma delivery_of_id: "delivery_of d r = Some cd \<Longrightarrow> cd_id cd = dl_id r \<and> cd_attempts cd = dl_attempts r"
  by (auto simp: delivery_of_def)

lemma due_ids_due:
  assumes "distinct (map dl_id (deliveries d))" and "r \<in> set (deliveries d)" and "dl_id r \<in> set (due_ids skip now d)"
  shows "due now r \<and> dl_id r \<notin> set skip"
proof -
  obtain r' where r': "r' \<in> set (deliveries d)" "dl_id r' = dl_id r" "due now r'" "dl_id r' \<notin> set skip"
    using assms(3) by (auto simp: due_ids_def dest!: in_set_takeD)
  then have "r' = r" using assms(1,2) by (metis distinct_map inj_on_eq_iff)
  with r' show ?thesis by simp
qed

lemma claim_wf:
  assumes "wf_outbox d"
  shows "fst (claim_deliveries [] now d) =
      map (\<lambda>r. the (delivery_of d (hold_row now r))) (filter (taken now d) (deliveries d))"
    and "snd (claim_deliveries [] now d) =
      d\<lparr>deliveries := map (\<lambda>r. if taken now d r then hold_row now r else r) (deliveries d)\<rparr>"
proof -
  have hit: "filter (\<lambda>r. dl_id r \<in> set (due_ids [] now d) \<and> delivery_of d r \<noteq> None) (deliveries d) =
      filter (taken now d) (deliveries d)"
    using delivery_of_wf [OF assms] by (auto simp: taken_def intro!: filter_cong)
  have some: "delivery_of d (hold_row now r) \<noteq> None" if "r \<in> set (filter (taken now d) (deliveries d))" for r
    using that delivery_of_wf [OF assms] by auto
  have "List.map_filter (delivery_of d) (map (hold_row now) rs) =
      map (\<lambda>r. the (delivery_of d (hold_row now r))) rs" if "\<forall>r \<in> set rs. delivery_of d (hold_row now r) \<noteq> None" for rs
    using that by (induction rs) (auto simp: List.map_filter_def)
  then show "fst (claim_deliveries [] now d) =
      map (\<lambda>r. the (delivery_of d (hold_row now r))) (filter (taken now d) (deliveries d))"
    using some by (simp only: claim_deliveries_def Let_def hit fst_conv) blast
  have "update_where (\<lambda>r. dl_id r \<in> set (due_ids [] now d) \<and> delivery_of d r \<noteq> None) (hold_row now) (deliveries d) =
      map (\<lambda>r. if taken now d r then hold_row now r else r) (deliveries d)"
    using delivery_of_wf [OF assms] by (auto simp: update_where_def taken_def)
  then show "snd (claim_deliveries [] now d) =
      d\<lparr>deliveries := map (\<lambda>r. if taken now d r then hold_row now r else r) (deliveries d)\<rparr>"
    by (simp add: claim_deliveries_def Let_def)
qed

lemma batch_ids:
  assumes "wf_outbox d"
  shows "map cd_id (fst (claim_deliveries [] now d)) = map dl_id (filter (taken now d) (deliveries d))"
  using delivery_of_wf [OF assms] delivery_of_id
  by (auto simp: claim_wf [OF assms])

lemma batch_distinct:
  "wf_outbox d \<Longrightarrow> distinct (map cd_id (fst (claim_deliveries [] now d)))"
  by (simp add: batch_ids wf_outbox_def distinct_map_filter)

lemma batch_find:
  assumes wf: "wf_outbox d" and r: "r \<in> set (deliveries d)"
  shows "List.find (\<lambda>cd. cd_id cd = dl_id r) (fst (claim_deliveries [] now d)) =
    (if taken now d r then delivery_of d (hold_row now r) else None)"
proof (cases "taken now d r")
  case True
  have some: "delivery_of d (hold_row now r) = Some (the (delivery_of d (hold_row now r)))"
    using delivery_of_wf [OF wf r, of now] by simp
  then have "the (delivery_of d (hold_row now r)) \<in> set (fst (claim_deliveries [] now d))"
    using True r by (auto simp: claim_wf [OF wf])
  moreover have "cd_id (the (delivery_of d (hold_row now r))) = dl_id r"
    using delivery_of_id [OF some] by simp
  ultimately show ?thesis using find_unique [OF batch_distinct [OF wf]] True some by metis
next
  case False
  have "dl_id r \<notin> set (map dl_id (filter (taken now d) (deliveries d)))"
    using False by (auto simp: taken_def)
  then have "dl_id r \<notin> cd_id ` set (fst (claim_deliveries [] now d))"
    by (metis batch_ids [OF wf] list.set_map)
  then show ?thesis using False by (simp add: find_None_iff_set) (metis image_eqI)
qed

lemma round_rows:
  assumes wf: "wf_outbox d"
  shows "webhooks (round_db net now d) = webhooks d \<and>
    deliveries (round_db net now d) =
      map (\<lambda>r. if taken now d r then posted_row net now d r else r) (deliveries d)"
proof -
  have "(case List.find (\<lambda>cd. cd_id cd = dl_id r) (fst (claim_deliveries [] now d)) of
         None \<Rightarrow> if taken now d r then hold_row now r else r
       | Some cd \<Rightarrow> outcome_row (net cd) cd now (if taken now d r then hold_row now r else r)) =
      (if taken now d r then posted_row net now d r else r)" if "r \<in> set (deliveries d)" for r
    using batch_find [OF wf that] delivery_of_wf [OF wf that, of now]
    by (auto simp: posted_row_def Let_def)
  then show ?thesis
    using fold_settle [OF batch_distinct [OF wf], of net now now "snd (claim_deliveries [] now d)"]
    by (auto simp: round_db_def claim_wf(2) [OF wf] if_distrib [of dl_id] cong: if_cong)
qed


definition final_post :: "post \<Rightarrow> bool" where
  "final_post p \<longleftrightarrow> success (po_result p) \<or> MAX_ATTEMPTS \<le> cd_attempts (po_delivery p) \<or>
     (\<exists>s t. po_result p = Answered s t \<and> permanent s)"

lemma backoff_bounds:
  "1 \<le> a \<Longrightarrow> a < MAX_ATTEMPTS \<Longrightarrow> 2 \<le> backoff a \<and> backoff a \<le> 32"
proof -
  assume "1 \<le> a" and "a < MAX_ATTEMPTS"
  then have "a \<in> {1, 2, 3, 4, 5}" by (auto simp: MAX_ATTEMPTS_def)
  then show ?thesis by (auto simp: backoff_def clamp_def)
qed

lemma posted_row_cases:
  assumes wf: "wf_outbox d" and r: "r \<in> set (deliveries d)" and t: "taken now d r"
    and cd: "delivery_of d (hold_row now r) = Some cd"
  shows "due now r \<and> cd_id cd = dl_id r \<and>
    (if dl_status (posted_row net now d r) = Pending
     then dl_attempts (posted_row net now d r) = dl_attempts r + 1 \<and> dl_attempts r + 1 < MAX_ATTEMPTS \<and>
       now < dl_next (posted_row net now d r) \<and> dl_next (posted_row net now d r) \<le> now + seconds 32
     else final_post (post_of net cd))"
proof -
  have due: "due now r"
    using due_ids_due [of d r "[]" now] wf r t by (auto simp: wf_outbox_def taken_def)
  have a: "0 \<le> dl_attempts r" "dl_attempts r < MAX_ATTEMPTS"
    using wf r due by (auto simp: wf_outbox_def due_def)
  have id: "cd_id cd = dl_id r" "cd_attempts cd = dl_attempts r + 1"
    using delivery_of_id [OF cd] by simp_all
  have b: "2 \<le> backoff (dl_attempts r + 1) \<and> backoff (dl_attempts r + 1) \<le> 32"
    if "dl_attempts r + 1 < MAX_ATTEMPTS" using backoff_bounds that a by simp
  show ?thesis
    using due id b
    by (cases "net cd")
      (auto simp: posted_row_def cd outcome_row_def sent_row_def failed_row_def final_post_def
        post_of_def success_def seconds_def)
qed

lemma taken_none: "wf_outbox d \<Longrightarrow> filter (taken now d) (deliveries d) = [] \<Longrightarrow>
    snd (claim_deliveries [] now d) = d"
  by (simp add: claim_wf filter_empty_conv cong: map_cong)

text \<open>An empty claim means that nothing is due: the limit only cuts what a full batch leaves.\<close>

lemma taken_none_due:
  assumes "filter (taken now d) (deliveries d) = []" and "r \<in> set (deliveries d)"
  shows "\<not> due now r"
proof
  assume "due now r"
  let ?o = "order_by dl_next (order_by dl_id (filter (\<lambda>r. due now r \<and> dl_id r \<notin> set []) (deliveries d)))"
  have "?o \<noteq> []" using \<open>due now r\<close> assms(2) by (auto simp: filter_empty_conv)
  then obtain h hs where o: "?o = h # hs" by (cases ?o) auto
  then have "h \<in> set ?o" by simp
  then have "h \<in> set (deliveries d)" by (simp only: set_order_by set_filter) blast
  moreover have "dl_id h \<in> set (due_ids [] now d)" using o by (simp add: due_ids_def BATCH_def)
  ultimately show False using assms(1) by (auto simp: filter_empty_conv taken_def)
qed

lemma pruned_row: "retired now r \<Longrightarrow> dl_status r \<noteq> Pending"
  by (auto simp: retired_def)

lemma maybe_prune_quiet:
  assumes "quiet c" and "maybe_prune lp c = (lp1, c1)"
  shows "c1 = c \<or>
    c1 = c\<lparr>data := (data c)\<lparr>deliveries := filter (\<lambda>r. \<not> retired (clock c) r) (deliveries (data c))\<rparr>\<rparr>"
  using assms
  by (cases "PRUNE_INTERVAL \<le> clock c - lp")
    (auto simp: maybe_prune_def prune_deliveries_def attempt_def execute_quiet)

declare run_dispatcher.simps(2) [simp del]

lemma run_dispatcher_step:
  assumes q: "quiet c" and p: "maybe_prune lp c = (lp1, c1)" and wf: "wf_outbox (data c1)"
  shows "run_dispatcher (Suc n) net ws lp c =
    (if filter (taken (clock c1) (data c1)) (deliveries (data c1)) = [] then
       (case ws of [] \<Rightarrow> (([], StillWaiting), c1)
          | After k # ws' \<Rightarrow> run_dispatcher n net ws' lp1 (wait_for k c1)
          | _ # ws' \<Rightarrow> (([], Returned), c1))
     else (let ((qs, stop), c4) = run_dispatcher n net ws lp1 (c1\<lparr>data := round_db net (clock c1) (data c1)\<rparr>)
           in ((map (post_of net) (fst (claim_deliveries [] (clock c1) (data c1))) @ qs, stop), c4)))"
proof -
  have "quiet c1" using maybe_prune_quiet [OF q p] q by (metis quiet_update)
  then show ?thesis
    using taken_none [OF wf, of "clock c1"] claim_wf(1) [OF wf, of "clock c1"]
    by (cases "filter (taken (clock c1) (data c1)) (deliveries (data c1)) = []")
      (auto simp: run_dispatcher.simps(2) p Let_def claim_def execute_quiet send_batch_quiet round_db_def log_posts_def
        split: prod.split list.split wake.split)
qed


subsection \<open>Every delivery is tried at most six times\<close>

definition row_tries :: "int \<Rightarrow> delivery_row \<Rightarrow> nat" where
  "row_tries i r =
     (if dl_id r = i \<and> dl_status r = Pending then nat (MAX_ATTEMPTS - dl_attempts r) else 0)"

definition tries_left :: "int \<Rightarrow> db \<Rightarrow> nat" where
  "tries_left i d = sum_list (map (row_tries i) (deliveries d))"

definition posts_of :: "int \<Rightarrow> post list \<Rightarrow> post list" where
  "posts_of i ps = filter (\<lambda>p. cd_id (po_delivery p) = i) ps"

lemma round_row_wf:
  assumes wf: "wf_outbox d" and r: "r \<in> set (deliveries d)" and t: "taken now d r"
  shows "dl_id (posted_row net now d r) = dl_id r \<and> dl_webhook (posted_row net now d r) = dl_webhook r \<and>
    (dl_status (posted_row net now d r) = Pending \<longrightarrow> dl_status r = Pending \<and> 0 \<le> dl_attempts r \<and>
       dl_attempts (posted_row net now d r) = dl_attempts r + 1 \<and> dl_attempts r + 1 < MAX_ATTEMPTS)"
proof -
  obtain cd where cd: "delivery_of d (hold_row now r) = Some cd" using delivery_of_wf [OF wf r] by blast
  have "dl_status r = Pending \<longrightarrow> 0 \<le> dl_attempts r" using wf r by (simp add: wf_outbox_def)
  moreover note posted_row_cases [OF wf r t cd, of net]
  ultimately show ?thesis by (auto simp: posted_row_def Let_def due_def split: if_splits)
qed

lemma wf_round:
  assumes "wf_outbox d"
  shows "wf_outbox (round_db net now d)"
proof -
  have "map dl_id (deliveries (round_db net now d)) = map dl_id (deliveries d)"
    using round_rows [OF assms] round_row_wf [OF assms] by auto
  then have "distinct (map dl_id (deliveries (round_db net now d)))"
    using assms by (metis wf_outbox_def)
  then show ?thesis
    using assms round_rows [OF assms, of net now] round_row_wf [OF assms]
    by (auto simp: wf_outbox_def)
qed

lemma sum_list_filter_le: "sum_list (map f (filter P xs)) \<le> sum_list (map f xs)" for f :: "'a \<Rightarrow> nat"
  by (induction xs) auto

lemma wf_pruned:
  assumes "quiet c" and "maybe_prune lp c = (lp1, c1)" and "wf_outbox (data c)"
  shows "wf_outbox (data c1) \<and> quiet c1 \<and> clock c1 = clock c \<and>
    length (deliveries (data c1)) \<le> length (deliveries (data c)) \<and>
    set (deliveries (data c1)) \<subseteq> set (deliveries (data c)) \<and>
    (\<forall>r \<in> set (deliveries (data c)). dl_status r = Pending \<longrightarrow> r \<in> set (deliveries (data c1))) \<and>
    tries_left i (data c1) \<le> tries_left i (data c)"
  using maybe_prune_quiet [OF assms(1,2)]
proof
  assume "c1 = c\<lparr>data := (data c)\<lparr>deliveries := filter (\<lambda>r. \<not> retired (clock c) r) (deliveries (data c))\<rparr>\<rparr>"
  then show ?thesis using assms(1,3) pruned_row
    by (auto simp: wf_outbox_def distinct_map_filter tries_left_def sum_list_filter_le)
qed (use assms in auto)

lemma count_down:
  fixes w :: "'a \<Rightarrow> nat"
  assumes "\<forall>r \<in> set rs. (if P r then 1 else 0) + w (f r) \<le> w r"
  shows "length (filter P rs) + sum_list (map w (map f rs)) \<le> sum_list (map w rs)"
  using assms by (induction rs) (auto split: if_splits)

lemma batch_posts:
  assumes wf: "wf_outbox d"
  shows "length (posts_of i (map (post_of net) (fst (claim_deliveries [] now d)))) + tries_left i (round_db net now d)
    \<le> tries_left i d"
proof -
  let ?f = "\<lambda>r. if taken now d r then posted_row net now d r else r"
  have "length (posts_of i (map (post_of net) b)) = length (filter (\<lambda>j. j = i) (map cd_id b))" for b
    by (induction b) (auto simp: posts_of_def post_of_def)
  also have "filter (\<lambda>j. j = i) (map cd_id (fst (claim_deliveries [] now d))) =
      filter (\<lambda>j. j = i) (map dl_id (filter (taken now d) (deliveries d)))"
    by (simp only: batch_ids [OF wf])
  finally have len: "length (posts_of i (map (post_of net) (fst (claim_deliveries [] now d)))) =
      length (filter (\<lambda>r. taken now d r \<and> dl_id r = i) (deliveries d))"
    by (simp add: filter_map o_def conj_commute)
  have "\<forall>r \<in> set (deliveries d). (if taken now d r \<and> dl_id r = i then 1 else 0) + row_tries i (?f r) \<le> row_tries i r"
  proof
    fix r assume r: "r \<in> set (deliveries d)"
    obtain cd where cd: "delivery_of d (hold_row now r) = Some cd" using delivery_of_wf [OF wf r] by blast
    have "dl_status r = Pending \<and> dl_attempts r < MAX_ATTEMPTS" if "taken now d r"
      using posted_row_cases [OF wf r that cd] wf r by (auto simp: wf_outbox_def due_def)
    then show "(if taken now d r \<and> dl_id r = i then 1 else 0) + row_tries i (?f r) \<le> row_tries i r"
      using round_row_wf [OF wf r, of now net] by (auto simp: row_tries_def)
  qed
  from count_down [OF this] show ?thesis
    using round_rows [OF wf, of net now] by (simp add: len tries_left_def)
qed

lemma tries_left_le: "wf_outbox d \<Longrightarrow> tries_left i d \<le> 6"
proof -
  assume wf: "wf_outbox d"
  have "sum_list (map (row_tries i) rs) \<le> 6"
    if "distinct (map dl_id rs)" "\<forall>r \<in> set rs. dl_status r = Pending \<longrightarrow> 0 \<le> dl_attempts r" for rs
    using that
  proof (induction rs)
    case (Cons r rs)
    show ?case
    proof (cases "dl_id r = i")
      case True
      then have "\<forall>q \<in> set rs. dl_id q \<noteq> i" using Cons.prems(1) by auto (metis image_eqI)
      then have "\<forall>q \<in> set rs. row_tries i q = 0" by (simp add: row_tries_def)
      then have "sum_list (map (row_tries i) rs) = 0" by (simp add: sum_list_eq_0_iff)
      moreover have "row_tries i r \<le> 6" using Cons.prems(2) by (auto simp: row_tries_def MAX_ATTEMPTS_def)
      ultimately show ?thesis unfolding list.map sum_list.Cons by linarith
    next
      case False
      then have "row_tries i r = 0" by (simp add: row_tries_def)
      with Cons show ?thesis by simp
    qed
  qed simp
  then show ?thesis using wf by (simp add: tries_left_def wf_outbox_def)
qed

lemma posts_at_most:
  assumes "quiet c" and "wf_outbox (data c)"
  shows "length (posts_of i (fst (fst (run_dispatcher n net ws lp c)))) \<le> tries_left i (data c)"
  using assms
proof (induction n arbitrary: ws lp c)
  case (Suc n)
  obtain lp1 c1 where p: "maybe_prune lp c = (lp1, c1)" by force
  note c1 = wf_pruned [OF Suc.prems(1) p Suc.prems(2), of i]
  have IH: "length (posts_of i (fst (fst (run_dispatcher n net ws' lp1 c')))) \<le> tries_left i (data c')"
    if "quiet c'" "wf_outbox (data c')" for ws' c' using Suc.IH that by blast
  let ?now = "clock c1" and ?d = "data c1"
  have wake: "length (posts_of i (fst (fst (run_dispatcher n net ws' lp1 (wait_for k c1))))) \<le> tries_left i (data c)"
    for ws' k using IH [of "wait_for k c1" ws'] c1 by (simp add: wait_for_def quiet_def)
  have round: "length (posts_of i (fst (fst (run_dispatcher n net ws lp1 (c1\<lparr>data := round_db net ?now ?d\<rparr>)))))
      \<le> tries_left i (round_db net ?now ?d)"
    using IH [of "c1\<lparr>data := round_db net ?now ?d\<rparr>" ws] c1 wf_round by simp
  have app: "posts_of i (a @ b) = posts_of i a @ posts_of i b" for a b by (simp add: posts_of_def)
  have none: "length (posts_of i []) = 0" by (simp add: posts_of_def)
  note step = run_dispatcher_step [OF Suc.prems(1) p, of n net ws]
  show ?case
  proof (cases "filter (taken ?now ?d) (deliveries ?d) = []")
    case True
    with wake none c1 step show ?thesis by (auto split: list.split wake.split)
  next
    case False
    with round batch_posts [of ?d i net ?now] app c1 step show ?thesis
      by (auto simp: Let_def split: prod.split)
  qed
qed (simp add: posts_of_def)


subsection \<open>No delivery is lost\<close>

definition soon :: "conn \<Rightarrow> bool" where
  "soon c \<longleftrightarrow> (\<forall>r \<in> set (deliveries (data c)). dl_status r = Pending \<longrightarrow> dl_next r \<le> clock c + seconds 60)"

text \<open>Every pending delivery was tried \<open>k + 1\<close> times, or \<open>k\<close> times and is due.\<close>

definition progressed :: "int \<Rightarrow> conn \<Rightarrow> bool" where
  "progressed k c \<longleftrightarrow> (\<forall>r \<in> set (deliveries (data c)). dl_status r = Pending \<longrightarrow>
     k + 1 \<le> dl_attempts r \<or> (k \<le> dl_attempts r \<and> dl_next r \<le> clock c))"

definition due_count :: "conn \<Rightarrow> nat" where
  "due_count c = length (filter (due (clock c)) (deliveries (data c)))"

lemma round_progress:
  fixes net :: "delivery \<Rightarrow> http_result"
  assumes wf: "wf_outbox (data c)" and "soon c" and "progressed k c"
    and some: "filter (taken (clock c) (data c)) (deliveries (data c)) \<noteq> []"
  defines "c' \<equiv> c\<lparr>data := round_db net (clock c) (data c)\<rparr>"
  shows "soon c' \<and> progressed k c' \<and> due_count c' < due_count c \<and>
    length (deliveries (data c')) = length (deliveries (data c)) \<and>
    (\<forall>r \<in> set (deliveries (data c)). dl_status r = Pending \<longrightarrow>
       (\<exists>q \<in> set (deliveries (data c')). dl_id q = dl_id r \<and> dl_status q = Pending) \<or>
       (\<exists>p \<in> set (map (post_of net) (fst (claim_deliveries [] (clock c) (data c)))).
          cd_id (po_delivery p) = dl_id r \<and> final_post p))"
proof -
  let ?now = "clock c" and ?d = "data c"
  let ?f = "\<lambda>r. if taken ?now ?d r then posted_row net ?now ?d r else r"
  have rows: "deliveries (data c') = map ?f (deliveries ?d)"
    using round_rows [OF wf] by (simp add: c'_def)
  have row: "due ?now r \<and> dl_id (posted_row net ?now ?d r) = dl_id r \<and>
     (if dl_status (posted_row net ?now ?d r) = Pending
      then dl_attempts (posted_row net ?now ?d r) = dl_attempts r + 1 \<and>
        ?now < dl_next (posted_row net ?now ?d r) \<and> dl_next (posted_row net ?now ?d r) \<le> ?now + seconds 32
      else \<exists>p \<in> set (map (post_of net) (fst (claim_deliveries [] ?now ?d))).
          cd_id (po_delivery p) = dl_id r \<and> final_post p)"
    if r: "r \<in> set (deliveries ?d)" and t: "taken ?now ?d r" for r
  proof -
    obtain cd where cd: "delivery_of ?d (hold_row ?now r) = Some cd" using delivery_of_wf [OF wf r] by blast
    then have "cd \<in> set (fst (claim_deliveries [] ?now ?d))"
      using r t by (force simp: claim_wf(1) [OF wf] image_iff)
    then have "post_of net cd \<in> set (map (post_of net) (fst (claim_deliveries [] ?now ?d)))" by simp
    moreover have "po_delivery (post_of net cd) = cd" by (simp add: post_of_def)
    ultimately show ?thesis
      using posted_row_cases [OF wf r t cd, of net] round_row_wf [OF wf r t, of net] by metis
  qed
  have not_due: "\<not> due ?now (posted_row net ?now ?d r)" if "r \<in> set (deliveries ?d)" "taken ?now ?d r" for r
    using row [OF that] by (auto simp: due_def split: if_splits)
  have clk: "clock c' = ?now" by (simp add: c'_def)
  have pend: "dl_attempts (posted_row net ?now ?d r) = dl_attempts r + 1 \<and>
      dl_next (posted_row net ?now ?d r) \<le> ?now + seconds 60 \<and> dl_status r = Pending"
    if "r \<in> set (deliveries ?d)" "taken ?now ?d r" "dl_status (posted_row net ?now ?d r) = Pending" for r
    using row [OF that(1,2)] that(3) by (simp add: seconds_def due_def)
  have "soon c'"
    using assms(2) pend by (auto simp: soon_def rows clk)
  moreover have "progressed k c'"
    using assms(3) pend by (fastforce simp: progressed_def rows clk)
  moreover have len: "length (filter (due ?now) (map ?f rs)) + length (filter (taken ?now ?d) rs) \<le> length (filter (due ?now) rs)"
    if "set rs \<subseteq> set (deliveries ?d)" for rs
    using that row not_due by (induction rs) auto
  have "0 < length (filter (taken ?now ?d) (deliveries ?d))" using some by (simp only: length_greater_0_conv not_False_eq_True)
  then have "due_count c' < due_count c"
    using len [OF subset_refl] unfolding due_count_def rows clk by linarith
  moreover have "(\<exists>q \<in> set (deliveries (data c')). dl_id q = dl_id r \<and> dl_status q = Pending) \<or>
       (\<exists>p \<in> set (map (post_of net) (fst (claim_deliveries [] ?now ?d))).
          cd_id (po_delivery p) = dl_id r \<and> final_post p)"
    if "r \<in> set (deliveries ?d)" "dl_status r = Pending" for r
    using row [of r] that by (cases "taken ?now ?d r") (auto simp: rows image_iff split: if_splits)
  ultimately show ?thesis using rows by simp
qed


definition long_waits :: "wake list \<Rightarrow> bool" where
  "long_waits ws \<longleftrightarrow> (\<forall>w \<in> set ws. \<exists>k. w = After k \<and> seconds 60 \<le> int k)"

definition settled :: "conn \<Rightarrow> (post list \<times> stop) \<times> conn \<Rightarrow> bool" where
  "settled c res \<longleftrightarrow> (case res of ((ps, stop), c') \<Rightarrow>
     stop = StillWaiting \<and> (\<forall>r \<in> set (deliveries (data c')). dl_status r \<noteq> Pending) \<and>
     (\<forall>r \<in> set (deliveries (data c)). dl_status r = Pending \<longrightarrow>
        (\<exists>p \<in> set ps. cd_id (po_delivery p) = dl_id r \<and> final_post p)))"

lemma wake_progress:
  assumes "soon c" and "progressed k c" and "filter (taken (clock c) (data c)) (deliveries (data c)) = []"
    and "seconds 60 \<le> int j"
  shows "soon (wait_for j c) \<and> progressed (k + 1) (wait_for j c)"
proof -
  have "k + 1 \<le> dl_attempts r" if "r \<in> set (deliveries (data c))" "dl_status r = Pending" for r
    using assms(2) taken_none_due [OF assms(3) that(1)] that by (auto simp: progressed_def due_def)
  then show ?thesis
    using assms(1,4) by (force simp: soon_def progressed_def wait_for_def)
qed

lemma prune_progress:
  assumes "set (deliveries (data c1)) \<subseteq> set (deliveries (data c))" and "clock c1 = clock c"
  shows "(soon c \<longrightarrow> soon c1) \<and> (progressed k c \<longrightarrow> progressed k c1)"
  using assms by (auto simp: soon_def progressed_def)

lemma due_count_le: "due_count c \<le> length (deliveries (data c))"
  by (simp add: due_count_def)

lemma due_count_pruned:
  assumes "quiet c" and "maybe_prune lp c = (lp1, c1)"
  shows "due_count c1 \<le> due_count c"
  using maybe_prune_quiet [OF assms]
proof
  assume "c1 = c\<lparr>data := (data c)\<lparr>deliveries := filter (\<lambda>r. \<not> retired (clock c) r) (deliveries (data c))\<rparr>\<rparr>"
  moreover have "length (filter P (filter Q rs)) \<le> length (filter P rs)" for P Q and rs :: "delivery_row list"
    by (induction rs) auto
  ultimately show ?thesis by (simp add: due_count_def)
qed simp

lemma settled_pruned:
  assumes "\<forall>r \<in> set (deliveries (data c)). dl_status r = Pending \<longrightarrow> r \<in> set (deliveries (data c1))"
    and "settled c1 res"
  shows "settled c res"
  using assms by (fastforce simp: settled_def split: prod.splits)

lemma settled_later:
  assumes "settled c' ((qs, stop), c4)"
    and "\<forall>r \<in> set (deliveries (data c)). dl_status r = Pending \<longrightarrow>
       (\<exists>q \<in> set (deliveries (data c')). dl_id q = dl_id r \<and> dl_status q = Pending) \<or>
       (\<exists>p \<in> set ps. cd_id (po_delivery p) = dl_id r \<and> final_post p)"
  shows "settled c ((ps @ qs, stop), c4)"
proof -
  have "\<exists>p \<in> set (ps @ qs). cd_id (po_delivery p) = dl_id r \<and> final_post p"
    if r: "r \<in> set (deliveries (data c))" "dl_status r = Pending" for r
  proof -
    consider q where "q \<in> set (deliveries (data c'))" "dl_id q = dl_id r" "dl_status q = Pending"
      | p where "p \<in> set ps" "cd_id (po_delivery p) = dl_id r" "final_post p"
      using assms(2) r by blast
    then show ?thesis
    proof cases
      case 1
      then obtain p where "p \<in> set qs" "cd_id (po_delivery p) = dl_id q" "final_post p"
        using assms(1) by (auto simp: settled_def)
      then show ?thesis using 1 by auto
    qed auto
  qed
  then show ?thesis using assms(1) by (auto simp: settled_def)
qed

lemma settles:
  assumes "quiet c" and "wf_outbox (data c)" and "soon c" and "progressed k c" and "long_waits ws"
    and "5 \<le> k + int (length ws)" and "length (deliveries (data c)) \<le> N"
    and "due_count c + length ws * (N + 1) < n"
  shows "settled c (run_dispatcher n net ws lp c)"
  using assms
proof (induction n arbitrary: ws lp c k)
  case (Suc n)
  obtain lp1 c1 where p: "maybe_prune lp c = (lp1, c1)" by force
  note c1 = wf_pruned [OF Suc.prems(1) p Suc.prems(2), of 0]
  have len: "length (deliveries (data c1)) \<le> N" using c1 Suc.prems(7) by linarith
  have prog: "soon c1" "progressed k c1" using prune_progress [of c1 c k] c1 Suc.prems(3,4) by auto
  have dc: "due_count c1 + length ws * (N + 1) \<le> n"
    using due_count_pruned [OF Suc.prems(1) p] Suc.prems(8) by linarith
  have "settled c1 (run_dispatcher (Suc n) net ws lp c)"
  proof (cases "filter (taken (clock c1) (data c1)) (deliveries (data c1)) = []")
    case none: True
    show ?thesis
    proof (cases ws)
      case Nil
      then have "dl_status r \<noteq> Pending" if "r \<in> set (deliveries (data c1))" for r
        using that prog(2) taken_none_due [OF none that] Suc.prems(6) c1
        by (fastforce simp: progressed_def due_def wf_outbox_def MAX_ATTEMPTS_def)
      then show ?thesis
        using c1 none Nil by (simp add: run_dispatcher_step [OF Suc.prems(1) p] settled_def)
    next
      case (Cons w ws')
      then obtain j where j: "w = After j" "seconds 60 \<le> int j" "long_waits ws'"
        using Suc.prems(5) by (auto simp: long_waits_def)
      note wake = wake_progress [OF prog none j(2)]
      have "settled (wait_for j c1) (run_dispatcher n net ws' lp1 (wait_for j c1))"
        using wake j(3) c1 Suc.prems(6) len dc due_count_le [of "wait_for j c1"] Cons
        by (intro Suc.IH [of "wait_for j c1" "k + 1"]) (auto simp: wait_for_def quiet_def)
      then show ?thesis
        using c1 none Cons j(1)
        by (simp add: run_dispatcher_step [OF Suc.prems(1) p] settled_def wait_for_def)
    qed
  next
    case some: False
    let ?c' = "c1\<lparr>data := round_db net (clock c1) (data c1)\<rparr>"
    have wf1: "wf_outbox (data c1)" using c1 by blast
    note round = round_progress [OF wf1 prog some, of net]
    have "settled ?c' (run_dispatcher n net ws lp1 ?c')"
      using round c1 Suc.prems(5,6) len dc wf_round by (intro Suc.IH [of ?c' k]) auto
    moreover obtain qs stop c4 where r: "run_dispatcher n net ws lp1 ?c' = ((qs, stop), c4)"
      by (metis prod.exhaust)
    ultimately have "settled c1 ((map (post_of net) (fst (claim_deliveries [] (clock c1) (data c1))) @ qs, stop), c4)"
      using round by (intro settled_later [of ?c']) auto
    then show ?thesis
      using some c1 r by (simp add: run_dispatcher_step [OF Suc.prems(1) p])
  qed
  then show ?case using settled_pruned c1 by blast
qed simp



subsection \<open>One replica at a time\<close>

text \<open>
  What the dispatchers of all replicas do to the outbox, in any order: claims that skip the
  rows others have locked, outcomes that are recorded, retention runs.
\<close>

datatype outbox_op =
    ClaimAt timestamp "int list"
  | RecordAt timestamp delivery http_result
  | RetireAt timestamp

fun run_outbox :: "outbox_op \<Rightarrow> db \<Rightarrow> db" where
  "run_outbox (ClaimAt now skip) d = snd (claim_deliveries skip now d)"
| "run_outbox (RecordAt now cd r) d = settle (\<lambda>_. r) now cd d"
| "run_outbox (RetireAt now) d = d\<lparr>deliveries := filter (\<lambda>r. \<not> retired now r) (deliveries d)\<rparr>"

definition on_hold :: "int \<Rightarrow> timestamp \<Rightarrow> db \<Rightarrow> bool" where
  "on_hold i until d \<longleftrightarrow> (\<forall>r \<in> set (deliveries d). dl_id r = i \<longrightarrow> dl_status r = Pending \<and> until \<le> dl_next r)"

fun leaves_alone :: "int \<Rightarrow> timestamp \<Rightarrow> outbox_op \<Rightarrow> bool" where
  "leaves_alone i until (ClaimAt now skip) \<longleftrightarrow> now < until"
| "leaves_alone i until (RecordAt now cd r) \<longleftrightarrow> cd_id cd \<noteq> i"
| "leaves_alone i until (RetireAt now) \<longleftrightarrow> True"

lemma on_hold_not_due: "on_hold i until d \<Longrightarrow> now < until \<Longrightarrow> i \<notin> set (due_ids skip now d)"
  by (auto simp: on_hold_def due_ids_def due_def dest!: in_set_takeD)

lemma claimed_id: "cd \<in> set (fst (claim_deliveries skip now d)) \<Longrightarrow>
    \<exists>r \<in> set (deliveries d). dl_id r = cd_id cd \<and> dl_id r \<in> set (due_ids skip now d)"
  by (auto simp: claim_deliveries_def Let_def List.map_filter_def delivery_of_def)

lemma on_hold_run:
  assumes "on_hold i until d" and "leaves_alone i until op"
  shows "on_hold i until (run_outbox op d)"
proof (cases op)
  case (ClaimAt now skip)
  with assms show ?thesis
    using on_hold_not_due [OF assms(1), of now skip]
    by (auto simp: on_hold_def claim_deliveries_def Let_def set_update_where)
next
  case (RecordAt now cd r)
  with assms show ?thesis by (auto simp: on_hold_def set_update_where)
next
  case (RetireAt now)
  with assms show ?thesis by (auto simp: on_hold_def)
qed

text \<open>
  C35 (safety). Replicas never send the same delivery at the same time: what one claim took is
  in no other claim for sixty seconds, whatever the other dispatchers claim, record for
  other deliveries or retire in that time.
\<close>

theorem claims_are_exclusive:
  assumes "distinct (map dl_id (deliveries d))"
    and "claim_deliveries skip t d = (batch, d1)" and "cd \<in> set batch"
    and "\<forall>op \<in> set ops. leaves_alone (cd_id cd) (t + seconds 60) op"
    and "now < t + seconds 60"
  shows "cd_id cd \<notin> cd_id ` set (fst (claim_deliveries skip' now (fold run_outbox ops d1)))"
proof -
  let ?i = "cd_id cd" and ?u = "t + seconds 60"
  obtain r where r: "r \<in> set (deliveries d)" "dl_id r = ?i" "dl_id r \<in> set (due_ids skip t d)"
    "delivery_of d r \<noteq> None"
    using assms(2,3) by (auto simp: claim_deliveries_def Let_def List.map_filter_def delivery_of_def)
  have uniq: "q = r" if "q \<in> set (deliveries d)" "dl_id q = ?i" for q
    using that r(1,2) assms(1) by (simp add: distinct_map inj_on_def)
  have "dl_status r = Pending" using due_ids_due [OF assms(1) r(1,3)] by (simp add: due_def)
  then have held: "dl_status (hold_row t r) = Pending \<and> ?u \<le> dl_next (hold_row t r)"
    by (simp add: hold_row_def)
  have rows: "deliveries d1 = update_where
      (\<lambda>r. dl_id r \<in> set (due_ids skip t d) \<and> delivery_of d r \<noteq> None) (hold_row t) (deliveries d)"
    using assms(2) by (auto simp: claim_deliveries_def Let_def)
  have "on_hold ?i ?u d1"
    unfolding on_hold_def rows
  proof (intro ballI impI)
    fix q
    assume "q \<in> set (update_where (\<lambda>r. dl_id r \<in> set (due_ids skip t d) \<and> delivery_of d r \<noteq> None)
      (hold_row t) (deliveries d))" and "dl_id q = ?i"
    then obtain p where "p \<in> set (deliveries d)" "dl_id p = ?i"
      "q = (if dl_id p \<in> set (due_ids skip t d) \<and> delivery_of d p \<noteq> None then hold_row t p else p)"
      by (auto simp: set_update_where split: if_splits)
    then have "q = hold_row t r" using uniq [of p] r(3,4) by simp
    then show "dl_status q = Pending \<and> ?u \<le> dl_next q" using held by simp
  qed
  then have "on_hold ?i ?u (fold run_outbox ops d1)"
    using assms(4)
  proof (induction ops arbitrary: d1)
    case (Cons op ops)
    then show ?case using on_hold_run by simp
  qed simp
  then show ?thesis using on_hold_not_due [OF _ assms(5)] claimed_id by fastforce
qed

subsection \<open>Direct messages stay on the bus\<close>

lemma keeps_bind_val:
  assumes "keeps I m" and "\<And>a c c'. m c = (Inr a, c') \<Longrightarrow> keeps I (f a)"
  shows "keeps I (bind_io m f)"
  unfolding keeps_def
proof (intro allI impI)
  fix c assume adm: "admissible I c"
  obtain r c1 where m: "m c = (r, c1)" by force
  then have "admissible I c1" using keepsD [OF assms(1) adm] by simp
  then show "admissible I (snd (bind_io m f c))"
    using assms(2) [of c] m by (cases r) (auto simp: bind_io_def keeps_def)
qed

lemma to_agent_recipient: "to_agent auth t c = (Inr tgt, c') \<Longrightarrow> fst (snd tgt) \<noteq> None"
  by (auto simp: to_agent_def bind_io_def ret_def raise_def split: prod.splits sum.splits if_splits)

lemma insert_direct_message:
  "fst (snd tgt) \<noteq> None \<Longrightarrow>
   keeps (\<lambda>d. deliveries d = D) (sql (insert_message_stmt x auth tgt body reply metadata announce))"
  by (rule keeps_sql)
    (auto simp: insert_message_stmt_def Let_def fire_message_def publish_def enqueue_message_webhook_def
      split: if_splits)

lemma insert_file_deliveries:
  "keeps (\<lambda>d. deliveries d = D) (insert_for_message team i by files)"
  unfolding insert_for_message_def check_attachment_quota_def
  by (auto intro!: keeps_intros keeps_sql simp: insert_attachment_stmt_def Let_def split: if_splits option.splits)

text \<open>
  C33 (safety). A direct message never leaves the bus: posting to an agent adds nothing to the
  webhook outbox, under every failure and whatever the other sessions do short of
  touching the outbox themselves.
\<close>

theorem direct_messages_stay:
  assumes "pi_to input = Some to"
  shows "keeps (\<lambda>d. deliveries d = D) (post_message x auth input)"
proof -
  have target: "fst (snd tgt) \<noteq> None" if "post_target auth (pi_channel input) (pi_to input) c = (Inr tgt, c')" for tgt c c'
    using that assms to_agent_recipient by (cases "pi_channel input") (auto simp: post_target_def raise_def)
  have steps: "keeps (\<lambda>d. deliveries d = D) (post_tx x auth tgt body reply metadata ann files)"
    if "fst (snd tgt) \<noteq> None" for tgt body reply metadata ann files
    unfolding post_tx_def post_steps_def
    by (intro keeps_intros insert_direct_message [OF that] insert_file_deliveries keeps_sql) auto
  show ?thesis
    unfolding post_message_def Let_def
    by (auto intro!: keeps_raise keeps_bind_val [OF keeps_post_target] keeps_bind [OF keeps_check_reply]
        keeps_bind [OF keeps_lift] keeps_bind [OF steps] keeps_ret dest: target)
qed

subsection \<open>Worked instances\<close>

definition demo_hook :: webhook_row where
  "demo_hook = \<lparr> wh_id = 50, wh_team = 7, wh_url = ''http://h'', wh_kind = ''slack'',
     wh_events = [''message''], wh_channel = None, wh_enabled = True \<rparr>"

definition outbox_conn :: conn where
  "outbox_conn = demo_conn\<lparr>data := demo_db\<lparr>webhooks := [demo_hook],
     deliveries := [new_delivery 0 7 ''message'' ''hi'' JNull 1 demo_hook,
                    new_delivery 0 7 ''message'' ''ho'' JNull 2 demo_hook]\<rparr>\<rparr>"

definition half_down :: "delivery \<Rightarrow> http_result" where
  "half_down cd = (if cd_id cd = 1 then Answered 200 ''200 OK'' else NotSent ''timed out'')"

lemma outbox_conn_ok: "quiet outbox_conn" "wf_outbox (data outbox_conn)" "soon outbox_conn"
  by (simp_all add: outbox_conn_def quiet_def demo_conn_def wf_outbox_def soon_def new_delivery_def
      demo_hook_def MAX_ATTEMPTS_def seconds_def)

definition demo_run :: "(post list \<times> stop) \<times> conn" where
  "demo_run = run_dispatcher 24 half_down (replicate 7 (After 60000000)) 0 outbox_conn"

lemma demo_run_posts: "map (cd_id \<circ> po_delivery) (fst (fst demo_run)) = [1, 2, 2, 2, 2, 2, 2]"
  by code_simp



lemma demo_claims:
  "cd_id ` set (fst (claim_deliveries [2] (seconds 1000) (data outbox_conn))) = {1}"
  "cd_id ` set (fst (claim_deliveries [] (seconds 1059)
     (snd (claim_deliveries [2] (seconds 1000) (data outbox_conn))))) = {2}"
  by code_simp+

theorem claims_are_exclusive_witness:
  "1 \<notin> cd_id ` set (fst (claim_deliveries [] (seconds 1059)
     (snd (claim_deliveries [2] (seconds 1000) (data outbox_conn)))))"
proof -
  obtain cd where cd: "cd \<in> set (fst (claim_deliveries [2] (seconds 1000) (data outbox_conn)))" "cd_id cd = 1"
    using demo_claims(1) by (metis imageE singletonI)
  have "distinct (map dl_id (deliveries (data outbox_conn)))"
    using outbox_conn_ok(2) by (simp add: wf_outbox_def)
  from claims_are_exclusive [OF this surjective_pairing cd(1), of "[]" "seconds 1059" "[]"] show ?thesis
    by (simp add: cd(2) seconds_def)
qed

theorem direct_messages_stay_witness:
  "deliveries (data (snd (post_message demo_ext ana
     \<lparr> pi_channel = None, pi_to = Some ''bob'', pi_announce = False, pi_body = ''psst'',
       pi_reply_to = None, pi_metadata = None, pi_attachments = [] \<rparr> outbox_conn))) =
   deliveries (data outbox_conn)"
  using keeps_frame [OF direct_messages_stay outbox_conn_ok(1)] by simp

end
