(* ===== verification/Admin.thy ===== *)
theory Admin
  imports Auth Attachments Webhooks
begin

text \<open>
  \<open>admin.rs\<close> and the administration part of \<open>webhooks.rs\<close>: the operator's commands. A
  command prints lines, may fail, and changes the database; what is printed is kept as data
  (\<open>out_line\<close>), not as padded text. Fresh ids and random bytes are arguments.
\<close>

subsection \<open>Commands\<close>

datatype admin_error =
    NoTeam string
  | SlugEmpty
  | QuotaNotPositive
  | AgentNameEmpty
  | NoAgentInTeam string string
  | NoAgentToIssue string string
  | NoToken uuid
  | BadWebhookKind
  | UnknownEventKind string
  | NoEventKinds
  | NoWebhook uuid
  | StoreError bus_error

datatype size_text = Plain int | Scaled rat nat

datatype out_line =
    TeamReady string
  | NoTeamsYet
  | TeamLine string string nat
  | QuotaSet string size_text
  | QuotaCleared string
  | UsageLine string "size_text \<times> size_text option \<times> rat option" team_usage "int option"
  | QuotaWarning rat string
  | PruneLine string int prune_report size_text
  | DryRunNote
  | AgentReady string string
  | AgentLine string string nat bool
  | AgentDisabled string
  | TokenShown string string string
  | TokenLine uuid string string "timestamp option" string bool
  | TokenRevoked uuid
  | WebhookRegistered uuid string "string list"
  | NoWebhooks string
  | WebhookLine uuid string "string list" "string option" bool string
  | WebhookRemoved uuid

type_synonym 'a command = "conn \<Rightarrow> (out_line list \<times> (admin_error + 'a)) \<times> conn"

definition finish :: "'a \<Rightarrow> 'a command" where
  "finish a c = (([], Inr a), c)"

definition bail :: "admin_error \<Rightarrow> 'a command" where
  "bail e c = (([], Inl e), c)"

definition println :: "out_line list \<Rightarrow> unit command" where
  "println ls c = ((ls, Inr ()), c)"

definition store :: "'a io \<Rightarrow> 'a command" where
  "store m c = (case m c of (Inl e, c1) \<Rightarrow> (([], Inl (StoreError e)), c1) | (Inr a, c1) \<Rightarrow> (([], Inr a), c1))"

definition bind_cmd :: "'a command \<Rightarrow> ('a \<Rightarrow> 'b command) \<Rightarrow> 'b command" where
  "bind_cmd m f c = (case m c of
       ((out, Inl e), c1) \<Rightarrow> ((out, Inl e), c1)
     | ((out, Inr a), c1) \<Rightarrow> (let ((out', r), c2) = f a c1 in ((out @ out', r), c2)))"

subsection \<open>Teams\<close>

definition find_team :: "db \<Rightarrow> string \<Rightarrow> uuid option" where
  "find_team d slug = map_option tm_id (List.find (\<lambda>t. tm_slug t = slug) (teams d))"

definition team_by_slug :: "string \<Rightarrow> uuid command" where
  "team_by_slug slug = bind_cmd (store (query (\<lambda>now d. find_team d slug)))
     (\<lambda>row. case row of None \<Rightarrow> bail (NoTeam slug) | Some i \<Rightarrow> finish i)"

text \<open>An insert fails when the generated id is already in use.\<close>

definition insert_team :: "uuid \<Rightarrow> string \<Rightarrow> string \<Rightarrow> db \<Rightarrow> (unit \<times> db) option" where
  "insert_team fresh slug name d =
     (if list_ex (\<lambda>t. tm_slug t = slug) (teams d) then Some ((), d)
      else if list_ex (\<lambda>t. tm_id t = fresh) (teams d) then None
      else Some ((), d\<lparr>teams := teams d @ [\<lparr> tm_id = fresh, tm_slug = slug, tm_name = name, tm_limit = None \<rparr>]\<rparr>))"

definition team_create :: "uuid \<Rightarrow> string \<Rightarrow> string option \<Rightarrow> unit command" where
  "team_create fresh raw name =
     (let slug = lower (trim raw)
      in if slug = [] then bail SlugEmpty
         else
           bind_cmd (store (sql (\<lambda>now. insert_team fresh slug (case name of None \<Rightarrow> slug | Some n \<Rightarrow> n))))
             (\<lambda>_. println [TeamReady slug]))"

definition select_teams :: "db \<Rightarrow> (string \<times> string \<times> nat) list" where
  "select_teams d = map (\<lambda>t. (tm_slug t, tm_name t, length (filter (\<lambda>a. ag_team a = tm_id t) (agents d))))
     (order_by tm_slug (teams d))"

definition team_list :: "unit command" where
  "team_list = bind_cmd (store (query (\<lambda>now. select_teams))) (\<lambda>rows.
     println ((if rows = [] then [NoTeamsYet] else []) @ map (\<lambda>(s, n, k). TeamLine s n k) rows))"

text \<open>\<open>rnd\<close> is the rounding of \<open>f64\<close> results; three steps reach the last unit.\<close>

fun scale_bytes :: "(rat \<Rightarrow> rat) \<Rightarrow> nat \<Rightarrow> rat \<Rightarrow> nat \<Rightarrow> rat \<times> nat" where
  "scale_bytes rnd 0 v u = (v, u)"
| "scale_bytes rnd (Suc k) v u =
     (if 1024 \<le> v then scale_bytes rnd k (rnd (v / 1024)) (u + 1) else (v, u))"

definition human_bytes :: "(rat \<Rightarrow> rat) \<Rightarrow> int \<Rightarrow> size_text" where
  "human_bytes rnd n =
     (let (v, u) = scale_bytes rnd 3 (rnd (of_int n)) 0 in if u = 0 then Plain n else Scaled v u)"

definition set_limit :: "int option \<Rightarrow> uuid \<Rightarrow> db \<Rightarrow> unit \<times> db" where
  "set_limit limit i d =
     ((), d\<lparr>teams := update_where (\<lambda>t. tm_id t = i) (\<lambda>t. t\<lparr>tm_limit := limit\<rparr>) (teams d)\<rparr>)"

definition team_quota :: "(rat \<Rightarrow> rat) \<Rightarrow> string \<Rightarrow> int option \<Rightarrow> unit command" where
  "team_quota rnd team bytes =
     bind_cmd (team_by_slug team) (\<lambda>i.
     if (case bytes of None \<Rightarrow> False | Some b \<Rightarrow> b \<le> 0) then bail QuotaNotPositive
     else bind_cmd (store (execute (\<lambda>now. set_limit bytes i))) (\<lambda>_.
       case bytes of
         Some b \<Rightarrow> println [QuotaSet team (human_bytes rnd b)]
       | None \<Rightarrow> println [QuotaCleared team]))"

definition local_now :: "timestamp command" where
  "local_now c = (([], Inr (clock c)), c)"

text \<open>\<open>num_days\<close> of a duration truncates toward zero.\<close>

definition num_days :: "int \<Rightarrow> int" where
  "num_days us = (if us < 0 then - ((- us) div seconds 86400) else us div seconds 86400)"

definition team_usage_report :: "(rat \<Rightarrow> rat) \<Rightarrow> string \<Rightarrow> unit command" where
  "team_usage_report rnd team =
     bind_cmd (team_by_slug team) (\<lambda>i.
     bind_cmd (store (usage i)) (\<lambda>u.
     bind_cmd local_now (\<lambda>now.
     let pct = percent_used rnd u;
         quota = (human_bytes rnd (us_attachment_bytes u), map_option (human_bytes rnd) (us_limit u),
                  map_option (\<lambda>_. case pct of None \<Rightarrow> 0 | Some p \<Rightarrow> p) (us_limit u))
     in println ([UsageLine team quota u (map_option (\<lambda>t. num_days (now - t)) (us_oldest_message u))] @
          (case pct of None \<Rightarrow> [] | Some p \<Rightarrow> if 80 \<le> p then [QuotaWarning p team] else [])))))"

definition team_prune :: "(rat \<Rightarrow> rat) \<Rightarrow> string \<Rightarrow> int \<Rightarrow> bool \<Rightarrow> unit command" where
  "team_prune rnd team days apply =
     bind_cmd (team_by_slug team) (\<lambda>i.
     bind_cmd (store (prune i days (\<not> apply))) (\<lambda>report.
     println ([PruneLine team days report (human_bytes rnd (pp_freed_bytes report))] @
       (if pp_dry_run report then [DryRunNote] else []))))"

subsection \<open>Agents and tokens\<close>

definition upsert_agent :: "uuid \<Rightarrow> uuid \<Rightarrow> string \<Rightarrow> string option \<Rightarrow> db \<Rightarrow> (unit \<times> db) option" where
  "upsert_agent fresh team name display d =
     (if list_ex (\<lambda>a. ag_team a = team \<and> ag_name a = name) (agents d)
      then Some ((), d\<lparr>agents := update_where (\<lambda>a. ag_team a = team \<and> ag_name a = name)
             (\<lambda>a. a\<lparr>ag_display := or_keep display (ag_display a), ag_disabled := None\<rparr>) (agents d)\<rparr>)
      else if list_ex (\<lambda>a. ag_id a = fresh) (agents d) \<or> \<not> list_ex (\<lambda>t. tm_id t = team) (teams d) then None
      else Some ((), d\<lparr>agents := agents d @ [\<lparr> ag_id = fresh, ag_team = team, ag_name = name,
             ag_display = display, ag_disabled = None \<rparr>]\<rparr>))"

definition insert_token :: "uuid \<Rightarrow> uuid \<Rightarrow> string \<Rightarrow> string \<Rightarrow> string option \<Rightarrow> timestamp \<Rightarrow> db \<Rightarrow> (unit \<times> db) option" where
  "insert_token fresh agent hash prefix label now d =
     (if list_ex (\<lambda>t. tk_hash t = hash \<or> tk_id t = fresh) (tokens d)
         \<or> \<not> list_ex (\<lambda>a. ag_id a = agent) (agents d) then None
      else Some ((), d\<lparr>tokens := tokens d @ [\<lparr> tk_id = fresh, tk_agent = agent, tk_hash = hash,
             tk_prefix = prefix, tk_label = label, tk_created = now, tk_last_used = None,
             tk_revoked = None \<rparr>]\<rparr>))"

definition token_issue :: "externals \<Rightarrow> uuid \<Rightarrow> string \<Rightarrow> string \<Rightarrow> string \<Rightarrow> string option \<Rightarrow> unit command" where
  "token_issue x fresh bytes team agent label =
     bind_cmd (team_by_slug team) (\<lambda>tid.
     bind_cmd (store (query (\<lambda>now d. find_agent d tid (trim agent)))) (\<lambda>row.
     case row of
       None \<Rightarrow> bail (NoAgentToIssue agent team)
     | Some i \<Rightarrow>
         let raw = generate_token x bytes
         in bind_cmd (store (sql (insert_token fresh i (hash_token x raw) (token_prefix raw) label)))
              (\<lambda>_. println [TokenShown agent team raw])))"

definition agent_add ::
  "externals \<Rightarrow> uuid \<Rightarrow> uuid \<Rightarrow> string \<Rightarrow> string \<Rightarrow> string \<Rightarrow> string option \<Rightarrow> bool \<Rightarrow> unit command" where
  "agent_add x fresh fresh_token bytes team raw display issue_token =
     bind_cmd (team_by_slug team) (\<lambda>tid.
     let name = lower (trim raw)
     in if name = [] then bail AgentNameEmpty
        else
          bind_cmd (store (sql (\<lambda>now. upsert_agent fresh tid name display))) (\<lambda>_.
          bind_cmd (println [AgentReady name team]) (\<lambda>_.
          if issue_token then token_issue x fresh_token bytes team name None else finish ())))"

definition select_agent_list :: "uuid \<Rightarrow> db \<Rightarrow> out_line list" where
  "select_agent_list team d = map (\<lambda>a. AgentLine (ag_name a) (coalesce (ag_display a))
       (length (filter (\<lambda>t. tk_agent t = ag_id a \<and> tk_revoked t = None) (tokens d))) (ag_disabled a \<noteq> None))
     (order_by ag_name (filter (\<lambda>a. ag_team a = team) (agents d)))"

definition agent_listing :: "string \<Rightarrow> unit command" where
  "agent_listing team = bind_cmd (team_by_slug team) (\<lambda>tid.
     bind_cmd (store (query (\<lambda>now. select_agent_list tid))) println)"

definition disable_stmt :: "uuid \<Rightarrow> string \<Rightarrow> timestamp \<Rightarrow> db \<Rightarrow> nat \<times> db" where
  "disable_stmt team name now d =
     (let hit = (\<lambda>a. ag_team a = team \<and> ag_name a = name)
      in (length (filter hit (agents d)),
          d\<lparr>agents := update_where hit (\<lambda>a. a\<lparr>ag_disabled := Some now\<rparr>) (agents d)\<rparr>))"

definition agent_disable :: "string \<Rightarrow> string \<Rightarrow> unit command" where
  "agent_disable team name =
     bind_cmd (team_by_slug team) (\<lambda>tid.
     bind_cmd (store (execute (disable_stmt tid (trim name)))) (\<lambda>n.
     if n = 0 then bail (NoAgentInTeam name team) else println [AgentDisabled name]))"

definition select_token_list :: "uuid \<Rightarrow> db \<Rightarrow> out_line list" where
  "select_token_list team d = map (\<lambda>(t, a). TokenLine (tk_id t) (ag_name a) (tk_prefix t)
       (tk_last_used t) (coalesce (tk_label t)) (tk_revoked t \<noteq> None))
     (order_by (ag_name \<circ> snd) (order_by (tk_created \<circ> fst)
       (List.map_filter (\<lambda>t. map_option (Pair t)
         (List.find (\<lambda>a. ag_id a = tk_agent t \<and> ag_team a = team) (agents d))) (tokens d))))"

definition token_list :: "string \<Rightarrow> unit command" where
  "token_list team = bind_cmd (team_by_slug team) (\<lambda>tid.
     bind_cmd (store (query (\<lambda>now. select_token_list tid))) println)"

definition revoke_stmt :: "uuid \<Rightarrow> timestamp \<Rightarrow> db \<Rightarrow> nat \<times> db" where
  "revoke_stmt i now d =
     (length (filter (\<lambda>t. tk_id t = i) (tokens d)),
      d\<lparr>tokens := update_where (\<lambda>t. tk_id t = i) (\<lambda>t. t\<lparr>tk_revoked := Some now\<rparr>) (tokens d)\<rparr>)"

definition token_revoke :: "uuid \<Rightarrow> unit command" where
  "token_revoke i =
     bind_cmd (store (execute (revoke_stmt i))) (\<lambda>n.
     if n = 0 then bail (NoToken i) else println [TokenRevoked i])"

text \<open>\<open>print_mcp_config\<close>: the block a teammate pastes; the session header only when asked for.\<close>

definition mcp_config :: "string \<Rightarrow> string \<Rightarrow> string option \<Rightarrow> json" where
  "mcp_config url token sess =
     (let auth = [(''Authorization'', JStr (''Bearer '' @ token))];
          headers = (case non_empty (map_option trim sess) of
              None \<Rightarrow> auth | Some s \<Rightarrow> auth @ [(SESSION_HEADER, JStr s)])
      in JObj [(''mcpServers'', JObj [(''ai-crew-sync'',
           JObj [(''type'', JStr ''http''), (''url'', JStr url), (''headers'', JObj headers)])])])"

subsection \<open>Webhooks\<close>

definition event_kinds :: "string \<Rightarrow> string list" where
  "event_kinds s = filter (\<lambda>e. e \<noteq> []) (map (\<lambda>e. lower (trim e)) (split_on (CHR '','') s))"

definition insert_webhook :: "webhook_row \<Rightarrow> db \<Rightarrow> (unit \<times> db) option" where
  "insert_webhook w d =
     (if list_ex (\<lambda>v. wh_id v = wh_id w) (webhooks d) \<or> \<not> list_ex (\<lambda>t. tm_id t = wh_team w) (teams d) then None
      else Some ((), d\<lparr>webhooks := webhooks d @ [w]\<rparr>))"

definition webhook_add ::
  "uuid \<Rightarrow> string \<Rightarrow> string \<Rightarrow> string \<Rightarrow> string \<Rightarrow> string option \<Rightarrow> unit command" where
  "webhook_add fresh team url raw_kind raw_events channel =
     (let kind = lower (trim raw_kind); events = event_kinds raw_events
      in if kind \<notin> {''slack'', ''discord'', ''generic''} then bail BadWebhookKind
         else case List.find (\<lambda>e. e \<notin> {''message'', ''task'', ''lock'', ''note''}) events of
           Some e \<Rightarrow> bail (UnknownEventKind e)
         | None \<Rightarrow>
             if events = [] then bail NoEventKinds
             else
               bind_cmd (team_by_slug team) (\<lambda>tid.
               bind_cmd (store (sql (\<lambda>now. insert_webhook
                 \<lparr> wh_id = fresh, wh_team = tid, wh_url = url, wh_kind = kind, wh_events = events,
                   wh_channel = map_option lower channel, wh_enabled = True \<rparr>))) (\<lambda>_.
               println [WebhookRegistered fresh kind events])))"

definition select_webhook_list :: "string \<Rightarrow> db \<Rightarrow> webhook_row list" where
  "select_webhook_list team d =
     filter (\<lambda>w. list_ex (\<lambda>t. tm_id t = wh_team w \<and> tm_slug t = team) (teams d)) (webhooks d)"

definition webhook_list :: "string \<Rightarrow> unit command" where
  "webhook_list team = bind_cmd (store (query (\<lambda>now. select_webhook_list team))) (\<lambda>rows.
     println ((if rows = [] then [NoWebhooks team] else []) @
       map (\<lambda>w. WebhookLine (wh_id w) (wh_kind w) (wh_events w) (wh_channel w) (wh_enabled w) (wh_url w)) rows))"

text \<open>Removing a webhook removes its deliveries.\<close>

definition delete_webhook :: "uuid \<Rightarrow> db \<Rightarrow> nat \<times> db" where
  "delete_webhook i d =
     (length (filter (\<lambda>w. wh_id w = i) (webhooks d)),
      d\<lparr>webhooks := filter (\<lambda>w. wh_id w \<noteq> i) (webhooks d),
        deliveries := filter (\<lambda>r. dl_webhook r \<noteq> i) (deliveries d)\<rparr>)"

definition webhook_remove :: "uuid \<Rightarrow> unit command" where
  "webhook_remove i =
     bind_cmd (store (execute (\<lambda>now. delete_webhook i))) (\<lambda>n.
     if n = 0 then bail (NoWebhook i) else println [WebhookRemoved i])"

subsection \<open>Running commands\<close>

lemma bind_cmd_run:
  "bind_cmd m f c = (case m c of
       ((out, Inl e), c1) \<Rightarrow> ((out, Inl e), c1)
     | ((out, Inr a), c1) \<Rightarrow> ((out @ fst (fst (f a c1)), snd (fst (f a c1))), snd (f a c1)))"
  by (auto simp: bind_cmd_def Let_def split: prod.split sum.split)

lemmas command_run = bind_cmd_run store_def finish_def bail_def println_def quiet_simps

lemma team_by_slug_run:
  "quiet c \<Longrightarrow> team_by_slug slug c =
     (([], case find_team (data c) slug of None \<Rightarrow> Inl (NoTeam slug) | Some i \<Rightarrow> Inr i), c)"
  by (simp add: team_by_slug_def command_run split: option.split)

lemma find_team_SomeD:
  assumes "find_team d slug = Some i"
  obtains t where "t \<in> set (teams d)" "tm_id t = i" "tm_slug t = slug"
  using assms by (auto simp: find_team_def dest: find_Some_set)

lemma find_agent_SomeD:
  assumes "find_agent d team name = Some i"
  obtains a where "a \<in> set (agents d)" "ag_id a = i" "ag_team a = team" "ag_name a = name"
  using assms by (auto simp: find_agent_def dest: find_Some_set)

lemma generated_prefix: "starts_with TOKEN_PREFIX (generate_token x bytes)"
  by (simp add: starts_with_def generate_token_def TOKEN_PREFIX_def)

subsection \<open>The life of a token\<close>

text \<open>What the commands rely on: keys are unique, and the new token is new.\<close>

definition token_room :: "externals \<Rightarrow> uuid \<Rightarrow> string \<Rightarrow> db \<Rightarrow> bool" where
  "token_room x fresh raw d \<longleftrightarrow> distinct (map ag_id (agents d)) \<and> distinct (map tm_id (teams d)) \<and>
     (\<forall>t \<in> set (tokens d). tk_hash t \<noteq> hash_token x raw \<and> tk_id t \<noteq> fresh)"

definition issued_token :: "externals \<Rightarrow> uuid \<Rightarrow> uuid \<Rightarrow> string \<Rightarrow> string option \<Rightarrow> timestamp \<Rightarrow> token_row" where
  "issued_token x fresh agent raw label now =
     \<lparr> tk_id = fresh, tk_agent = agent, tk_hash = hash_token x raw, tk_prefix = token_prefix raw,
       tk_label = label, tk_created = now, tk_last_used = None, tk_revoked = None \<rparr>"

lemma token_issue_run:
  assumes "quiet c" and "find_team (data c) team = Some tid" and "find_agent (data c) tid (trim agent) = Some i"
    and "token_room x fresh (generate_token x bytes) (data c)"
  shows "token_issue x fresh bytes team agent label c =
    (([TokenShown agent team (generate_token x bytes)], Inr ()),
     c\<lparr>data := (data c)\<lparr>tokens := tokens (data c) @ [issued_token x fresh i (generate_token x bytes) label (clock c)]\<rparr>\<rparr>)"
proof -
  have "\<not> list_ex (\<lambda>t. tk_hash t = hash_token x (generate_token x bytes) \<or> tk_id t = fresh) (tokens (data c))"
    using assms(4) by (auto simp: token_room_def list_ex_iff)
  moreover have "list_ex (\<lambda>a. ag_id a = i) (agents (data c))"
    using assms(3) by (rule find_agent_SomeD) (auto simp: list_ex_iff)
  ultimately show ?thesis
    using assms(1-3)
    by (simp add: token_issue_def bind_cmd_run team_by_slug_run store_def quiet_simps Let_def println_def
        insert_token_def issued_token_def)
qed

lemma resolve_cases:
  assumes "quiet c" and "starts_with TOKEN_PREFIX raw"
  shows "fst (resolve_token x raw c) = (case select_token (hash_token x raw) (data c) of
      None \<Rightarrow> Inl InvalidToken
    | Some row \<Rightarrow> if au_disabled row then Inl Disabled
        else Inr \<lparr> agent_id = au_agent row, agent_name = au_name row, team_id = au_team row,
                   team_slug = au_slug row, session = [] \<rparr>)"
  using assms by (auto simp: resolve_token_def quiet_simps split: option.split)

lemma select_issued:
  assumes "\<forall>t \<in> set ts. tk_hash t \<noteq> h" and "tokens d = ts @ [t]" and "tk_hash t = h"
    and "distinct (map ag_id (agents d))" and "a \<in> set (agents d)" and "ag_id a = tk_agent t"
    and "distinct (map tm_id (teams d))" and "tm \<in> set (teams d)" and "tm_id tm = ag_team a"
  shows "select_token h d = (if tk_revoked t = None
    then Some \<lparr> au_token = tk_id t, au_agent = ag_id a, au_name = ag_name a,
                au_disabled = (ag_disabled a \<noteq> None), au_team = tm_id tm, au_slug = tm_slug tm \<rparr>
    else None)"
proof -
  have "List.find (\<lambda>t. tk_hash t = h \<and> tk_revoked t = None) ts = None"
    using assms(1) by (auto simp: find_None_iff_set)
  then have "List.find (\<lambda>t. tk_hash t = h \<and> tk_revoked t = None) (tokens d) =
      (if tk_revoked t = None then Some t else None)"
    by (simp add: assms(2,3) find_append)
  moreover have "List.find (\<lambda>b. ag_id b = tk_agent t) (agents d) = Some a"
    using find_unique [OF assms(4,5)] assms(6) by simp
  moreover have "List.find (\<lambda>u. tm_id u = ag_team a) (teams d) = Some tm"
    using find_unique [OF assms(7,8)] assms(9) by simp
  ultimately show ?thesis by (simp add: select_token_def)
qed

lemma issued_selected:
  assumes "quiet c" and team: "find_team (data c) team = Some tid"
    and agent: "find_agent (data c) tid (trim agent) = Some i"
    and room: "token_room x fresh (generate_token x bytes) (data c)"
    and enabled: "\<forall>a \<in> set (agents (data c)). ag_id a = i \<longrightarrow> ag_disabled a = None"
  obtains slug where "select_token (hash_token x (generate_token x bytes))
      (data (snd (token_issue x fresh bytes team agent label c))) = Some
     \<lparr> au_token = fresh, au_agent = i, au_name = trim agent, au_disabled = False, au_team = tid, au_slug = slug \<rparr>"
    and "quiet (snd (token_issue x fresh bytes team agent label c))"
proof -
  let ?t = "issued_token x fresh i (generate_token x bytes) label (clock c)"
  have run: "snd (token_issue x fresh bytes team agent label c) =
      c\<lparr>data := (data c)\<lparr>tokens := tokens (data c) @ [?t]\<rparr>\<rparr>"
    by (simp add: token_issue_run [OF assms(1-4)])
  obtain a where a: "a \<in> set (agents (data c))" "ag_id a = i" "ag_team a = tid" "ag_name a = trim agent"
    by (rule find_agent_SomeD [OF agent])
  obtain tm where tm: "tm \<in> set (teams (data c))" "tm_id tm = tid" by (rule find_team_SomeD [OF team])
  have "select_token (hash_token x (generate_token x bytes)) (data (snd (token_issue x fresh bytes team agent label c))) =
      Some \<lparr> au_token = fresh, au_agent = i, au_name = trim agent, au_disabled = False, au_team = tid, au_slug = tm_slug tm \<rparr>"
    using select_issued [of "tokens (data c)" "hash_token x (generate_token x bytes)" "(data c)\<lparr>tokens := tokens (data c) @ [?t]\<rparr>" ?t a tm]
      a tm room enabled
    unfolding run by (simp add: issued_token_def token_room_def)
  with that run assms(1) show ?thesis by simp
qed

text \<open>
  C15 (roundtrip). The token an operator is shown authenticates as exactly the agent it was
  issued for, in that agent's team; revoking it, or disabling the agent, ends that with the
  respective error.
\<close>

theorem token_lifecycle:
  assumes q: "quiet c" and team: "find_team (data c) team = Some tid"
    and agent: "find_agent (data c) tid (trim agent) = Some i"
    and room: "token_room x fresh (generate_token x bytes) (data c)"
    and enabled: "\<forall>a \<in> set (agents (data c)). ag_id a = i \<longrightarrow> ag_disabled a = None"
    and issue: "token_issue x fresh bytes team agent label c = ((out, r), c')"
  shows "out = [TokenShown agent team (generate_token x bytes)] \<and> r = Inr () \<and>
    (\<exists>ctx. fst (resolve_token x (generate_token x bytes) c') = Inr ctx \<and> agent_id ctx = i \<and> team_id ctx = tid) \<and>
    fst (resolve_token x (generate_token x bytes) (snd (token_revoke fresh c'))) = Inl InvalidToken \<and>
    fst (resolve_token x (generate_token x bytes) (snd (agent_disable team agent c'))) = Inl Disabled"
proof -
  let ?raw = "generate_token x bytes"
  let ?t = "issued_token x fresh i ?raw label (clock c)"
  have run: "out = [TokenShown agent team ?raw]" "r = Inr ()"
    "c' = c\<lparr>data := (data c)\<lparr>tokens := tokens (data c) @ [?t]\<rparr>\<rparr>"
    using issue token_issue_run [OF q team agent room, of label] by simp_all
  obtain a where a: "a \<in> set (agents (data c))" "ag_id a = i" "ag_team a = tid" "ag_name a = trim agent"
    by (rule find_agent_SomeD [OF agent])
  obtain tm where tm: "tm \<in> set (teams (data c))" "tm_id tm = tid" by (rule find_team_SomeD [OF team])
  have keys: "distinct (map ag_id (agents (data c)))" "distinct (map tm_id (teams (data c)))"
    "\<forall>t \<in> set (tokens (data c)). tk_hash t \<noteq> hash_token x ?raw" "\<forall>t \<in> set (tokens (data c)). tk_id t \<noteq> fresh"
    using room by (auto simp: token_room_def)
  have q': "quiet c'" using q run(3) by simp
  note sel = select_issued [OF keys(3), of _ _]
  have c': "c' = snd (token_issue x fresh bytes team agent label c)" using issue by simp
  obtain slug where 1: "select_token (hash_token x ?raw) (data c') = Some
     \<lparr> au_token = fresh, au_agent = i, au_name = trim agent, au_disabled = False, au_team = tid, au_slug = slug \<rparr>"
    unfolding c' by (rule issued_selected [OF q team agent room enabled])
  have rev: "token_revoke fresh c' = (([TokenRevoked fresh], Inr ()),
      c'\<lparr>data := (data c')\<lparr>tokens := tokens (data c) @ [?t\<lparr>tk_revoked := Some (clock c)\<rparr>]\<rparr>\<rparr>)"
    using keys(4) update_where_noop [of "tokens (data c)" "\<lambda>t. tk_id t = fresh"] q'
    by (simp add: token_revoke_def revoke_stmt_def command_run run(3) issued_token_def update_where_def)
  have 2: "select_token (hash_token x ?raw) (data (snd (token_revoke fresh c'))) = None"
    using sel [of "data (snd (token_revoke fresh c'))" "?t\<lparr>tk_revoked := Some (clock c)\<rparr>" a tm] a tm keys
    by (simp add: rev) (simp add: run(3) issued_token_def)
  let ?hit = "\<lambda>b. ag_team b = tid \<and> ag_name b = trim agent"
  let ?off = "update_where ?hit (\<lambda>b. b\<lparr>ag_disabled := Some (clock c)\<rparr>) (agents (data c))"
  have dis: "data (snd (agent_disable team agent c')) = (data c')\<lparr>agents := ?off\<rparr>"
    "quiet (snd (agent_disable team agent c'))"
  proof -
    have t: "find_team (data c') team = Some tid" using team by (simp add: find_team_def run(3))
    have d: "agents (data c') = agents (data c)" "clock c' = clock c" by (simp_all add: run(3))
    show "data (snd (agent_disable team agent c')) = (data c')\<lparr>agents := ?off\<rparr>"
      "quiet (snd (agent_disable team agent c'))"
      using q' by (simp_all add: agent_disable_def bind_cmd_run team_by_slug_run t d store_def
          execute_quiet disable_stmt_def Let_def bail_def println_def)
  qed
  have "a\<lparr>ag_disabled := Some (clock c)\<rparr> \<in> set ?off"
    using a by (auto simp: set_update_where)
  moreover have "map ag_id ?off = map ag_id (agents (data c))" by (rule map_update_where) simp
  ultimately have 3: "select_token (hash_token x ?raw) (data (snd (agent_disable team agent c'))) = Some
     \<lparr> au_token = fresh, au_agent = i, au_name = trim agent, au_disabled = True, au_team = tid, au_slug = tm_slug tm \<rparr>"
    using sel [of "(data c')\<lparr>agents := ?off\<rparr>" ?t "a\<lparr>ag_disabled := Some (clock c)\<rparr>" tm] a tm keys
    unfolding dis(1) by (simp add: run(3) issued_token_def)
  show ?thesis
    using run(1,2) 1 2 3 q' dis(2) resolve_cases [OF _ generated_prefix]
    by (simp add: rev)
qed

definition two_bytes :: string where
  "two_bytes = ''k7''"

theorem token_lifecycle_witness:
  "fst (token_issue demo_ext 90 two_bytes ''t'' '' ana '' None demo_conn) =
     ([TokenShown '' ana '' ''t'' ''acs_6b37''], Inr ()) \<and>
   (\<exists>ctx. fst (resolve_token demo_ext ''acs_6b37'' (snd (token_issue demo_ext 90 two_bytes ''t'' '' ana '' None demo_conn)))
      = Inr ctx \<and> agent_id ctx = 1 \<and> team_id ctx = 7)"
proof -
  have raw: "generate_token demo_ext two_bytes = ''acs_6b37''" by code_simp
  have facts: "find_team (data demo_conn) ''t'' = Some 7" "find_agent (data demo_conn) 7 (trim '' ana '') = Some 1"
    by code_simp+
  have room: "token_room demo_ext 90 (generate_token demo_ext two_bytes) (data demo_conn)"
    by (simp add: token_room_def demo_simps)
  have "\<forall>a \<in> set (agents (data demo_conn)). ag_id a = 1 \<longrightarrow> ag_disabled a = None" by (simp add: demo_simps)
  from token_lifecycle [OF quiet_demo_conn(1) facts room this, of None] show ?thesis
    by (cases "token_issue demo_ext 90 two_bytes ''t'' '' ana '' None demo_conn") (auto simp: raw)
qed

subsection \<open>What the commands get wrong\<close>

text \<open>
  \<open>agent_add\<close> stores the lower-cased name, the other commands look the name up as typed: the
  agent that was just added under \<open>Zoe\<close> is not found under \<open>Zoe\<close>.
\<close>

lemma added_agent_not_found:
  "case agent_add demo_ext 80 81 ''b'' ''t'' ''Zoe'' None False demo_conn of ((out, r), c1) \<Rightarrow>
     out = [AgentReady ''zoe'' ''t''] \<and> r = Inr () \<and>
     fst (token_issue demo_ext 90 two_bytes ''t'' ''Zoe'' None c1) = ([], Inl (NoAgentToIssue ''Zoe'' ''t'')) \<and>
     fst (agent_disable ''t'' ''Zoe'' c1) = ([], Inl (NoAgentInTeam ''Zoe'' ''t''))"
  by code_simp

text \<open>
  A webhook for the channel \<open>#dev\<close> is stored with its hash sign, which the name of a channel
  made from \<open>#dev\<close> has not: it matches no message.
\<close>

lemma hash_filter_never_matches:
  "case webhook_add 50 ''t'' ''u'' ''slack'' ''message'' (Some ''#dev'') demo_conn of ((out, r), c1) \<Rightarrow>
     r = Inr () \<and>
     filter (webhook_matches 7 ''message'' (Some (normalize_channel ''#dev''))) (webhooks (data c1)) = []"
  by code_simp

end
