(* ===== verification/Presence.thy ===== *)
theory Presence
  imports Samples
begin

text \<open>
  \<open>store/presence.rs\<close>: heartbeats, one row per agent and session under a lease, and the
  roster, which folds the rows of an agent's sessions back into one entry.
\<close>

subsection \<open>Heartbeats\<close>

definition PRESENCE_TTL_SECS :: int where
  "PRESENCE_TTL_SECS = 600"

definition MAX_PRESENCE_TTL_SECS :: int where
  "MAX_PRESENCE_TTL_SECS = 86400"

definition MAX_PRESENCE_FIELD_BYTES :: nat where
  "MAX_PRESENCE_FIELD_BYTES = 256"

record heartbeat_input =
  hb_status :: "string option"
  hb_repo :: "string option"
  hb_branch :: "string option"
  hb_activity :: "string option"
  hb_ttl :: "int option"

record agent_session =
  as_session :: "string option"
  as_status :: string
  as_repo :: "string option"
  as_branch :: "string option"
  as_activity :: "string option"
  as_last_seen :: "timestamp option"
  as_online :: bool

record agent_info =
  ai_name :: string
  ai_display :: "string option"
  ai_session :: "string option"
  ai_status :: string
  ai_repo :: "string option"
  ai_branch :: "string option"
  ai_activity :: "string option"
  ai_last_seen :: "timestamp option"
  ai_online :: bool
  ai_sessions :: "agent_session list"

definition presence_status :: "string option \<Rightarrow> string bus_result" where
  "presence_status given =
     (let status = (case given of None \<Rightarrow> ''active'' | Some s \<Rightarrow> lower (trim s))
      in if status \<in> {''active'', ''idle'', ''busy'', ''blocked''} then Inr status
         else Inl (Invalid (AdminWhy BadPresenceStatus)))"

definition presence_ttl :: "int option \<Rightarrow> int" where
  "presence_ttl given = clamp 30 MAX_PRESENCE_TTL_SECS
     (case given of None \<Rightarrow> PRESENCE_TTL_SECS | Some t \<Rightarrow> t)"

definition presence_key :: "uuid \<Rightarrow> string \<Rightarrow> presence_row \<Rightarrow> bool" where
  "presence_key agent sess p \<longleftrightarrow> pr_agent p = agent \<and> pr_session p = sess"

definition fresh_presence ::
  "auth_ctx \<Rightarrow> string \<Rightarrow> string option \<Rightarrow> string option \<Rightarrow> string option \<Rightarrow> int \<Rightarrow> timestamp \<Rightarrow> presence_row" where
  "fresh_presence auth status repo branch activity ttl now =
     \<lparr> pr_agent = agent_id auth, pr_session = session auth, pr_status = status, pr_repo = repo,
       pr_branch = branch, pr_activity = activity, pr_updated = now,
       pr_expires = now + seconds ttl \<rparr>"

text \<open>\<open>DO UPDATE\<close>: an omitted field keeps its previous value.\<close>

definition renew_presence :: "presence_row \<Rightarrow> presence_row \<Rightarrow> presence_row" where
  "renew_presence new old = old\<lparr>pr_status := pr_status new, pr_repo := or_keep (pr_repo new) (pr_repo old),
     pr_branch := or_keep (pr_branch new) (pr_branch old),
     pr_activity := or_keep (pr_activity new) (pr_activity old),
     pr_updated := pr_updated new, pr_expires := pr_expires new\<rparr>"

definition upsert_presence :: "presence_row \<Rightarrow> db \<Rightarrow> presence_row \<times> db" where
  "upsert_presence new d =
     (let same = presence_key (pr_agent new) (pr_session new)
      in case List.find same (presences d) of
           None \<Rightarrow> (new, d\<lparr>presences := presences d @ [new]\<rparr>)
         | Some old \<Rightarrow> (renew_presence new old,
             d\<lparr>presences := update_where same (renew_presence new) (presences d)\<rparr>))"

text \<open>The statement, joined with the agent's row.\<close>

definition heartbeat_stmt ::
  "auth_ctx \<Rightarrow> string \<Rightarrow> string option \<Rightarrow> string option \<Rightarrow> string option \<Rightarrow> int \<Rightarrow>
     timestamp \<Rightarrow> db \<Rightarrow> ((agent_row \<times> presence_row \<times> bool) \<times> db) option" where
  "heartbeat_stmt auth status repo branch activity ttl now d =
     (case List.find (\<lambda>a. ag_id a = agent_id auth) (agents d) of
        None \<Rightarrow> None
      | Some a \<Rightarrow>
          (let (p, d') = upsert_presence (fresh_presence auth status repo branch activity ttl now) d
           in Some ((a, p, now < pr_expires p), d')))"

definition heartbeat :: "auth_ctx \<Rightarrow> heartbeat_input \<Rightarrow> agent_info io" where
  "heartbeat auth input =
     bind_io (lift (presence_status (hb_status input))) (\<lambda>status.
     let ttl = presence_ttl (hb_ttl input) in
     bind_io (lift (check_opt_text ''presence repo'' (hb_repo input) MAX_PRESENCE_FIELD_BYTES)) (\<lambda>repo.
     bind_io (lift (check_opt_text ''presence branch'' (hb_branch input) MAX_PRESENCE_FIELD_BYTES)) (\<lambda>branch.
     bind_io (lift (check_opt_text ''presence activity'' (hb_activity input) MAX_PRESENCE_FIELD_BYTES)) (\<lambda>activity.
     bind_io (sql (heartbeat_stmt auth status repo branch activity ttl)) (\<lambda>(a, p, online).
     ret \<lparr> ai_name = ag_name a, ai_display = ag_display a, ai_session = session_label auth,
           ai_status = pr_status p, ai_repo = pr_repo p, ai_branch = pr_branch p,
           ai_activity = pr_activity p, ai_last_seen = Some (pr_updated p), ai_online = online,
           ai_sessions = [] \<rparr>)))))"

subsection \<open>The roster\<close>

text \<open>One row of the join: an agent with one of its presence rows, or with none.\<close>

type_synonym roster_row = "agent_row \<times> presence_row option"

definition row_online :: "timestamp \<Rightarrow> roster_row \<Rightarrow> bool" where
  "row_online now r = (case snd r of None \<Rightarrow> False | Some p \<Rightarrow> now < pr_expires p)"

definition left_join :: "db \<Rightarrow> agent_row \<Rightarrow> roster_row list" where
  "left_join d a =
     (let ps = filter (\<lambda>p. pr_agent p = ag_id a) (presences d)
      in if ps = [] then [(a, None)] else map (\<lambda>p. (a, Some p)) ps)"

definition last_update :: "roster_row \<Rightarrow> int" where
  "last_update r = (case snd r of None \<Rightarrow> 0 | Some p \<Rightarrow> - pr_updated p)"

definition roster_rows :: "uuid \<Rightarrow> bool \<Rightarrow> timestamp \<Rightarrow> db \<Rightarrow> roster_row list" where
  "roster_rows team online_only now d =
     order_by (ag_name \<circ> fst) (order_by (\<lambda>r. \<not> row_online now r) (order_by (\<lambda>r. snd r = None)
       (order_by last_update
         (filter (\<lambda>r. \<not> online_only \<or> row_online now r)
           (concat (map (left_join d)
             (filter (\<lambda>a. ag_team a = team \<and> ag_disabled a = None) (agents d))))))))"

definition session_of_row :: "timestamp \<Rightarrow> roster_row \<Rightarrow> agent_session" where
  "session_of_row now r =
     (let p = snd r; online = row_online now r
      in \<lparr> as_session = non_empty (map_option pr_session p),
           as_status = (if online then (case p of None \<Rightarrow> ''active'' | Some q \<Rightarrow> pr_status q) else ''offline''),
           as_repo = Option.bind p pr_repo, as_branch = Option.bind p pr_branch,
           as_activity = Option.bind p pr_activity, as_last_seen = map_option pr_updated p,
           as_online = online \<rparr>)"

definition lead_entry :: "agent_row \<Rightarrow> agent_session \<Rightarrow> agent_info" where
  "lead_entry a s = \<lparr> ai_name = ag_name a, ai_display = ag_display a, ai_session = as_session s,
     ai_status = as_status s, ai_repo = as_repo s, ai_branch = as_branch s, ai_activity = as_activity s,
     ai_last_seen = as_last_seen s, ai_online = as_online s, ai_sessions = [s] \<rparr>"

definition add_session :: "agent_info \<Rightarrow> agent_session \<Rightarrow> agent_info" where
  "add_session i s = i\<lparr>ai_online := (ai_online i \<or> as_online s), ai_sessions := ai_sessions i @ [s]\<rparr>"

text \<open>\<open>agents.last_mut()\<close>: a row joins the last entry if it has the same name.\<close>

definition add_row :: "timestamp \<Rightarrow> agent_info list \<Rightarrow> roster_row \<Rightarrow> agent_info list" where
  "add_row now acc r =
     (let s = session_of_row now r; name = ag_name (fst r)
      in if acc \<noteq> [] \<and> ai_name (last acc) = name then butlast acc @ [add_session (last acc) s]
         else acc @ [lead_entry (fst r) s])"

definition trim_sessions :: "agent_info \<Rightarrow> agent_info" where
  "trim_sessions i = (if length (ai_sessions i) < 2 then i\<lparr>ai_sessions := []\<rparr> else i)"

record agent_list =
  al_agents :: "agent_info list"
  al_online :: nat

definition fold_roster :: "timestamp \<Rightarrow> roster_row list \<Rightarrow> agent_list" where
  "fold_roster now rows =
     (let entries = map trim_sessions (foldl (add_row now) [] rows)
      in \<lparr> al_agents = order_by (\<lambda>i. \<not> ai_online i) (order_by ai_name entries),
           al_online = length (filter ai_online entries) \<rparr>)"

definition list_agents :: "auth_ctx \<Rightarrow> bool \<Rightarrow> agent_list io" where
  "list_agents auth online_only =
     query (\<lambda>now d. fold_roster now (roster_rows (team_id auth) online_only now d))"

subsection \<open>One entry per person\<close>

text \<open>
  What the single pass does to a list that is sorted by name: one entry per name, online
  exactly if one of the rows is.
\<close>

lemma add_row_simps:
  "foldl (add_row now) [] (rs @ [r]) = add_row now (foldl (add_row now) [] rs) r"
  by simp

lemma add_row_names:
  "map ai_name (add_row now acc r) =
     (if acc \<noteq> [] \<and> ai_name (last acc) = ag_name (fst r) then map ai_name acc
      else map ai_name acc @ [ag_name (fst r)])"
  by (cases acc rule: rev_cases) (auto simp: add_row_def Let_def add_session_def lead_entry_def)

lemma fold_rows_names:
  assumes "sorted (map (ag_name \<circ> fst) rs)"
  shows "sorted_wrt (<) (map ai_name (foldl (add_row now) [] rs)) \<and>
    set (map ai_name (foldl (add_row now) [] rs)) = (ag_name \<circ> fst) ` set rs \<and>
    (rs \<noteq> [] \<longrightarrow> foldl (add_row now) [] rs \<noteq> [] \<and>
       ai_name (last (foldl (add_row now) [] rs)) = ag_name (fst (last rs)))"
  using assms
proof (induction rs rule: rev_induct)
  case (snoc r rs)
  let ?acc = "foldl (add_row now) [] rs"
  have IH: "sorted_wrt (<) (map ai_name ?acc)" "set (map ai_name ?acc) = (ag_name \<circ> fst) ` set rs"
    "rs \<noteq> [] \<longrightarrow> ?acc \<noteq> [] \<and> ai_name (last ?acc) = ag_name (fst (last rs))"
    using snoc by (auto simp: sorted_append)
  have le: "ag_name (fst q) \<le> ag_name (fst r)" if "q \<in> set rs" for q
    using snoc.prems that by (auto simp: sorted_append)
  have names: "map ai_name (add_row now ?acc r) =
     (if ?acc \<noteq> [] \<and> ai_name (last ?acc) = ag_name (fst r) then map ai_name ?acc
      else map ai_name ?acc @ [ag_name (fst r)])" by (rule add_row_names)
  show ?case
  proof (cases "?acc \<noteq> [] \<and> ai_name (last ?acc) = ag_name (fst r)")
    case True
    then have "ag_name (fst r) \<in> set (map ai_name ?acc)" by (metis last_in_set list.set_map imageI)
    moreover have "add_row now ?acc r \<noteq> []" "ai_name (last (add_row now ?acc r)) = ag_name (fst r)"
      using True by (auto simp: add_row_def Let_def add_session_def)
    ultimately show ?thesis using True IH names by auto
  next
    case False
    have "rs \<noteq> [] \<Longrightarrow> ai_name (last ?acc) < ag_name (fst r)"
      using IH(3) le [of "last rs"] False by fastforce
    moreover have "n \<le> ai_name (last ?acc)" if "n \<in> set (map ai_name ?acc)" for n
      using that IH(1) by (cases ?acc rule: rev_cases) (auto simp: sorted_wrt_append)
    moreover have "?acc = [] \<longleftrightarrow> rs = []"
      using IH(3) by auto
    ultimately have "\<forall>n \<in> set (map ai_name ?acc). n < ag_name (fst r)"
      by (metis empty_iff le_less_trans list.set(1) list.simps(8))
    moreover from this have "\<forall>q \<in> set rs. ag_name (fst q) < ag_name (fst r)"
      unfolding IH(2) by simp
    moreover have "last (add_row now ?acc r) = lead_entry (fst r) (session_of_row now r)"
      "add_row now ?acc r \<noteq> []"
      using False by (auto simp: add_row_def Let_def)
    ultimately show ?thesis
      using False IH(1,2) names by (auto simp: sorted_wrt_append lead_entry_def)
  qed
qed simp

lemma fold_rows_online:
  assumes "sorted (map (ag_name \<circ> fst) rs)"
  shows "\<forall>i \<in> set (foldl (add_row now) [] rs).
    ai_online i \<longleftrightarrow> (\<exists>r \<in> set rs. ag_name (fst r) = ai_name i \<and> row_online now r)"
  using assms
proof (induction rs rule: rev_induct)
  case (snoc r rs)
  let ?acc = "foldl (add_row now) [] rs"
  have sorted: "sorted (map (ag_name \<circ> fst) rs)" using snoc.prems by (simp add: sorted_append comp_def)
  have IH: "\<forall>i \<in> set ?acc. ai_online i \<longleftrightarrow> (\<exists>r \<in> set rs. ag_name (fst r) = ai_name i \<and> row_online now r)"
    by (rule snoc.IH [OF sorted])
  have names: "sorted_wrt (<) (map ai_name ?acc)" "set (map ai_name ?acc) = (ag_name \<circ> fst) ` set rs"
    "rs \<noteq> [] \<longrightarrow> ?acc \<noteq> [] \<and> ai_name (last ?acc) = ag_name (fst (last rs))"
    using fold_rows_names [OF sorted, of now] by auto
  have le: "ag_name (fst q) \<le> ag_name (fst r)" if "q \<in> set rs" for q
    using snoc.prems that by (auto simp: sorted_append)
  have on: "as_online (session_of_row now r) = row_online now r"
    by (simp add: session_of_row_def Let_def)
  show ?case
  proof (cases "?acc \<noteq> [] \<and> ai_name (last ?acc) = ag_name (fst r)")
    case True
    then obtain bs l where acc: "?acc = bs @ [l]" and l: "ai_name l = ag_name (fst r)"
      by (metis append_butlast_last_id)
    have "\<forall>i \<in> set bs. ai_name i \<noteq> ag_name (fst r)"
      using names(1) l unfolding acc by (auto simp: sorted_wrt_append)
    moreover have "foldl (add_row now) [] (rs @ [r]) = bs @ [add_session l (session_of_row now r)]"
      by (simp only: foldl_append foldl.simps acc) (simp add: add_row_def Let_def l)
    ultimately show ?thesis
      using IH l on unfolding acc by (auto simp: add_session_def)
  next
    case False
    have "rs \<noteq> [] \<Longrightarrow> ai_name (last ?acc) < ag_name (fst r)"
      using names(3) le [of "last rs"] False by fastforce
    moreover have "n \<le> ai_name (last ?acc)" if "n \<in> set (map ai_name ?acc)" for n
      using that names(1) by (cases ?acc rule: rev_cases) (auto simp: sorted_wrt_append)
    moreover have "?acc = [] \<longleftrightarrow> rs = []" using names(3) by auto
    ultimately have lt: "\<forall>n \<in> set (map ai_name ?acc). n < ag_name (fst r)"
      by (metis empty_iff le_less_trans list.set(1) list.simps(8))
    then have lt': "\<forall>q \<in> set rs. ag_name (fst q) < ag_name (fst r)" unfolding names(2) by simp
    have "foldl (add_row now) [] (rs @ [r]) = ?acc @ [lead_entry (fst r) (session_of_row now r)]"
      using False by (auto simp: add_row_def Let_def)
    then show ?thesis
      using IH lt lt' on by (auto simp: lead_entry_def)
  qed
qed simp

lemma sorted_roster_rows: "sorted (map (ag_name \<circ> fst) (roster_rows team online_only now d))"
  by (simp only: roster_rows_def sorted_order_by)

lemma set_left_join: "r \<in> set (left_join d a) \<longleftrightarrow> fst r = a \<and>
    (case snd r of None \<Rightarrow> (\<forall>p \<in> set (presences d). pr_agent p \<noteq> ag_id a)
     | Some p \<Rightarrow> p \<in> set (presences d) \<and> pr_agent p = ag_id a)"
  by (cases r) (auto simp: left_join_def Let_def filter_empty_conv split: option.splits)

definition live_session :: "timestamp \<Rightarrow> db \<Rightarrow> agent_row \<Rightarrow> bool" where
  "live_session now d a \<longleftrightarrow> (\<exists>p \<in> set (presences d). pr_agent p = ag_id a \<and> now < pr_expires p)"

definition on_roster :: "uuid \<Rightarrow> bool \<Rightarrow> timestamp \<Rightarrow> db \<Rightarrow> agent_row \<Rightarrow> bool" where
  "on_roster team online_only now d a \<longleftrightarrow> a \<in> set (agents d) \<and> ag_team a = team \<and>
     ag_disabled a = None \<and> (online_only \<longrightarrow> live_session now d a)"

lemma set_roster_rows:
  "r \<in> set (roster_rows team online_only now d) \<longleftrightarrow>
     fst r \<in> set (agents d) \<and> ag_team (fst r) = team \<and> ag_disabled (fst r) = None \<and>
     r \<in> set (left_join d (fst r)) \<and> (online_only \<longrightarrow> row_online now r)"
  by (auto simp: roster_rows_def set_left_join)

lemma live_row_exists:
  assumes "on_roster team online_only now d a" and "live_session now d a"
  shows "\<exists>r \<in> set (roster_rows team online_only now d). fst r = a \<and> row_online now r"
proof -
  obtain p where "p \<in> set (presences d)" "pr_agent p = ag_id a" "now < pr_expires p"
    using assms(2) by (auto simp: live_session_def)
  then have "(a, Some p) \<in> set (roster_rows team online_only now d) \<and> row_online now (a, Some p)"
    using assms(1) by (auto simp: set_roster_rows set_left_join on_roster_def row_online_def)
  then show ?thesis by force
qed

lemma roster_row_exists:
  assumes "on_roster team online_only now d a"
  shows "\<exists>r \<in> set (roster_rows team online_only now d). fst r = a"
proof (cases "live_session now d a")
  case True
  then show ?thesis using live_row_exists [OF assms] by blast
next
  case False
  then have "\<not> online_only" using assms by (simp add: on_roster_def)
  moreover have "left_join d a \<noteq> []" by (simp add: left_join_def Let_def)
  then obtain r where "r \<in> set (left_join d a)" by (cases "left_join d a") auto
  ultimately have "r \<in> set (roster_rows team online_only now d)" "fst r = a"
    using assms by (auto simp: set_roster_rows set_left_join on_roster_def)
  then show ?thesis by blast
qed
lemma roster_row_from:
  assumes "r \<in> set (roster_rows team online_only now d)"
  shows "on_roster team online_only now d (fst r)" and "row_online now r \<Longrightarrow> live_session now d (fst r)"
  using assms
  by (auto simp: set_roster_rows set_left_join on_roster_def live_session_def row_online_def
      split: option.splits)

lemma trim_sessions_simps [simp]:
  "ai_name (trim_sessions i) = ai_name i" "ai_online (trim_sessions i) = ai_online i"
  by (simp_all add: trim_sessions_def)

lemma distinct_map_order_by: "distinct (map f (order_by k xs)) = distinct (map f xs)"
  by (simp add: distinct_map order_by_def)

lemma length_filter_order_by: "length (filter P (order_by k xs)) = length (filter P xs)"
  by (simp add: order_by_def filter_sort)

lemma roster_people:
  "ai_name ` set (foldl (add_row now) [] (roster_rows team online_only now d))
     = ag_name ` {a. on_roster team online_only now d a}"
proof -
  let ?rows = "roster_rows team online_only now d"
  have "fst ` set ?rows = {a. on_roster team online_only now d a}"
    using roster_row_exists roster_row_from(1) by fastforce
  moreover have "set (map ai_name (foldl (add_row now) [] ?rows)) = (ag_name \<circ> fst) ` set ?rows"
    using fold_rows_names [OF sorted_roster_rows, of now] by blast
  ultimately show ?thesis by (metis image_comp list.set_map)
qed

lemma roster_online:
  assumes "i \<in> set (foldl (add_row now) [] (roster_rows team online_only now d))"
  shows "ai_online i \<longleftrightarrow> (\<exists>a. on_roster team online_only now d a \<and> ag_name a = ai_name i \<and> live_session now d a)"
  using fold_rows_online [OF sorted_roster_rows, of now] assms roster_row_from live_row_exists by metis
text \<open>
  The roster shows people, not sessions: every enabled agent of the team
  (with \<open>online_only\<close>, every one with a live session) appears exactly once, is online
  exactly if some session of theirs has a live lease, comes before every agent that is not,
  and the online count is the number of such agents.
\<close>

theorem list_agents_outcome:
  assumes "quiet c"
  shows "\<exists>al. list_agents auth online_only c = (Inr al, c) \<and>
    distinct (map ai_name (al_agents al)) \<and>
    ai_name ` set (al_agents al) = ag_name ` {a. on_roster (team_id auth) online_only (clock c) (data c) a} \<and>
    (\<forall>i \<in> set (al_agents al). ai_online i \<longleftrightarrow>
       (\<exists>a. on_roster (team_id auth) online_only (clock c) (data c) a \<and> ag_name a = ai_name i \<and>
          live_session (clock c) (data c) a)) \<and>
    sorted (map (\<lambda>i. \<not> ai_online i) (al_agents al)) \<and>
    al_online al = length (filter ai_online (al_agents al))"
proof -
  let ?rows = "roster_rows (team_id auth) online_only (clock c) (data c)"
  let ?es = "foldl (add_row (clock c)) [] ?rows" and ?al = "fold_roster (clock c) ?rows"
  have set_al: "set (al_agents ?al) = trim_sessions ` set ?es"
    by (simp add: fold_roster_def Let_def)
  have "distinct (map ai_name ?es)"
    using fold_rows_names [OF sorted_roster_rows, of "clock c"] by (metis strict_sorted_iff)
  then have "distinct (map ai_name (al_agents ?al))"
    by (simp add: fold_roster_def Let_def distinct_map_order_by comp_def)
  moreover have "al_online ?al = length (filter ai_online (al_agents ?al))"
    by (simp add: fold_roster_def Let_def length_filter_order_by)
  moreover have "sorted (map (\<lambda>i. \<not> ai_online i) (al_agents ?al))"
    by (simp add: fold_roster_def Let_def sorted_order_by)
  moreover have "ai_name ` set (al_agents ?al)
      = ag_name ` {a. on_roster (team_id auth) online_only (clock c) (data c) a}"
    unfolding set_al roster_people [symmetric] by (simp add: image_image)
  moreover have "\<forall>i \<in> set (al_agents ?al). ai_online i \<longleftrightarrow>
       (\<exists>a. on_roster (team_id auth) online_only (clock c) (data c) a \<and> ag_name a = ai_name i \<and>
          live_session (clock c) (data c) a)"
    unfolding set_al using roster_online by fastforce
  ultimately show ?thesis
    using assms by (intro exI [of _ ?al]) (simp add: list_agents_def quiet_simps)
qed

definition demo_presence :: "uuid \<Rightarrow> string \<Rightarrow> timestamp \<Rightarrow> presence_row" where
  "demo_presence a s e = \<lparr> pr_agent = a, pr_session = s, pr_status = ''busy'', pr_repo = None,
     pr_branch = None, pr_activity = None, pr_updated = 0, pr_expires = e \<rparr>"

definition roster_conn :: conn where
  "roster_conn = demo_conn\<lparr>data := demo_db\<lparr>presences :=
     [demo_presence 2 '''' (seconds 900), demo_presence 3 ''w'' (seconds 900),
      demo_presence 3 ''v'' (seconds 1100)]\<rparr>\<rparr>"

theorem list_agents_outcome_witness:
  "\<exists>al. list_agents ana False roster_conn = (Inr al, roster_conn) \<and> al_online al = 1"
proof -
  have q: "quiet roster_conn" by (simp add: roster_conn_def)
  have "map_sum id al_online (fst (list_agents ana False roster_conn)) = Inr 1" by code_simp
  then show ?thesis
    using list_agents_outcome [OF q, of ana False] by auto
qed

end
