(* ===== verification/Digest.thy ===== *)
theory Digest
  imports Presence Locks Messaging
begin

text \<open>
  \<open>store/digest.rs\<close>: the summary of a team's last hours, from six queries.
\<close>

subsection \<open>Rows\<close>

record digest_message =
  gm_from :: string
  gm_body :: string
  gm_at :: timestamp

record digest_channel =
  gh_name :: string
  gh_count :: nat
  gh_last :: "digest_message list"

record digest_task =
  gt_key :: string
  gt_title :: string
  gt_status :: task_status
  gt_claimed_by :: "string option"
  gt_result :: "string option"
  gt_updated :: timestamp

record digest_note =
  gn_scope :: string
  gn_key :: string
  gn_updated_by :: "string option"
  gn_updated :: timestamp

record digest_agent =
  ga_name :: string
  ga_activity :: "string option"
  ga_last_seen :: "timestamp option"
  ga_online :: bool

record digest_result =
  gr_hours :: int
  gr_channels :: "digest_channel list"
  gr_tasks :: "digest_task list"
  gr_open :: nat
  gr_claimed :: nat
  gr_notes :: "digest_note list"
  gr_agents :: "digest_agent list"
  gr_locks :: "lock_info list"

subsection \<open>Queries\<close>

definition in_window :: "int \<Rightarrow> timestamp \<Rightarrow> timestamp \<Rightarrow> bool" where
  "in_window hours now t \<longleftrightarrow> now - seconds (3600 * hours) < t"

text \<open>\<open>windowed\<close>: the rows of one channel; an announcement is in every focus.\<close>

definition windowed :: "int \<Rightarrow> uuid option \<Rightarrow> timestamp \<Rightarrow> db \<Rightarrow> channel_row \<Rightarrow> message_row list" where
  "windowed hours focus now d c = filter (\<lambda>m. ms_channel m = Some (ch_id c) \<and>
     in_window hours now (ms_created m) \<and>
     (focus = None \<or> focus = Some (ch_id c) \<or> ms_announce m) \<and>
     agent_name_of d (ms_sender m) \<noteq> None) (messages d)"

definition tail_message :: "db \<Rightarrow> message_row \<Rightarrow> digest_message" where
  "tail_message d m = \<lparr> gm_from = coalesce (agent_name_of d (ms_sender m)),
     gm_body = take 300 (ms_body m), gm_at = ms_created m \<rparr>"

definition last_five :: "'a list \<Rightarrow> 'a list" where
  "last_five xs = drop (length xs - 5) xs"

definition digest_channel_of :: "int \<Rightarrow> uuid option \<Rightarrow> timestamp \<Rightarrow> db \<Rightarrow> channel_row \<Rightarrow> digest_channel" where
  "digest_channel_of hours focus now d c = (let ms = windowed hours focus now d c in
     \<lparr> gh_name = ch_name c, gh_count = length ms,
       gh_last = map (tail_message d) (last_five (order_by ms_id ms)) \<rparr>)"

definition select_channels :: "uuid \<Rightarrow> int \<Rightarrow> uuid option \<Rightarrow> timestamp \<Rightarrow> db \<Rightarrow> digest_channel list" where
  "select_channels team hours focus now d =
     order_by (\<lambda>g. - int (gh_count g)) (map (digest_channel_of hours focus now d)
       (filter (\<lambda>c. ch_team c = team \<and> windowed hours focus now d c \<noteq> []) (channels d)))"

definition digest_task_of :: "db \<Rightarrow> task_row \<Rightarrow> digest_task" where
  "digest_task_of d t = \<lparr> gt_key = ts_key t, gt_title = ts_title t, gt_status = ts_status t,
     gt_claimed_by = Option.bind (ts_claimed_by t) (agent_name_of d), gt_result = ts_result t,
     gt_updated = ts_updated t \<rparr>"

definition select_moved :: "uuid \<Rightarrow> int \<Rightarrow> timestamp \<Rightarrow> db \<Rightarrow> digest_task list" where
  "select_moved team hours now d = map (digest_task_of d) (take 50 (order_by (\<lambda>t. - ts_updated t)
     (filter (\<lambda>t. ts_team t = team \<and> in_window hours now (ts_updated t)) (tasks d))))"

definition task_totals :: "uuid \<Rightarrow> db \<Rightarrow> nat \<times> nat" where
  "task_totals team d =
     (length (filter (\<lambda>t. ts_team t = team \<and> ts_status t = Open) (tasks d)),
      length (filter (\<lambda>t. ts_team t = team \<and> ts_status t = Claimed) (tasks d)))"

definition select_touched :: "uuid \<Rightarrow> int \<Rightarrow> timestamp \<Rightarrow> db \<Rightarrow> digest_note list" where
  "select_touched team hours now d = map (\<lambda>n. \<lparr> gn_scope = nt_scope n, gn_key = nt_key n,
       gn_updated_by = Option.bind (nt_updated_by n) (agent_name_of d), gn_updated = nt_updated n \<rparr>)
     (take 50 (order_by (\<lambda>n. - nt_updated n)
       (filter (\<lambda>n. nt_team n = team \<and> in_window hours now (nt_updated n)) (note_table d))))"

text \<open>The lateral join: the live, then most recent presence row of an agent.\<close>

definition best_presence :: "timestamp \<Rightarrow> db \<Rightarrow> uuid \<Rightarrow> presence_row option" where
  "best_presence now d a =
     (case order_by (\<lambda>p. \<not> now < pr_expires p) (order_by (\<lambda>p. - pr_updated p)
         (filter (\<lambda>p. pr_agent p = a) (presences d))) of
        [] \<Rightarrow> None | p # _ \<Rightarrow> Some p)"

definition digest_agent_of :: "timestamp \<Rightarrow> db \<Rightarrow> agent_row \<Rightarrow> digest_agent" where
  "digest_agent_of now d a = (let p = best_presence now d (ag_id a) in
     \<lparr> ga_name = ag_name a, ga_activity = Option.bind p pr_activity,
       ga_last_seen = map_option pr_updated p,
       ga_online = (case p of None \<Rightarrow> False | Some q \<Rightarrow> now < pr_expires q) \<rparr>)"

definition seen_rank :: "digest_agent \<Rightarrow> int" where
  "seen_rank g = (case ga_last_seen g of None \<Rightarrow> 0 | Some t \<Rightarrow> - t)"

definition select_seen :: "uuid \<Rightarrow> timestamp \<Rightarrow> db \<Rightarrow> digest_agent list" where
  "select_seen team now d =
     order_by (\<lambda>g. ga_last_seen g = None) (order_by seen_rank (map (digest_agent_of now d)
       (filter (\<lambda>a. ag_team a = team \<and> ag_disabled a = None) (agents d))))"

definition team_digest :: "auth_ctx \<Rightarrow> int \<Rightarrow> bool \<Rightarrow> digest_result io" where
  "team_digest auth raw_hours all_channels =
     (let hours = clamp 1 (24 * 14) raw_hours; team = team_id auth
      in bind_io (if all_channels then ret None
                  else bind_io (default_channel auth) (\<lambda>r. ret (map_option fst r))) (\<lambda>focus.
         bind_io (query (select_channels team hours focus)) (\<lambda>chans.
         bind_io (query (select_moved team hours)) (\<lambda>moved.
         bind_io (query (\<lambda>now. task_totals team)) (\<lambda>(n_open, n_claimed).
         bind_io (query (select_touched team hours)) (\<lambda>touched.
         bind_io (query (select_seen team)) (\<lambda>seen.
         bind_io (query (select_live_locks team)) (\<lambda>lks.
         ret \<lparr> gr_hours = hours, gr_channels = chans, gr_tasks = moved, gr_open = n_open,
               gr_claimed = n_claimed, gr_notes = touched, gr_agents = seen,
               gr_locks = map lock_info_of lks \<rparr>))))))))"

subsection \<open>What a digest shows\<close>

lemma last_five_length: "length (last_five xs) = min 5 (length xs)"
  by (simp add: last_five_def)

lemma last_five_subset: "set (last_five xs) \<subseteq> set xs"
  by (simp add: last_five_def set_drop_subset)

definition digest_focus :: "auth_ctx \<Rightarrow> bool \<Rightarrow> db \<Rightarrow> uuid option" where
  "digest_focus auth all_channels d =
     (if all_channels \<or> session auth = [] then None
      else find_channel d (team_id auth) (normalize_channel (session auth)))"

lemma team_digest_quiet:
  fixes h :: int and all_channels :: bool and auth :: auth_ctx
  assumes "quiet c"
  defines "hours \<equiv> clamp 1 (24 * 14) h" and "focus \<equiv> digest_focus auth all_channels (data c)"
  shows "team_digest auth h all_channels c =
    (Inr \<lparr> gr_hours = hours, gr_channels = select_channels (team_id auth) hours focus (clock c) (data c),
       gr_tasks = select_moved (team_id auth) hours (clock c) (data c),
       gr_open = fst (task_totals (team_id auth) (data c)),
       gr_claimed = snd (task_totals (team_id auth) (data c)),
       gr_notes = select_touched (team_id auth) hours (clock c) (data c),
       gr_agents = select_seen (team_id auth) (clock c) (data c),
       gr_locks = map lock_info_of (select_live_locks (team_id auth) (clock c) (data c)) \<rparr>, c)"
  using assms(1)
  by (simp add: team_digest_def Let_def quiet_simps hours_def focus_def digest_focus_def default_channel_def
      task_totals_def option.map_comp o_def option.map_ident)


definition busy_db :: db where
  "busy_db = demo_db\<lparr>messages := map (\<lambda>i. \<lparr> ms_id = i, ms_team = 7, ms_channel = (if i = 3 then None else Some 20),
     ms_recipient = (if i = 3 then Some 2 else None), ms_recipient_session = None, ms_sender = 1,
     ms_sender_session = None, ms_announce = False, ms_body = show_int i, ms_reply_to = None,
     ms_metadata = JNull, ms_created = 0 \<rparr>) [1, 2, 3, 4, 5, 6, 7]\<rparr>"

definition busy_conn :: conn where
  "busy_conn = demo_conn\<lparr>data := busy_db\<rparr>"


end
