(* ===== verification/Tools.thy ===== *)
theory Tools
  imports Ask Digest Notes Task_Queue
begin

text \<open>
  \<open>tools/*.rs\<close>: the MCP tools, each of them a wrapper that takes the caller's identity from
  the request, fills in the defaults of omitted arguments and calls the store; and the
  server as the one function that dispatches a call to its tool. The ids the database
  generates and the events a blocking call receives are arguments.
\<close>

subsection \<open>Identity and defaults\<close>

text \<open>\<open>auth_of\<close> and the \<open>?\<close> behind it.\<close>

definition with_auth :: "auth_ctx option \<Rightarrow> (auth_ctx \<Rightarrow> 'a io) \<Rightarrow> 'a io" where
  "with_auth extension f = (case extension of
       None \<Rightarrow> raise (Unauthenticated (TextWhy NoAuthContext)) | Some auth \<Rightarrow> f auth)"

definition or_default :: "'a \<Rightarrow> 'a option \<Rightarrow> 'a" where
  "or_default a m = (case m of None \<Rightarrow> a | Some b \<Rightarrow> b)"

definition default_limit :: int where
  "default_limit = 50"

subsection \<open>Identity and digest\<close>

definition tool_whoami :: "externals \<Rightarrow> auth_ctx option \<Rightarrow> who_am_i io" where
  "tool_whoami x ctx = with_auth ctx (whoami x)"

record digest_args =
  dg_hours :: "int option"
  dg_all_channels :: bool

definition tool_team_digest :: "auth_ctx option \<Rightarrow> digest_args \<Rightarrow> digest_result io" where
  "tool_team_digest ctx args = with_auth ctx (\<lambda>auth.
     team_digest auth (or_default 24 (dg_hours args)) (dg_all_channels args))"

subsection \<open>Presence\<close>

record heartbeat_args =
  ha_status :: "string option"
  ha_repo :: "string option"
  ha_branch :: "string option"
  ha_activity :: "string option"
  ha_ttl :: "int option"

definition tool_heartbeat :: "auth_ctx option \<Rightarrow> heartbeat_args \<Rightarrow> agent_info io" where
  "tool_heartbeat ctx args = with_auth ctx (\<lambda>auth. heartbeat auth
     \<lparr> hb_status = ha_status args, hb_repo = ha_repo args, hb_branch = ha_branch args,
       hb_activity = ha_activity args, hb_ttl = ha_ttl args \<rparr>)"

definition tool_list_agents :: "auth_ctx option \<Rightarrow> bool \<Rightarrow> agent_list io" where
  "tool_list_agents ctx online_only = with_auth ctx (\<lambda>auth. list_agents auth online_only)"

subsection \<open>Messages\<close>

definition tool_list_channels :: "auth_ctx option \<Rightarrow> channel_info list io" where
  "tool_list_channels ctx = with_auth ctx list_channels"

definition tool_create_channel :: "uuid \<Rightarrow> auth_ctx option \<Rightarrow> string \<Rightarrow> string option \<Rightarrow> channel_info io" where
  "tool_create_channel fresh ctx name topic = with_auth ctx (\<lambda>auth. create_channel fresh auth name topic)"

record attachment_arg =
  fa_filename :: string
  fa_type :: "string option"
  fa_data :: string

record post_args =
  pm_channel :: "string option"
  pm_announce :: bool
  pm_to :: "string option"
  pm_body :: string
  pm_reply_to :: "int option"
  pm_metadata :: "json option"
  pm_attachments :: "attachment_arg list option"

definition tool_post_message :: "externals \<Rightarrow> auth_ctx option \<Rightarrow> post_args \<Rightarrow> post_result io" where
  "tool_post_message x ctx args = with_auth ctx (\<lambda>auth.
     let raw = or_default [] (pm_attachments args)
     in if 8 < length raw then raise (Invalid (FileWhy TooManyAttachments))
        else
          bind_io (lift (map_results (\<lambda>a. decode_input x (fa_filename a) (fa_type a) (fa_data a)) raw)) (\<lambda>files.
          post_message x auth \<lparr> pi_channel = pm_channel args, pi_to = pm_to args,
            pi_announce = pm_announce args, pi_body = pm_body args, pi_reply_to = pm_reply_to args,
            pi_metadata = pm_metadata args, pi_attachments = files \<rparr>))"

record read_args =
  rm_scope :: "string option"
  rm_only_new :: "bool option"
  rm_limit :: "int option"
  rm_all_sessions :: bool

definition tool_read_messages :: "externals \<Rightarrow> auth_ctx option \<Rightarrow> read_args \<Rightarrow> message_list io" where
  "tool_read_messages x ctx args = with_auth ctx (\<lambda>auth. read_messages x auth
     \<lparr> ri_scope = or_default ''all'' (rm_scope args), ri_only_new = or_default True (rm_only_new args),
       ri_limit = or_default default_limit (rm_limit args), ri_all_sessions = rm_all_sessions args \<rparr>)"

definition tool_ask_agent ::
  "externals \<Rightarrow> auth_ctx option \<Rightarrow> ask_args \<Rightarrow> (int \<Rightarrow> recv list) \<Rightarrow> ask_result io" where
  "tool_ask_agent x ctx args arrives = with_auth ctx (\<lambda>auth. ask_agent x auth args arrives)"

definition tool_search_messages :: "externals \<Rightarrow> auth_ctx option \<Rightarrow> string \<Rightarrow> int option \<Rightarrow> message_list io" where
  "tool_search_messages x ctx q limit = with_auth ctx (\<lambda>auth.
     search_messages x auth q (or_default default_limit limit))"

definition tool_wait_for_updates ::
  "externals \<Rightarrow> auth_ctx option \<Rightarrow> wait_args \<Rightarrow> (int \<Rightarrow> recv list) \<Rightarrow> wait_result io" where
  "tool_wait_for_updates x ctx args arrives = with_auth ctx (\<lambda>auth. wait_for_updates x auth args arrives)"

subsection \<open>Tasks\<close>

record create_task_args =
  ct_key :: string
  ct_title :: string
  ct_description :: "string option"
  ct_metadata :: "json option"
  ct_depends_on :: "string list"

definition tool_create_task :: "externals \<Rightarrow> uuid \<Rightarrow> auth_ctx option \<Rightarrow> create_task_args \<Rightarrow> task_info io" where
  "tool_create_task x fresh ctx args = with_auth ctx (\<lambda>auth. create_task x fresh auth
     \<lparr> ci_key = ct_key args, ci_title = ct_title args, ci_description = ct_description args,
       ci_metadata = ct_metadata args, ci_depends_on = ct_depends_on args \<rparr>)"

record list_tasks_args =
  lt_status :: "string option"
  lt_mine_only :: bool
  lt_limit :: "int option"

definition tool_list_tasks :: "auth_ctx option \<Rightarrow> list_tasks_args \<Rightarrow> task_list io" where
  "tool_list_tasks ctx args = with_auth ctx (\<lambda>auth.
     list_tasks auth (lt_status args) (lt_mine_only args) (or_default default_limit (lt_limit args)))"

definition tool_get_task :: "auth_ctx option \<Rightarrow> string \<Rightarrow> task_detail io" where
  "tool_get_task ctx key = with_auth ctx (\<lambda>auth. get_task auth key)"

definition tool_claim_task :: "externals \<Rightarrow> auth_ctx option \<Rightarrow> string \<Rightarrow> int option \<Rightarrow> claim_result io" where
  "tool_claim_task x ctx key lease = with_auth ctx (\<lambda>auth. claim_task x auth key lease)"

definition tool_claim_next_task :: "externals \<Rightarrow> auth_ctx option \<Rightarrow> int option \<Rightarrow> claim_result io" where
  "tool_claim_next_task x ctx lease = with_auth ctx (\<lambda>auth. claim_next_task x auth lease)"

definition tool_renew_task_lease :: "externals \<Rightarrow> auth_ctx option \<Rightarrow> string \<Rightarrow> int option \<Rightarrow> task_info io" where
  "tool_renew_task_lease x ctx key lease = with_auth ctx (\<lambda>auth. renew_lease x auth key lease)"

definition tool_release_task :: "externals \<Rightarrow> auth_ctx option \<Rightarrow> string \<Rightarrow> task_info io" where
  "tool_release_task x ctx key = with_auth ctx (\<lambda>auth. release_task x auth key)"

definition tool_complete_task :: "externals \<Rightarrow> auth_ctx option \<Rightarrow> string \<Rightarrow> string option \<Rightarrow> task_info io" where
  "tool_complete_task x ctx key res = with_auth ctx (\<lambda>auth. complete_task x auth key res)"

subsection \<open>Notes\<close>

record set_note_args =
  sa_scope :: "string option"
  sa_key :: string
  sa_value :: string
  sa_tags :: "string list option"

definition tool_set_note :: "externals \<Rightarrow> uuid \<Rightarrow> auth_ctx option \<Rightarrow> set_note_args \<Rightarrow> note_info io" where
  "tool_set_note x fresh ctx args = with_auth ctx (\<lambda>auth. set_note x fresh auth
     \<lparr> si_scope = sa_scope args, si_key = sa_key args, si_value = sa_value args, si_tags = sa_tags args \<rparr>)"

definition tool_get_note :: "auth_ctx option \<Rightarrow> string option \<Rightarrow> string \<Rightarrow> note_ref io" where
  "tool_get_note ctx sc key = with_auth ctx (\<lambda>auth. get_note auth sc key)"

definition tool_list_notes ::
  "auth_ctx option \<Rightarrow> string option \<Rightarrow> string option \<Rightarrow> int option \<Rightarrow> note_info list io" where
  "tool_list_notes ctx sc tag limit = with_auth ctx (\<lambda>auth.
     list_notes auth sc tag (or_default default_limit limit))"

definition tool_search_notes ::
  "externals \<Rightarrow> auth_ctx option \<Rightarrow> string \<Rightarrow> string option \<Rightarrow> int option \<Rightarrow> note_info list io" where
  "tool_search_notes x ctx q sc limit = with_auth ctx (\<lambda>auth.
     search_notes x auth q sc (or_default default_limit limit))"

definition tool_delete_note :: "auth_ctx option \<Rightarrow> string option \<Rightarrow> string \<Rightarrow> note_ack io" where
  "tool_delete_note ctx sc key = with_auth ctx (\<lambda>auth. delete_note auth sc key)"

subsection \<open>Locks and files\<close>

definition tool_acquire_lock ::
  "externals \<Rightarrow> auth_ctx option \<Rightarrow> string \<Rightarrow> int option \<Rightarrow> string option \<Rightarrow> lock_result io" where
  "tool_acquire_lock x ctx name ttl purpose = with_auth ctx (\<lambda>auth. acquire_lock x auth name ttl purpose)"

definition tool_release_lock :: "externals \<Rightarrow> auth_ctx option \<Rightarrow> string \<Rightarrow> ack io" where
  "tool_release_lock x ctx name = with_auth ctx (\<lambda>auth. release_lock x auth name)"

definition tool_list_locks :: "auth_ctx option \<Rightarrow> lock_info list io" where
  "tool_list_locks ctx = with_auth ctx list_locks"

record attach_args =
  af_task :: "string option"
  af_message :: "int option"
  af_file :: attachment_arg

definition tool_attach_file :: "externals \<Rightarrow> auth_ctx option \<Rightarrow> attach_args \<Rightarrow> attachment_meta io" where
  "tool_attach_file x ctx args = with_auth ctx (\<lambda>auth.
     bind_io (lift (decode_input x (fa_filename (af_file args)) (fa_type (af_file args)) (fa_data (af_file args)))) (\<lambda>att.
     case (af_task args, af_message args) of
       (Some task, None) \<Rightarrow> attach_to_task auth task att
     | (None, Some i) \<Rightarrow> attach_to_message auth i att
     | _ \<Rightarrow> raise (Invalid (FileWhy TaskXorMessage))))"

definition tool_get_attachment :: "externals \<Rightarrow> auth_ctx option \<Rightarrow> int \<Rightarrow> attachment_content io" where
  "tool_get_attachment x ctx i = with_auth ctx (\<lambda>auth. get_attachment x auth i)"

subsection \<open>The server\<close>

datatype tool_call =
    Whoami
  | TeamDigest digest_args
  | Heartbeat heartbeat_args
  | ListAgents bool
  | ListChannels
  | CreateChannel uuid string "string option"
  | PostMessage post_args
  | ReadMessages read_args
  | AskAgent ask_args "int \<Rightarrow> recv list"
  | SearchMessages string "int option"
  | WaitForUpdates wait_args "int \<Rightarrow> recv list"
  | CreateTask uuid create_task_args
  | ListTasks list_tasks_args
  | GetTask string
  | ClaimTask string "int option"
  | ClaimNextTask "int option"
  | RenewTaskLease string "int option"
  | ReleaseTask string
  | CompleteTask string "string option"
  | SetNote uuid set_note_args
  | GetNote "string option" string
  | ListNotes "string option" "string option" "int option"
  | SearchNotes string "string option" "int option"
  | DeleteNote "string option" string
  | AcquireLock string "int option" "string option"
  | ReleaseLock string
  | ListLocks
  | AttachFile attach_args
  | GetAttachment int

datatype tool_result =
    WhoIs who_am_i
  | DigestIs digest_result
  | AgentIs agent_info
  | AgentsAre agent_list
  | ChannelsAre "channel_info list"
  | ChannelIs channel_info
  | PostedIs post_result
  | MessagesAre message_list
  | AnswerIs ask_result
  | WaitIs wait_result
  | TaskIsNow task_info
  | TasksAre task_list
  | DetailIs task_detail
  | ClaimIs claim_result
  | NoteIs note_info
  | NoteRefIs note_ref
  | NotesAre "note_info list"
  | NoteAckIs note_ack
  | LockIs lock_result
  | LockAckIs ack
  | LocksAre "lock_info list"
  | MetaIs attachment_meta
  | ContentIs attachment_content

definition reply :: "('a \<Rightarrow> 'b) \<Rightarrow> 'a io \<Rightarrow> 'b io" where
  "reply f m = bind_io m (\<lambda>a. ret (f a))"

fun run_tool :: "externals \<Rightarrow> auth_ctx option \<Rightarrow> tool_call \<Rightarrow> tool_result io" where
  "run_tool x ctx Whoami = reply WhoIs (tool_whoami x ctx)"
| "run_tool x ctx (TeamDigest a) = reply DigestIs (tool_team_digest ctx a)"
| "run_tool x ctx (Heartbeat a) = reply AgentIs (tool_heartbeat ctx a)"
| "run_tool x ctx (ListAgents b) = reply AgentsAre (tool_list_agents ctx b)"
| "run_tool x ctx ListChannels = reply ChannelsAre (tool_list_channels ctx)"
| "run_tool x ctx (CreateChannel i n t) = reply ChannelIs (tool_create_channel i ctx n t)"
| "run_tool x ctx (PostMessage a) = reply PostedIs (tool_post_message x ctx a)"
| "run_tool x ctx (ReadMessages a) = reply MessagesAre (tool_read_messages x ctx a)"
| "run_tool x ctx (AskAgent a f) = reply AnswerIs (tool_ask_agent x ctx a f)"
| "run_tool x ctx (SearchMessages q n) = reply MessagesAre (tool_search_messages x ctx q n)"
| "run_tool x ctx (WaitForUpdates a f) = reply WaitIs (tool_wait_for_updates x ctx a f)"
| "run_tool x ctx (CreateTask i a) = reply TaskIsNow (tool_create_task x i ctx a)"
| "run_tool x ctx (ListTasks a) = reply TasksAre (tool_list_tasks ctx a)"
| "run_tool x ctx (GetTask k) = reply DetailIs (tool_get_task ctx k)"
| "run_tool x ctx (ClaimTask k l) = reply ClaimIs (tool_claim_task x ctx k l)"
| "run_tool x ctx (ClaimNextTask l) = reply ClaimIs (tool_claim_next_task x ctx l)"
| "run_tool x ctx (RenewTaskLease k l) = reply TaskIsNow (tool_renew_task_lease x ctx k l)"
| "run_tool x ctx (ReleaseTask k) = reply TaskIsNow (tool_release_task x ctx k)"
| "run_tool x ctx (CompleteTask k r) = reply TaskIsNow (tool_complete_task x ctx k r)"
| "run_tool x ctx (SetNote i a) = reply NoteIs (tool_set_note x i ctx a)"
| "run_tool x ctx (GetNote s k) = reply NoteRefIs (tool_get_note ctx s k)"
| "run_tool x ctx (ListNotes s t n) = reply NotesAre (tool_list_notes ctx s t n)"
| "run_tool x ctx (SearchNotes q s n) = reply NotesAre (tool_search_notes x ctx q s n)"
| "run_tool x ctx (DeleteNote s k) = reply NoteAckIs (tool_delete_note ctx s k)"
| "run_tool x ctx (AcquireLock n t p) = reply LockIs (tool_acquire_lock x ctx n t p)"
| "run_tool x ctx (ReleaseLock n) = reply LockAckIs (tool_release_lock x ctx n)"
| "run_tool x ctx ListLocks = reply LocksAre (tool_list_locks ctx)"
| "run_tool x ctx (AttachFile a) = reply MetaIs (tool_attach_file x ctx a)"
| "run_tool x ctx (GetAttachment i) = reply ContentIs (tool_get_attachment x ctx i)"

text \<open>An error leaves as one of rmcp's codes, a database error without its detail.\<close>

definition call_tool ::
  "externals \<Rightarrow> auth_ctx option \<Rightarrow> tool_call \<Rightarrow> conn \<Rightarrow> ((error_code \<times> why option) + tool_result) \<times> conn" where
  "call_tool x ctx call c = (case run_tool x ctx call c of
       (Inl e, c1) \<Rightarrow> (Inl (to_error_data e), c1) | (Inr r, c1) \<Rightarrow> (Inr r, c1))"

subsection \<open>No caller without an identity\<close>

lemma with_auth_None: "with_auth None f c = (Inl (Unauthenticated (TextWhy NoAuthContext)), c)"
  by (simp add: with_auth_def raise_def)

text \<open>
  C14 (error). A request that reached a tool without passing the authentication middleware is
  refused by every tool with the same error, and touches nothing, not even the clock.
\<close>

theorem unauthenticated_call:
  "call_tool x None call c = (Inl (InvalidRequest, Some (TextWhy NoAuthContext)), c)"
proof -
  have "run_tool x None call c = (Inl (Unauthenticated (TextWhy NoAuthContext)), c)"
    by (cases call)
      (simp_all add: reply_def bind_io_def with_auth_None tool_whoami_def tool_team_digest_def
        tool_heartbeat_def tool_list_agents_def tool_list_channels_def tool_create_channel_def
        tool_post_message_def tool_read_messages_def tool_ask_agent_def tool_search_messages_def
        tool_wait_for_updates_def tool_create_task_def tool_list_tasks_def tool_get_task_def
        tool_claim_task_def tool_claim_next_task_def tool_renew_task_lease_def tool_release_task_def
        tool_complete_task_def tool_set_note_def tool_get_note_def tool_list_notes_def
        tool_search_notes_def tool_delete_note_def tool_acquire_lock_def tool_release_lock_def
        tool_list_locks_def tool_attach_file_def tool_get_attachment_def)
  then show ?thesis by (simp add: call_tool_def)
qed

end
