(* ===== verification/Wire.thy ===== *)
theory Wire
  imports Tools
begin

text \<open>
  The arguments of a tool call on the wire: the decoders that serde derives from the
  \<open>*Args\<close> structs of \<open>tools/*.rs\<close>, and which tool a name and a JSON object call.
\<close>

subsection \<open>Fields\<close>

text \<open>
  A plain field must be there; an \<open>Option\<close> field may be missing or \<open>null\<close>; a field with a
  default may be missing, but \<open>null\<close> is not a value of its type.
\<close>

definition required :: "(json \<Rightarrow> 'a option) \<Rightarrow> json option \<Rightarrow> 'a option" where
  "required f m = Option.bind m f"

definition nullable :: "(json \<Rightarrow> 'a option) \<Rightarrow> json option \<Rightarrow> 'a option option" where
  "nullable f m = (case m of None \<Rightarrow> Some None
     | Some j \<Rightarrow> if j = JNull then Some None else map_option Some (f j))"

definition defaulted :: "(json \<Rightarrow> 'a option) \<Rightarrow> json option \<Rightarrow> 'a option option" where
  "defaulted f m = (case m of None \<Rightarrow> Some None | Some j \<Rightarrow> map_option Some (f j))"

definition flag :: "json option \<Rightarrow> bool option" where
  "flag m = (case m of None \<Rightarrow> Some False | Some j \<Rightarrow> as_bool j)"

fun as_array :: "json \<Rightarrow> json list option" where
  "as_array (JArr xs) = Some xs"
| "as_array _ = None"

definition list_of :: "(json \<Rightarrow> 'a option) \<Rightarrow> json \<Rightarrow> 'a list option" where
  "list_of f j = Option.bind (as_array j) (\<lambda>xs. those (map f xs))"

definition any_json :: "json \<Rightarrow> json option" where
  "any_json j = Some j"

type_synonym arguments = "(string \<times> json) list"

subsection \<open>Argument structs\<close>

definition digest_args_of :: "arguments \<Rightarrow> digest_args option" where
  "digest_args_of a =
     Option.bind (nullable as_i64 (map_of a ''hours'')) (\<lambda>h.
     Option.bind (flag (map_of a ''all_channels'')) (\<lambda>al.
     Some \<lparr> dg_hours = h, dg_all_channels = al \<rparr>))"

definition heartbeat_args_of :: "arguments \<Rightarrow> heartbeat_args option" where
  "heartbeat_args_of a =
     Option.bind (nullable as_str (map_of a ''status'')) (\<lambda>st.
     Option.bind (nullable as_str (map_of a ''repo'')) (\<lambda>re.
     Option.bind (nullable as_str (map_of a ''branch'')) (\<lambda>br.
     Option.bind (nullable as_str (map_of a ''activity'')) (\<lambda>ac.
     Option.bind (nullable as_i64 (map_of a ''ttl_seconds'')) (\<lambda>ttl.
     Some \<lparr> ha_status = st, ha_repo = re, ha_branch = br, ha_activity = ac, ha_ttl = ttl \<rparr>)))))"

definition attachment_input_of :: "json \<Rightarrow> attachment_arg option" where
  "attachment_input_of j =
     Option.bind (required as_str (json_get j ''filename'')) (\<lambda>n.
     Option.bind (nullable as_str (json_get j ''content_type'')) (\<lambda>ct.
     Option.bind (required as_str (json_get j ''data_base64'')) (\<lambda>b.
     Some \<lparr> fa_filename = n, fa_type = ct, fa_data = b \<rparr>)))"

definition post_args_of :: "arguments \<Rightarrow> post_args option" where
  "post_args_of a =
     Option.bind (nullable as_str (map_of a ''channel'')) (\<lambda>ch.
     Option.bind (flag (map_of a ''announce'')) (\<lambda>ann.
     Option.bind (nullable as_str (map_of a ''to'')) (\<lambda>to.
     Option.bind (required as_str (map_of a ''body'')) (\<lambda>b.
     Option.bind (nullable as_i64 (map_of a ''reply_to'')) (\<lambda>re.
     Option.bind (nullable any_json (map_of a ''metadata'')) (\<lambda>me.
     Option.bind (nullable (list_of attachment_input_of) (map_of a ''attachments'')) (\<lambda>files.
     Some \<lparr> pm_channel = ch, pm_announce = ann, pm_to = to, pm_body = b, pm_reply_to = re,
            pm_metadata = me, pm_attachments = files \<rparr>)))))))"

definition read_args_of :: "arguments \<Rightarrow> read_args option" where
  "read_args_of a =
     Option.bind (defaulted as_str (map_of a ''scope'')) (\<lambda>sc.
     Option.bind (defaulted as_bool (map_of a ''only_new'')) (\<lambda>new.
     Option.bind (defaulted as_i64 (map_of a ''limit'')) (\<lambda>n.
     Option.bind (flag (map_of a ''all_sessions'')) (\<lambda>al.
     Some \<lparr> rm_scope = sc, rm_only_new = new, rm_limit = n, rm_all_sessions = al \<rparr>))))"

definition ask_args_of :: "arguments \<Rightarrow> ask_args option" where
  "ask_args_of a =
     Option.bind (required as_str (map_of a ''to'')) (\<lambda>to.
     Option.bind (nullable as_str (map_of a ''question'')) (\<lambda>q.
     Option.bind (nullable as_i64 (map_of a ''timeout_seconds'')) (\<lambda>t.
     Option.bind (nullable as_i64 (map_of a ''resume_message_id'')) (\<lambda>i.
     Some \<lparr> aa_to = to, aa_question = q, aa_timeout = t, aa_resume = i \<rparr>))))"

definition wait_args_of :: "arguments \<Rightarrow> wait_args option" where
  "wait_args_of a =
     Option.bind (nullable as_i64 (map_of a ''timeout_seconds'')) (\<lambda>t.
     Option.bind (nullable (list_of as_str) (map_of a ''kinds'')) (\<lambda>ks.
     Option.bind (flag (map_of a ''all_channels'')) (\<lambda>al.
     Some \<lparr> wa_timeout = t, wa_kinds = ks, wa_all_channels = al \<rparr>)))"

definition create_task_args_of :: "arguments \<Rightarrow> create_task_args option" where
  "create_task_args_of a =
     Option.bind (required as_str (map_of a ''key'')) (\<lambda>k.
     Option.bind (required as_str (map_of a ''title'')) (\<lambda>t.
     Option.bind (nullable as_str (map_of a ''description'')) (\<lambda>de.
     Option.bind (nullable any_json (map_of a ''metadata'')) (\<lambda>me.
     Option.bind (defaulted (list_of as_str) (map_of a ''depends_on'')) (\<lambda>dep.
     Some \<lparr> ct_key = k, ct_title = t, ct_description = de, ct_metadata = me,
            ct_depends_on = or_default [] dep \<rparr>)))))"

definition list_tasks_args_of :: "arguments \<Rightarrow> list_tasks_args option" where
  "list_tasks_args_of a =
     Option.bind (nullable as_str (map_of a ''status'')) (\<lambda>st.
     Option.bind (flag (map_of a ''mine_only'')) (\<lambda>mine.
     Option.bind (defaulted as_i64 (map_of a ''limit'')) (\<lambda>n.
     Some \<lparr> lt_status = st, lt_mine_only = mine, lt_limit = n \<rparr>)))"

definition set_note_args_of :: "arguments \<Rightarrow> set_note_args option" where
  "set_note_args_of a =
     Option.bind (nullable as_str (map_of a ''scope'')) (\<lambda>sc.
     Option.bind (required as_str (map_of a ''key'')) (\<lambda>k.
     Option.bind (required as_str (map_of a ''value'')) (\<lambda>v.
     Option.bind (nullable (list_of as_str) (map_of a ''tags'')) (\<lambda>ts.
     Some \<lparr> sa_scope = sc, sa_key = k, sa_value = v, sa_tags = ts \<rparr>))))"

definition attach_args_of :: "arguments \<Rightarrow> attach_args option" where
  "attach_args_of a =
     Option.bind (nullable as_str (map_of a ''task'')) (\<lambda>t.
     Option.bind (nullable as_i64 (map_of a ''message_id'')) (\<lambda>m.
     Option.bind (attachment_input_of (JObj a)) (\<lambda>f.
     Some \<lparr> af_task = t, af_message = m, af_file = f \<rparr>)))"

subsection \<open>Calls\<close>

definition one_of :: "(json \<Rightarrow> 'a option) \<Rightarrow> arguments \<Rightarrow> string \<Rightarrow> ('a \<Rightarrow> tool_call) \<Rightarrow> tool_call option" where
  "one_of f a k call = map_option call (required f (map_of a k))"

definition parse_call :: "uuid \<Rightarrow> (int \<Rightarrow> recv list) \<Rightarrow> string \<Rightarrow> arguments \<Rightarrow> tool_call option" where
  "parse_call fresh arrives tool a =
     (if tool = ''whoami'' then Some Whoami
      else if tool = ''team_digest'' then map_option TeamDigest (digest_args_of a)
      else if tool = ''heartbeat'' then map_option Heartbeat (heartbeat_args_of a)
      else if tool = ''list_agents'' then map_option ListAgents (flag (map_of a ''online_only''))
      else if tool = ''list_channels'' then Some ListChannels
      else if tool = ''create_channel'' then
        Option.bind (required as_str (map_of a ''name'')) (\<lambda>n.
        map_option (CreateChannel fresh n) (nullable as_str (map_of a ''topic'')))
      else if tool = ''post_message'' then map_option PostMessage (post_args_of a)
      else if tool = ''read_messages'' then map_option ReadMessages (read_args_of a)
      else if tool = ''ask_agent'' then map_option (\<lambda>r. AskAgent r arrives) (ask_args_of a)
      else if tool = ''search_messages'' then
        Option.bind (required as_str (map_of a ''query'')) (\<lambda>q.
        map_option (SearchMessages q) (defaulted as_i64 (map_of a ''limit'')))
      else if tool = ''wait_for_updates'' then map_option (\<lambda>r. WaitForUpdates r arrives) (wait_args_of a)
      else if tool = ''create_task'' then map_option (CreateTask fresh) (create_task_args_of a)
      else if tool = ''list_tasks'' then map_option ListTasks (list_tasks_args_of a)
      else if tool = ''get_task'' then one_of as_str a ''key'' GetTask
      else if tool = ''claim_task'' then
        Option.bind (required as_str (map_of a ''key'')) (\<lambda>k.
        map_option (ClaimTask k) (nullable as_i64 (map_of a ''lease_seconds'')))
      else if tool = ''claim_next_task'' then
        map_option ClaimNextTask (nullable as_i64 (map_of a ''lease_seconds''))
      else if tool = ''renew_task_lease'' then
        Option.bind (required as_str (map_of a ''key'')) (\<lambda>k.
        map_option (RenewTaskLease k) (nullable as_i64 (map_of a ''lease_seconds'')))
      else if tool = ''release_task'' then one_of as_str a ''key'' ReleaseTask
      else if tool = ''complete_task'' then
        Option.bind (required as_str (map_of a ''key'')) (\<lambda>k.
        map_option (CompleteTask k) (nullable as_str (map_of a ''result'')))
      else if tool = ''set_note'' then map_option (SetNote fresh) (set_note_args_of a)
      else if tool = ''get_note'' then
        Option.bind (nullable as_str (map_of a ''scope'')) (\<lambda>sc. one_of as_str a ''key'' (GetNote sc))
      else if tool = ''list_notes'' then
        Option.bind (nullable as_str (map_of a ''scope'')) (\<lambda>sc.
        Option.bind (nullable as_str (map_of a ''tag'')) (\<lambda>tg.
        map_option (ListNotes sc tg) (defaulted as_i64 (map_of a ''limit''))))
      else if tool = ''search_notes'' then
        Option.bind (required as_str (map_of a ''query'')) (\<lambda>q.
        Option.bind (nullable as_str (map_of a ''scope'')) (\<lambda>sc.
        map_option (SearchNotes q sc) (defaulted as_i64 (map_of a ''limit''))))
      else if tool = ''delete_note'' then
        Option.bind (nullable as_str (map_of a ''scope'')) (\<lambda>sc. one_of as_str a ''key'' (DeleteNote sc))
      else if tool = ''acquire_lock'' then
        Option.bind (required as_str (map_of a ''name'')) (\<lambda>n.
        Option.bind (nullable as_i64 (map_of a ''ttl_seconds'')) (\<lambda>ttl.
        map_option (AcquireLock n ttl) (nullable as_str (map_of a ''purpose''))))
      else if tool = ''release_lock'' then one_of as_str a ''name'' ReleaseLock
      else if tool = ''list_locks'' then Some ListLocks
      else if tool = ''attach_file'' then map_option AttachFile (attach_args_of a)
      else if tool = ''get_attachment'' then one_of as_i64 a ''id'' GetAttachment
      else None)"

subsection \<open>Decoding what was encoded\<close>

named_theorems decode_simps "a decoded field is the encoded value"

lemma decode_required [decode_simps]:
  "required as_str (Some (JStr s)) = Some s" "required as_i64 (Some (JNum i)) = Some i"
  by (simp_all add: required_def)

lemma decode_flag [decode_simps]: "flag (Some (JBool b)) = Some b" "flag None = Some False"
  by (simp_all add: flag_def)

lemma decode_defaulted [decode_simps]:
  "defaulted f None = Some None" "defaulted as_str (Some (JStr s)) = Some (Some s)"
  "defaulted as_i64 (Some (JNum i)) = Some (Some i)" "defaulted as_bool (Some (JBool b)) = Some (Some b)"
  by (simp_all add: defaulted_def)

lemma decode_nullable [decode_simps]:
  "nullable f None = Some None" "nullable as_str (Some (JStr s)) = Some (Some s)"
  "nullable as_i64 (Some (JNum i)) = Some (Some i)"
  "nullable as_str (map_option JStr m) = Some m" "nullable as_i64 (map_option JNum n) = Some n"
  by (auto simp: nullable_def split: option.splits)

lemma those_map_Some: "(\<And>x. x \<in> set xs \<Longrightarrow> f (g x) = Some (h x)) \<Longrightarrow> those (map f (map g xs)) = Some (map h xs)"
  by (induction xs) auto

lemma decode_strings [decode_simps]: "list_of as_str (JArr (map JStr xs)) = Some xs"
  using those_map_Some [of xs as_str JStr id] by (simp add: list_of_def)

lemma parse_call_simps [decode_simps]:
  "parse_call fresh arrives ''whoami'' a = Some Whoami"
  "parse_call fresh arrives ''team_digest'' a = map_option TeamDigest (digest_args_of a)"
  "parse_call fresh arrives ''heartbeat'' a = map_option Heartbeat (heartbeat_args_of a)"
  "parse_call fresh arrives ''list_agents'' a =
     map_option ListAgents (flag (map_of a ''online_only''))"
  "parse_call fresh arrives ''list_channels'' a = Some ListChannels"
  "parse_call fresh arrives ''create_channel'' a =
     Option.bind (required as_str (map_of a ''name'')) (\<lambda>n.
     map_option (CreateChannel fresh n) (nullable as_str (map_of a ''topic'')))"
  "parse_call fresh arrives ''post_message'' a = map_option PostMessage (post_args_of a)"
  "parse_call fresh arrives ''read_messages'' a = map_option ReadMessages (read_args_of a)"
  "parse_call fresh arrives ''ask_agent'' a =
     map_option (\<lambda>r. AskAgent r arrives) (ask_args_of a)"
  "parse_call fresh arrives ''search_messages'' a =
     Option.bind (required as_str (map_of a ''query'')) (\<lambda>q.
     map_option (SearchMessages q) (defaulted as_i64 (map_of a ''limit'')))"
  "parse_call fresh arrives ''wait_for_updates'' a =
     map_option (\<lambda>r. WaitForUpdates r arrives) (wait_args_of a)"
  "parse_call fresh arrives ''create_task'' a =
     map_option (CreateTask fresh) (create_task_args_of a)"
  "parse_call fresh arrives ''list_tasks'' a = map_option ListTasks (list_tasks_args_of a)"
  "parse_call fresh arrives ''get_task'' a = one_of as_str a ''key'' GetTask"
  "parse_call fresh arrives ''claim_task'' a =
     Option.bind (required as_str (map_of a ''key'')) (\<lambda>k.
     map_option (ClaimTask k) (nullable as_i64 (map_of a ''lease_seconds'')))"
  "parse_call fresh arrives ''claim_next_task'' a =
     map_option ClaimNextTask (nullable as_i64 (map_of a ''lease_seconds''))"
  "parse_call fresh arrives ''renew_task_lease'' a =
     Option.bind (required as_str (map_of a ''key'')) (\<lambda>k.
     map_option (RenewTaskLease k) (nullable as_i64 (map_of a ''lease_seconds'')))"
  "parse_call fresh arrives ''release_task'' a = one_of as_str a ''key'' ReleaseTask"
  "parse_call fresh arrives ''complete_task'' a =
     Option.bind (required as_str (map_of a ''key'')) (\<lambda>k.
     map_option (CompleteTask k) (nullable as_str (map_of a ''result'')))"
  "parse_call fresh arrives ''set_note'' a = map_option (SetNote fresh) (set_note_args_of a)"
  "parse_call fresh arrives ''get_note'' a =
     Option.bind (nullable as_str (map_of a ''scope'')) (\<lambda>sc.
     one_of as_str a ''key'' (GetNote sc))"
  "parse_call fresh arrives ''list_notes'' a =
     Option.bind (nullable as_str (map_of a ''scope'')) (\<lambda>sc.
     Option.bind (nullable as_str (map_of a ''tag'')) (\<lambda>tg.
     map_option (ListNotes sc tg) (defaulted as_i64 (map_of a ''limit''))))"
  "parse_call fresh arrives ''search_notes'' a =
     Option.bind (required as_str (map_of a ''query'')) (\<lambda>q.
     Option.bind (nullable as_str (map_of a ''scope'')) (\<lambda>sc.
     map_option (SearchNotes q sc) (defaulted as_i64 (map_of a ''limit''))))"
  "parse_call fresh arrives ''delete_note'' a =
     Option.bind (nullable as_str (map_of a ''scope'')) (\<lambda>sc.
     one_of as_str a ''key'' (DeleteNote sc))"
  "parse_call fresh arrives ''acquire_lock'' a =
     Option.bind (required as_str (map_of a ''name'')) (\<lambda>n.
     Option.bind (nullable as_i64 (map_of a ''ttl_seconds'')) (\<lambda>ttl.
     map_option (AcquireLock n ttl) (nullable as_str (map_of a ''purpose''))))"
  "parse_call fresh arrives ''release_lock'' a = one_of as_str a ''name'' ReleaseLock"
  "parse_call fresh arrives ''list_locks'' a = Some ListLocks"
  "parse_call fresh arrives ''attach_file'' a = map_option AttachFile (attach_args_of a)"
  "parse_call fresh arrives ''get_attachment'' a = one_of as_i64 a ''id'' GetAttachment"
  by (simp_all add: parse_call_def)

end
