(* ===== verification/Client_Calls.thy ===== *)
theory Client_Calls
  imports Wire
begin

text \<open>
  \<open>client/mapping.rs\<close> with the subcommands of \<open>client/mod.rs\<close>: from a parsed subcommand of
  the console client to the name and the arguments of a tool call. Reading a file is a
  parameter of the model, as is which byte strings are UTF-8.
\<close>

subsection \<open>Subcommands\<close>

datatype lock_cmd =
    LockAcquire string "int option" "string option"   \<comment> \<open>name, ttl, purpose\<close>
  | LockRelease string
  | LockList

datatype task_cmd =
    TaskCreate string string "string option" "string list"   \<comment> \<open>key, title, description, depends on\<close>
  | TaskShow string
  | TaskClaim string "int option"
  | TaskNext "int option"
  | TaskRenew string "int option"
  | TaskRelease string
  | TaskDone string "string option"

datatype note_cmd =
    NoteGet string "string option"                           \<comment> \<open>key, scope\<close>
  | NoteSet string string "string option" "string list"      \<comment> \<open>key, value, scope, tags\<close>
  | NoteRm string "string option"
  | NoteSearch string "string option"

record send_flags =
  sf_channel :: "string option"
  sf_to :: "string option"
  sf_body :: string
  sf_announce :: bool
  sf_reply_to :: "int option"
  sf_files :: "string list"

datatype client_cmd =
    CmdWhoami
  | CmdTools
  | CmdSend send_flags
  | CmdAttach string string "string option"                  \<comment> \<open>task, file, content type\<close>
  | CmdDownload int "string option"
  | CmdAsk string "string option" "int option" "int option"  \<comment> \<open>to, question, timeout, resume\<close>
  | CmdRead string bool int bool                             \<comment> \<open>scope, history, limit, all sessions\<close>
  | CmdSearch string int
  | CmdChannels
  | CmdChannelCreate string "string option"
  | CmdAgents bool
  | CmdBeat heartbeat_args
  | CmdTasks "string option" bool
  | CmdTask task_cmd
  | CmdNotes "string option" "string option"
  | CmdNote note_cmd
  | CmdWait "int option" "string list" bool
  | CmdLock lock_cmd
  | CmdDigest int bool
  | CmdCall string string

subsection \<open>Files\<close>

record machine =
  mc_read :: "string \<Rightarrow> string option"
  mc_utf8 :: "string \<Rightarrow> bool"

text \<open>\<open>Path::file_name\<close> and \<open>Path::extension\<close> on Unix.\<close>

definition path_parts :: "string \<Rightarrow> string list" where
  "path_parts p = filter (\<lambda>s. s \<noteq> [] \<and> s \<noteq> ''.'') (split_on (CHR ''/'') p)"

definition file_name :: "string \<Rightarrow> string option" where
  "file_name p = (case rev (path_parts p) of [] \<Rightarrow> None | s # _ \<Rightarrow> if s = ''..'' then None else Some s)"

definition extension :: "string \<Rightarrow> string option" where
  "extension p = Option.bind (file_name p) (\<lambda>s. case rsplit_once (CHR ''.'') s of
       None \<Rightarrow> None | Some (stem, ext) \<Rightarrow> if stem = [] then None else Some ext)"

definition to_str :: "machine \<Rightarrow> string option \<Rightarrow> string option" where
  "to_str m s = Option.bind s (\<lambda>b. if mc_utf8 m b then Some b else None)"

definition guess_content_type :: "machine \<Rightarrow> string \<Rightarrow> string" where
  "guess_content_type m path =
     (let ext = coalesce (to_str m (extension path)) in
      if ext \<in> {''txt'', ''md'', ''log'', ''diff'', ''patch'', ''rs'', ''toml'', ''yml'', ''yaml'', ''sh''}
      then ''text/plain''
      else if ext = ''json'' then ''application/json''
      else ''application/octet-stream'')"

datatype client_error =
    CannotRead string
  | ArgsNotJson string
  | ArgsNotObject
  | NoToolMapping
  | Unreachable
  | CallFailed string
  | ToolError string
  | InvalidBase64
  | CannotWrite string

definition attachment_json ::
  "externals \<Rightarrow> machine \<Rightarrow> string \<Rightarrow> string option \<Rightarrow> client_error + arguments" where
  "attachment_json x m path content_type = (case mc_read m path of
       None \<Rightarrow> Inl (CannotRead path)
     | Some bytes \<Rightarrow> Inr
         [(''filename'', JStr (or_default ''file'' (to_str m (file_name path)))),
          (''content_type'', JStr (or_default (guess_content_type m path) content_type)),
          (''data_base64'', JStr (b64_encode x bytes))])"

subsection \<open>Calls\<close>

lemma size_field: "(k, v) \<in> set kvs \<Longrightarrow> size v < size (JObj kvs)"
  by (induction kvs) auto

text \<open>Null fields are dropped, in nested objects too; arrays are left alone.\<close>

function compact :: "json \<Rightarrow> json" where
  "compact (JObj kvs) = JObj (map (\<lambda>(k, v). (k, compact v)) (filter (\<lambda>(k, v). v \<noteq> JNull) kvs))"
| "compact JNull = JNull"
| "compact (JBool b) = JBool b"
| "compact (JNum n) = JNum n"
| "compact (JStr s) = JStr s"
| "compact (JArr xs) = JArr xs"
  by pat_completeness auto

termination
  by (relation "measure size") (auto dest: size_field)

definition or_null :: "'a list \<Rightarrow> json \<Rightarrow> json" where
  "or_null xs j = (if xs = [] then JNull else j)"

definition strings :: "string list \<Rightarrow> json" where
  "strings xs = JArr (map JStr xs)"

fun collect :: "('a \<Rightarrow> client_error + 'b) \<Rightarrow> 'a list \<Rightarrow> client_error + 'b list" where
  "collect f [] = Inr []"
| "collect f (y # ys) = (case f y of Inl e \<Rightarrow> Inl e
     | Inr b \<Rightarrow> (case collect f ys of Inl e \<Rightarrow> Inl e | Inr bs \<Rightarrow> Inr (b # bs)))"

fun lock_call :: "lock_cmd \<Rightarrow> string \<times> arguments" where
  "lock_call (LockAcquire name ttl purpose) =
     (''acquire_lock'', [(''name'', JStr name), (''ttl_seconds'', json_opt JNum ttl),
        (''purpose'', json_opt JStr purpose)])"
| "lock_call (LockRelease name) = (''release_lock'', [(''name'', JStr name)])"
| "lock_call LockList = (''list_locks'', [])"

fun task_call :: "task_cmd \<Rightarrow> string \<times> arguments" where
  "task_call (TaskCreate key title description deps) =
     (''create_task'', [(''key'', JStr key), (''title'', JStr title),
        (''description'', json_opt JStr description), (''depends_on'', or_null deps (strings deps))])"
| "task_call (TaskShow key) = (''get_task'', [(''key'', JStr key)])"
| "task_call (TaskClaim key lease) =
     (''claim_task'', [(''key'', JStr key), (''lease_seconds'', json_opt JNum lease)])"
| "task_call (TaskNext lease) = (''claim_next_task'', [(''lease_seconds'', json_opt JNum lease)])"
| "task_call (TaskRenew key lease) =
     (''renew_task_lease'', [(''key'', JStr key), (''lease_seconds'', json_opt JNum lease)])"
| "task_call (TaskRelease key) = (''release_task'', [(''key'', JStr key)])"
| "task_call (TaskDone key res) =
     (''complete_task'', [(''key'', JStr key), (''result'', json_opt JStr res)])"

fun note_call :: "note_cmd \<Rightarrow> string \<times> arguments" where
  "note_call (NoteGet key sc) = (''get_note'', [(''key'', JStr key), (''scope'', json_opt JStr sc)])"
| "note_call (NoteSet key val sc tags) =
     (''set_note'', [(''key'', JStr key), (''value'', JStr val), (''scope'', json_opt JStr sc),
        (''tags'', or_null tags (strings tags))])"
| "note_call (NoteRm key sc) = (''delete_note'', [(''key'', JStr key), (''scope'', json_opt JStr sc)])"
| "note_call (NoteSearch q sc) = (''search_notes'', [(''query'', JStr q), (''scope'', json_opt JStr sc)])"

fun raw_call :: "externals \<Rightarrow> machine \<Rightarrow> client_cmd \<Rightarrow> client_error + (string \<times> arguments) option" where
  "raw_call x m CmdWhoami = Inr (Some (''whoami'', []))"
| "raw_call x m CmdTools = Inr None"
| "raw_call x m (CmdSend f) = (case collect (\<lambda>p. attachment_json x m p None) (sf_files f) of
       Inl e \<Rightarrow> Inl e
     | Inr atts \<Rightarrow> Inr (Some (''post_message'',
         [(''channel'', json_opt JStr (sf_channel f)), (''to'', json_opt JStr (sf_to f)),
          (''body'', JStr (sf_body f)), (''announce'', JBool (sf_announce f)),
          (''reply_to'', json_opt JNum (sf_reply_to f)),
          (''attachments'', or_null atts (JArr (map JObj atts)))])))"
| "raw_call x m (CmdAttach task path ct) = (case attachment_json x m path ct of
       Inl e \<Rightarrow> Inl e
     | Inr att \<Rightarrow> Inr (Some (''attach_file'', att @ [(''task'', JStr task)])))"
| "raw_call x m (CmdDownload i out) = Inr (Some (''get_attachment'', [(''id'', JNum i)]))"
| "raw_call x m (CmdAsk to question timeout resume) = Inr (Some (''ask_agent'',
     [(''to'', JStr to), (''question'', json_opt JStr question),
      (''timeout_seconds'', json_opt JNum timeout), (''resume_message_id'', json_opt JNum resume)]))"
| "raw_call x m (CmdRead sc history limit al) = Inr (Some (''read_messages'',
     [(''scope'', JStr sc), (''only_new'', JBool (\<not> history)), (''limit'', JNum limit),
      (''all_sessions'', JBool al)]))"
| "raw_call x m (CmdSearch q limit) = Inr (Some (''search_messages'',
     [(''query'', JStr q), (''limit'', JNum limit)]))"
| "raw_call x m CmdChannels = Inr (Some (''list_channels'', []))"
| "raw_call x m (CmdChannelCreate name topic) = Inr (Some (''create_channel'',
     [(''name'', JStr name), (''topic'', json_opt JStr topic)]))"
| "raw_call x m (CmdAgents online) = Inr (Some (''list_agents'', [(''online_only'', JBool online)]))"
| "raw_call x m (CmdBeat a) = Inr (Some (''heartbeat'',
     [(''status'', json_opt JStr (ha_status a)), (''repo'', json_opt JStr (ha_repo a)),
      (''branch'', json_opt JStr (ha_branch a)), (''activity'', json_opt JStr (ha_activity a)),
      (''ttl_seconds'', json_opt JNum (ha_ttl a))]))"
| "raw_call x m (CmdTasks status mine) = Inr (Some (''list_tasks'',
     [(''status'', json_opt JStr status), (''mine_only'', JBool mine)]))"
| "raw_call x m (CmdTask t) = Inr (Some (task_call t))"
| "raw_call x m (CmdNotes sc tag) = Inr (Some (''list_notes'',
     [(''scope'', json_opt JStr sc), (''tag'', json_opt JStr tag)]))"
| "raw_call x m (CmdNote n) = Inr (Some (note_call n))"
| "raw_call x m (CmdWait timeout kinds al) = Inr (Some (''wait_for_updates'',
     [(''timeout_seconds'', json_opt JNum timeout), (''kinds'', or_null kinds (strings kinds)),
      (''all_channels'', JBool al)]))"
| "raw_call x m (CmdLock l) = Inr (Some (lock_call l))"
| "raw_call x m (CmdDigest hours al) = Inr (Some (''team_digest'',
     [(''hours'', JNum hours), (''all_channels'', JBool al)]))"
| "raw_call x m (CmdCall tool args) = Inl Unreachable"

definition to_call :: "externals \<Rightarrow> machine \<Rightarrow> client_cmd \<Rightarrow> client_error + (string \<times> json) option" where
  "to_call x m cmd = (case raw_call x m cmd of
       Inl e \<Rightarrow> Inl e
     | Inr None \<Rightarrow> Inr None
     | Inr (Some (tool, args)) \<Rightarrow> Inr (Some (tool, compact (JObj args))))"

subsection \<open>What a subcommand means\<close>

definition read_file :: "externals \<Rightarrow> machine \<Rightarrow> string option \<Rightarrow> string \<Rightarrow> attachment_arg option" where
  "read_file x m ct path = map_option (\<lambda>bytes.
     \<lparr> fa_filename = or_default ''file'' (to_str m (file_name path)),
       fa_type = Some (or_default (guess_content_type m path) ct),
       fa_data = b64_encode x bytes \<rparr>) (mc_read m path)"

definition some_list :: "'a list \<Rightarrow> 'a list option" where
  "some_list xs = (if xs = [] then None else Some xs)"

fun task_means :: "uuid \<Rightarrow> task_cmd \<Rightarrow> tool_call" where
  "task_means i (TaskCreate k t de deps) = CreateTask i
     \<lparr> ct_key = k, ct_title = t, ct_description = de, ct_metadata = None, ct_depends_on = deps \<rparr>"
| "task_means i (TaskShow k) = GetTask k"
| "task_means i (TaskClaim k l) = ClaimTask k l"
| "task_means i (TaskNext l) = ClaimNextTask l"
| "task_means i (TaskRenew k l) = RenewTaskLease k l"
| "task_means i (TaskRelease k) = ReleaseTask k"
| "task_means i (TaskDone k r) = CompleteTask k r"

fun note_means :: "uuid \<Rightarrow> note_cmd \<Rightarrow> tool_call" where
  "note_means i (NoteGet k sc) = GetNote sc k"
| "note_means i (NoteSet k v sc tags) = SetNote i
     \<lparr> sa_scope = sc, sa_key = k, sa_value = v, sa_tags = some_list tags \<rparr>"
| "note_means i (NoteRm k sc) = DeleteNote sc k"
| "note_means i (NoteSearch q sc) = SearchNotes q sc None"

fun lock_means :: "lock_cmd \<Rightarrow> tool_call" where
  "lock_means (LockAcquire n ttl p) = AcquireLock n ttl p"
| "lock_means (LockRelease n) = ReleaseLock n"
| "lock_means LockList = ListLocks"

fun means :: "externals \<Rightarrow> machine \<Rightarrow> uuid \<Rightarrow> (int \<Rightarrow> recv list) \<Rightarrow> client_cmd \<Rightarrow> tool_call option" where
  "means x m i f CmdWhoami = Some Whoami"
| "means x m i f CmdTools = None"
| "means x m i f (CmdSend s) = map_option (\<lambda>files. PostMessage
     \<lparr> pm_channel = sf_channel s, pm_announce = sf_announce s, pm_to = sf_to s, pm_body = sf_body s,
       pm_reply_to = sf_reply_to s, pm_metadata = None, pm_attachments = some_list files \<rparr>)
     (those (map (read_file x m None) (sf_files s)))"
| "means x m i f (CmdAttach task path ct) = map_option (\<lambda>a. AttachFile
     \<lparr> af_task = Some task, af_message = None, af_file = a \<rparr>) (read_file x m ct path)"
| "means x m i f (CmdDownload j out) = Some (GetAttachment j)"
| "means x m i f (CmdAsk to q t r) = Some (AskAgent
     \<lparr> aa_to = to, aa_question = q, aa_timeout = t, aa_resume = r \<rparr> f)"
| "means x m i f (CmdRead sc history limit al) = Some (ReadMessages
     \<lparr> rm_scope = Some sc, rm_only_new = Some (\<not> history), rm_limit = Some limit, rm_all_sessions = al \<rparr>)"
| "means x m i f (CmdSearch q limit) = Some (SearchMessages q (Some limit))"
| "means x m i f CmdChannels = Some ListChannels"
| "means x m i f (CmdChannelCreate n t) = Some (CreateChannel i n t)"
| "means x m i f (CmdAgents b) = Some (ListAgents b)"
| "means x m i f (CmdBeat a) = Some (Heartbeat a)"
| "means x m i f (CmdTasks st mine) = Some (ListTasks
     \<lparr> lt_status = st, lt_mine_only = mine, lt_limit = None \<rparr>)"
| "means x m i f (CmdTask t) = Some (task_means i t)"
| "means x m i f (CmdNotes sc tg) = Some (ListNotes sc tg None)"
| "means x m i f (CmdNote n) = Some (note_means i n)"
| "means x m i f (CmdWait t ks al) = Some (WaitForUpdates
     \<lparr> wa_timeout = t, wa_kinds = some_list ks, wa_all_channels = al \<rparr> f)"
| "means x m i f (CmdLock l) = Some (lock_means l)"
| "means x m i f (CmdDigest h al) = Some (TeamDigest \<lparr> dg_hours = Some h, dg_all_channels = al \<rparr>)"
| "means x m i f (CmdCall tool args) = None"

subsection \<open>The server decodes what the client meant\<close>

text \<open>The fields that survive \<open>compact\<close>, and looking one up.\<close>

definition carried :: "arguments \<Rightarrow> arguments" where
  "carried kvs = map (\<lambda>(k, v). (k, compact v)) (filter (\<lambda>(k, v). v \<noteq> JNull) kvs)"

definition kept :: "json \<Rightarrow> json option" where
  "kept v = (if v = JNull then None else Some (compact v))"

lemma compact_not_null: "v \<noteq> JNull \<Longrightarrow> compact v \<noteq> JNull"
  by (cases v) auto

lemma carried_Nil [decode_simps]: "map_of (carried []) k = None"
  by (simp add: carried_def)

lemma carried_other [decode_simps]:
  "k \<noteq> k' \<Longrightarrow> map_of (carried ((k, v) # kvs)) k' = map_of (carried kvs) k'"
  by (simp add: carried_def)

lemma carried_absent: "k \<notin> fst ` set kvs \<Longrightarrow> map_of (carried kvs) k = None"
  by (induction kvs) (auto simp: carried_def)

lemma carried_here [decode_simps]:
  "k \<notin> fst ` set kvs \<Longrightarrow> map_of (carried ((k, v) # kvs)) k = kept v"
  using carried_absent [of k kvs] by (simp add: carried_def kept_def)

lemma kept_simps [decode_simps]:
  "kept (JStr s) = Some (JStr s)" "kept (JNum n) = Some (JNum n)" "kept (JBool b) = Some (JBool b)"
  "kept (json_opt JStr ms) = map_option JStr ms" "kept (json_opt JNum mn) = map_option JNum mn"
  "kept (or_null xs (JArr ys)) = (if xs = [] then None else Some (JArr ys))"
  by (auto simp: kept_def json_opt_def or_null_def split: option.splits)

lemma decode_some_list [decode_simps]:
  "nullable (list_of as_str) (kept (or_null xs (strings xs))) = Some (some_list xs)"
  "defaulted (list_of as_str) (kept (or_null xs (strings xs))) = Some (some_list xs)"
  by (auto simp: nullable_def defaulted_def strings_def some_list_def decode_simps)

lemma or_default_some_list [decode_simps]: "or_default [] (some_list xs) = xs"
  by (simp add: or_default_def some_list_def)

lemma decode_file:
  assumes "attachment_json x m path ct = Inr kvs"
  shows "attachment_input_of (JObj kvs) = read_file x m ct path" "read_file x m ct path \<noteq> None"
  using assms
  by (auto simp: attachment_json_def attachment_input_of_def read_file_def decode_simps nullable_def required_def
      split: option.splits)

lemma decode_files:
  assumes "collect (\<lambda>p. attachment_json x m p None) ps = Inr atts"
  shows "those (map attachment_input_of (map JObj atts)) = those (map (read_file x m None) ps) \<and>
    those (map (read_file x m None) ps) \<noteq> None \<and> (atts = []) = (ps = [])"
  using assms
proof (induction ps arbitrary: atts)
  case (Cons p ps)
  then obtain a rest where "attachment_json x m p None = Inr a"
    "collect (\<lambda>p. attachment_json x m p None) ps = Inr rest" "atts = a # rest"
    by (auto split: sum.splits)
  with Cons.IH decode_file [of x m p None a] show ?case by (auto split: option.splits)
qed simp

lemma collect_fails:
  "collect (\<lambda>p. attachment_json x m p None) ps = Inl e \<Longrightarrow> those (map (read_file x m None) ps) = None"
proof (induction ps)
  case (Cons p ps)
  then show ?case
    by (cases "mc_read m p") (auto simp: attachment_json_def read_file_def split: sum.splits option.splits)
qed simp

lemma task_call_means:
  assumes "task_call t = (tool, kvs)"
  shows "parse_call i f tool (carried kvs) = Some (task_means i t)"
  using assms
  by (cases t) (auto simp: one_of_def create_task_args_of_def decode_simps)

lemma note_call_means:
  assumes "note_call n = (tool, kvs)"
  shows "parse_call i f tool (carried kvs) = Some (note_means i n)"
  using assms
  by (cases n) (auto simp: one_of_def set_note_args_of_def decode_simps)

lemma lock_call_means:
  assumes "lock_call l = (tool, kvs)"
  shows "parse_call i f tool (carried kvs) = Some (lock_means l)"
  using assms by (cases l) (auto simp: one_of_def decode_simps)

lemma post_call_means:
  assumes "raw_call x m (CmdSend s) = Inr (Some (tool, kvs))"
  shows "parse_call i f tool (carried kvs) = means x m i f (CmdSend s) \<and> means x m i f (CmdSend s) \<noteq> None"
proof -
  from assms obtain atts where atts: "collect (\<lambda>p. attachment_json x m p None) (sf_files s) = Inr atts"
    by (auto split: sum.splits)
  obtain fs where fs: "those (map (read_file x m None) (sf_files s)) = Some fs"
      "those (map attachment_input_of (map JObj atts)) = Some fs" "(atts = []) = (sf_files s = [])"
    using decode_files [OF atts] by (metis not_None_eq)
  have "(fs = []) = (atts = [])"
    using fs(2) by (cases atts) (auto split: option.splits)
  then have files: "nullable (list_of attachment_input_of) (kept (or_null atts (JArr (map JObj atts)))) = Some (some_list fs)"
    using fs(2) by (simp add: kept_simps nullable_def list_of_def some_list_def)
  have call: "tool = ''post_message''" "kvs = [(''channel'', json_opt JStr (sf_channel s)), (''to'', json_opt JStr (sf_to s)),
      (''body'', JStr (sf_body s)), (''announce'', JBool (sf_announce s)),
      (''reply_to'', json_opt JNum (sf_reply_to s)), (''attachments'', or_null atts (JArr (map JObj atts)))]"
    using assms atts by simp_all
  have "post_args_of (carried kvs) = Some \<lparr> pm_channel = sf_channel s, pm_announce = sf_announce s,
      pm_to = sf_to s, pm_body = sf_body s, pm_reply_to = sf_reply_to s, pm_metadata = None,
      pm_attachments = some_list fs \<rparr>"
    unfolding call(2) post_args_of_def by (simp add: decode_simps files del: kept_simps(6))
  then show ?thesis by (simp add: call(1) fs(1) parse_call_simps)
qed

lemma attach_call_means:
  assumes "raw_call x m (CmdAttach task path ct) = Inr (Some (tool, kvs))"
  shows "parse_call i f tool (carried kvs) = means x m i f (CmdAttach task path ct) \<and>
    means x m i f (CmdAttach task path ct) \<noteq> None"
proof -
  from assms obtain att where att: "attachment_json x m path ct = Inr att"
    and kvs: "tool = ''attach_file''" "kvs = att @ [(''task'', JStr task)]"
    by (auto split: sum.splits)
  obtain n c b where fields: "att = [(''filename'', JStr n), (''content_type'', JStr c), (''data_base64'', JStr b)]"
    using att by (auto simp: attachment_json_def split: option.splits)
  have "attachment_input_of (JObj (carried kvs)) = attachment_input_of (JObj att)"
    using fields kvs(2) by (simp add: attachment_input_of_def decode_simps)
  then show ?thesis
    using fields kvs decode_file [OF att]
    by (auto simp: attach_args_of_def decode_simps)
qed

lemma raw_call_means:
  assumes "raw_call x m cmd = Inr (Some (tool, kvs))"
  shows "parse_call i f tool (carried kvs) = means x m i f cmd \<and> means x m i f cmd \<noteq> None"
proof (cases cmd)
  case (CmdSend s) with assms post_call_means show ?thesis by blast
next
  case (CmdAttach task path ct) with assms attach_call_means show ?thesis by blast
next
  case (CmdTask t) with assms task_call_means show ?thesis by simp
next
  case (CmdNote n) with assms note_call_means show ?thesis by simp
next
  case (CmdLock l) with assms lock_call_means show ?thesis by simp
qed (use assms in \<open>auto simp: one_of_def heartbeat_args_of_def ask_args_of_def read_args_of_def
      list_tasks_args_of_def wait_args_of_def digest_args_of_def decode_simps\<close>)

lemma raw_call_none:
  assumes no: "\<not> (\<exists>tool kvs. raw_call x m cmd = Inr (Some (tool, kvs)))"
  shows "means x m i f cmd = None"
proof (cases cmd)
  case (CmdSend s)
  with no obtain e where "collect (\<lambda>p. attachment_json x m p None) (sf_files s) = Inl e"
    by (cases "collect (\<lambda>p. attachment_json x m p None) (sf_files s)") auto
  with CmdSend collect_fails show ?thesis by simp
next
  case (CmdAttach task path ct)
  with no have "mc_read m path = None"
    by (cases "mc_read m path") (auto simp: attachment_json_def)
  with CmdAttach show ?thesis by (simp add: read_file_def)
next
  case (CmdTask t) with no show ?thesis by (cases "task_call t") simp
next
  case (CmdNote n) with no show ?thesis by (cases "note_call n") simp
next
  case (CmdLock l) with no show ?thesis by (cases "lock_call l") simp
qed (use no in simp_all)

lemma call_of_meaning:
  assumes "means x m i f cmd = Some call"
  obtains tool kvs where "to_call x m cmd = Inr (Some (tool, JObj kvs))" "parse_call i f tool kvs = Some call"
proof -
  obtain tool kvs where raw: "raw_call x m cmd = Inr (Some (tool, kvs))"
    using raw_call_none [of x m cmd i f] assms by auto
  then have "to_call x m cmd = Inr (Some (tool, JObj (carried kvs)))"
    by (simp add: to_call_def carried_def)
  with raw_call_means [OF raw, of i f] assms that show ?thesis by simp
qed

text \<open>
  C11 (equivalence). The console client says what it means: for every subcommand, with all its
  flags set or not, the tool named and the JSON arguments built are decoded by the server to
  exactly the call the subcommand stands for; and the two subcommands that are no call, and
  those whose file cannot be read, make none.
\<close>

theorem client_calls_arrive:
  "case to_call x m cmd of
     Inr (Some (tool, args)) \<Rightarrow> \<exists>kvs. args = JObj kvs \<and> JNull \<notin> snd ` set kvs \<and>
       parse_call i f tool kvs = means x m i f cmd \<and> means x m i f cmd \<noteq> None
   | _ \<Rightarrow> means x m i f cmd = None"
proof (cases "\<exists>tool kvs. raw_call x m cmd = Inr (Some (tool, kvs))")
  case True
  then obtain tool kvs where raw: "raw_call x m cmd = Inr (Some (tool, kvs))" by blast
  have "JNull \<notin> snd ` set (carried kvs)"
    by (auto simp: carried_def dest: compact_not_null)
  with raw_call_means [OF raw] raw show ?thesis by (auto simp: to_call_def carried_def)
next
  case False
  then show ?thesis
    using raw_call_none [of x m cmd i f] by (auto simp: to_call_def split: sum.splits option.splits)
qed

end
