(* ===== verification/Statements.thy ===== *)
theory Statements
  imports Tools
begin

text \<open>
  Every call of a tool, seen as what it does to the database: a run of the SQL statements
  below, whatever fails and whatever other sessions do in between. \<open>act x auth\<close> are the
  statements an agent's session can run; the locale \<open>agent_invariant\<close> is the interface it
  gives to invariants: what every statement keeps, every tool keeps.
\<close>

subsection \<open>The statements of an agent\<close>

inductive act :: "externals \<Rightarrow> auth_ctx \<Rightarrow> db \<Rightarrow> db \<Rightarrow> bool" for x auth where
  act_claim:
    "act x auth d (snd (claim_stmt x (team_id auth) (agent_id auth) (session auth) key lease now d))"
| act_claim_next:
    "act x auth d (snd (claim_next_stmt x (team_id auth) (agent_id auth) (session auth) lease now d))"
| act_renew:
    "act x auth d (snd (renew_stmt x (team_id auth) (agent_id auth) (session auth) key lease now d))"
| act_release_task:
    "act x auth d (snd (release_task_stmt x (team_id auth) (agent_id auth) (session auth) key now d))"
| act_complete: "act x auth d (snd (complete_stmt x (team_id auth) key res now d))"
| act_log: "log_event_stmt i (agent_id auth) event detail now d = Some (u, d') \<Longrightarrow> act x auth d d'"
| act_task: "insert_task_stmt x fresh auth key title description metadata now d = Some (i, d') \<Longrightarrow> act x auth d d'"
| act_dep: "insert_dep_stmt i dep now d = Some (u, d') \<Longrightarrow> act x auth d d'"
| act_message:
    "insert_message_stmt x auth tgt body rep metadata announce now d = Some (m, d') \<Longrightarrow> act x auth d d'"
| act_attachment:
    "insert_attachment_stmt (team_id auth) mid tid (agent_id auth) att now d = Some (a, d') \<Longrightarrow> act x auth d d'"
| act_channel:
    "upsert_channel fresh (team_id auth) name topic (agent_id auth) now d = Some (r, d') \<Longrightarrow> act x auth d d'"
| act_note: "upsert_note_stmt x fresh auth sc key val tags now d = Some (i, d') \<Longrightarrow> act x auth d d'"
| act_revision: "insert_revision_stmt i val (agent_id auth) now d = Some (u, d') \<Longrightarrow> act x auth d d'"
| act_delete_note: "act x auth d (snd (delete_note_stmt (team_id auth) sc key d))"
| act_acquire:
    "act x auth d (snd (acquire_stmt x (team_id auth) (agent_id auth) (session auth) name ttl purpose now d))"
| act_release: "act x auth d (snd (release_stmt x (team_id auth) (agent_id auth) (session auth) name now d))"
| act_presence:
    "heartbeat_stmt auth status repo branch activity ttl now d = Some (p, d') \<Longrightarrow> act x auth d d'"
| act_cursor: "act x auth d (upsert_cursor (agent_id auth) scope n d)"

subsection \<open>Calls that only read\<close>

lemma keeps_sql_look [keeps_intros]: "keeps I (sql (\<lambda>now d. map_option (\<lambda>v. (v, d)) (f d)))"
  by (rule keeps_sql) auto

lemma keeps_default_channel [keeps_intros]: "keeps I (default_channel auth)"
  by (auto simp: default_channel_def Let_def intro!: keeps_intros)

lemma keeps_resolve_scope [keeps_intros]: "keeps I (resolve_scope auth raw)"
  by (auto simp: resolve_scope_def Let_def intro!: keeps_intros)

lemma keeps_identity_queries [keeps_intros]:
  "keeps I (whoami x auth)" "keeps I (list_channels auth)" "keeps I (list_agents auth on)"
  "keeps I (team_digest auth h al)"
  by (auto simp: whoami_def list_channels_def list_agents_def team_digest_def Let_def intro!: keeps_intros)

lemma keeps_task_queries [keeps_intros]:
  "keeps I (list_tasks auth st mine n)" "keeps I (get_task auth k)"
  by (auto simp: list_tasks_def get_task_def intro!: keeps_intros split: prod.splits)

lemma keeps_note_queries [keeps_intros]:
  "keeps I (get_note auth sc k)" "keeps I (list_notes auth sc tg n)" "keeps I (search_notes x auth q sc n)"
  by (auto simp: get_note_def list_notes_def search_notes_def Let_def intro!: keeps_intros)

lemma keeps_message_queries [keeps_intros]:
  "keeps I (get_attachment x auth i)" "keeps I (search_messages x auth q n)"
  "keeps I (find_answer auth tgt ts qid)" "keeps I (verify_question auth tgt ts qid)"
  by (auto simp: get_attachment_def search_messages_def find_answer_def verify_question_def Let_def
      intro!: keeps_intros split: prod.splits)

lemma keeps_quota_check [keeps_intros]: "keeps I (check_attachment_quota team n)"
  unfolding check_attachment_quota_def by (auto intro!: keeps_intros split: option.splits)

lemma keeps_check_askable [keeps_intros]: "keeps I (check_askable auth target ts)"
  by (auto simp: check_askable_def has_another_live_session_def intro!: keeps_intros split: option.splits)

lemma keeps_ask_loop [keeps_intros]: "keeps I (ask_loop x auth target ts q to timeout rs)"
proof (induction x auth target ts q to timeout rs rule: ask_loop.induct)
  case (1 x auth target ts q to timeout rs)
  then show ?case
    by (subst ask_loop.simps) (auto intro!: keeps_intros split: option.splits prod.splits bool.splits)
qed

lemma keeps_describe [keeps_intros]: "keeps I (describe x e)"
  by (auto simp: describe_def task_holder_def Let_def intro!: keeps_intros keeps_sql split: option.splits)

lemma keeps_grace [keeps_intros]: "keeps I (grace x auth kinds focus rs)"
  by (induction x auth kinds focus rs rule: grace.induct) (auto intro!: keeps_intros)

lemma keeps_wait_loop [keeps_intros]: "keeps I (wait_loop x auth kinds focus rs)"
  by (induction x auth kinds focus rs rule: wait_loop.induct) (auto intro!: keeps_intros split: option.splits)

lemma keeps_wait_for_updates [keeps_intros]: "keeps I (wait_for_updates x auth args arrives)"
  by (auto simp: wait_for_updates_def unread_anything_def unread_dms_def Let_def
      intro!: keeps_intros keeps_sql split: option.splits)

lemma keeps_reply: "keeps I m \<Longrightarrow> keeps I (reply f m)"
  unfolding reply_def by (intro keeps_intros)

lemma keeps_with_auth: "keeps I (f auth) \<Longrightarrow> keeps I (with_auth (Some auth) f)"
  by (simp add: with_auth_def)

lemmas tool_defs = tool_whoami_def tool_team_digest_def tool_heartbeat_def tool_list_agents_def
  tool_list_channels_def tool_create_channel_def tool_post_message_def tool_read_messages_def
  tool_ask_agent_def tool_search_messages_def tool_wait_for_updates_def tool_create_task_def
  tool_list_tasks_def tool_get_task_def tool_claim_task_def tool_claim_next_task_def
  tool_renew_task_lease_def tool_release_task_def tool_complete_task_def tool_set_note_def
  tool_get_note_def tool_list_notes_def tool_search_notes_def tool_delete_note_def
  tool_acquire_lock_def tool_release_lock_def tool_list_locks_def tool_attach_file_def
  tool_get_attachment_def

subsection \<open>Invariants of the statements are invariants of the tools\<close>

locale agent_invariant =
  fixes x :: externals and auth :: auth_ctx and I :: "db \<Rightarrow> bool"
  assumes kept: "act x auth d d' \<Longrightarrow> I d \<Longrightarrow> I d'"
begin

lemma keeps_updates:
  "keeps I (execute (claim_stmt x (team_id auth) (agent_id auth) (session auth) key lease))"
  "keeps I (execute (claim_next_stmt x (team_id auth) (agent_id auth) (session auth) lease))"
  "keeps I (execute (renew_stmt x (team_id auth) (agent_id auth) (session auth) key lease))"
  "keeps I (execute (release_task_stmt x (team_id auth) (agent_id auth) (session auth) key))"
  "keeps I (execute (complete_stmt x (team_id auth) key res))"
  "keeps I (execute (\<lambda>now. delete_note_stmt (team_id auth) sc nkey))"
  "keeps I (execute (acquire_stmt x (team_id auth) (agent_id auth) (session auth) name ttl purpose))"
  "keeps I (execute (release_stmt x (team_id auth) (agent_id auth) (session auth) name))"
  "keeps I (execute (\<lambda>now d. ((), upsert_cursor (agent_id auth) scope n d)))"
  by (rule keeps_execute, (simp only: snd_conv)?, erule kept [rotated], rule act.intros)+

lemma keeps_inserts:
  "keeps I (sql (log_event_stmt i (agent_id auth) event detail))"
  "keeps I (sql (insert_task_stmt x fresh auth key title description metadata))"
  "keeps I (sql (insert_dep_stmt i dep))"
  "keeps I (sql (insert_message_stmt x auth tgt body rep metadata announce))"
  "keeps I (sql (insert_attachment_stmt (team_id auth) mid tid (agent_id auth) att))"
  "keeps I (sql (upsert_channel fresh (team_id auth) name topic (agent_id auth)))"
  "keeps I (sql (upsert_note_stmt x fresh auth sc nkey val tags))"
  "keeps I (sql (insert_revision_stmt u val (agent_id auth)))"
  "keeps I (sql (heartbeat_stmt auth status repo branch activity lease))"
  by (rule keeps_sql; erule kept [rotated]; erule act.intros)+

lemmas statements = keeps_intros keeps_updates keeps_inserts

lemma keeps_log: "keeps I (log_event i (agent_id auth) event detail)"
  unfolding log_event_def by (rule keeps_inserts)

lemma keeps_tasks:
  "keeps I (create_task x fresh auth tinput)" "keeps I (claim_task x auth raw lease)"
  "keeps I (claim_next_task x auth lease)" "keeps I (renew_lease x auth raw lease)"
  "keeps I (release_task x auth raw)" "keeps I (complete_task x auth raw res)"
  by (auto simp: create_task_def claim_task_def claim_next_task_def renew_lease_def release_task_def
      complete_task_def find_task_id_def Let_def intro!: statements keeps_log split: prod.splits option.splits)

lemma keeps_insert_for_message: "keeps I (insert_for_message (team_id auth) mid (agent_id auth) att)"
  unfolding insert_for_message_def by (intro statements)

lemma keeps_files:
  "keeps I (attach_to_task auth key att)" "keeps I (attach_to_message auth mid att)"
  unfolding attach_to_task_def attach_to_message_def find_task_id_def Let_def
  by (auto intro!: statements keeps_insert_for_message)

lemma keeps_post: "keeps I (post_message x auth pinput)"
proof (rule keeps_post_message)
  fix tgt body reply metadata announce files
  show "keeps I (post_tx x auth tgt body reply metadata announce files)"
    unfolding post_tx_def post_steps_def by (intro statements keeps_insert_for_message)
qed

lemma keeps_read: "keeps I (read_messages x auth rinput)"
  by (auto simp: read_messages_def Let_def intro!: statements)

lemma keeps_ask: "keeps I (ask_agent x auth args arrives)"
proof -
  have "keeps I (question_id x auth args to target ts)" for to target ts
    by (auto simp: question_id_def intro!: statements keeps_post split: option.splits)
  then show ?thesis
    by (auto simp: ask_agent_def Let_def intro!: statements split: prod.splits)
qed

lemma keeps_rest:
  "keeps I (create_channel fresh auth raw topic)" "keeps I (heartbeat auth hinput)"
  "keeps I (set_note x fresh auth sinput)" "keeps I (delete_note auth sc raw)"
  "keeps I (acquire_lock x auth raw ttl purpose)" "keeps I (release_lock x auth raw)"
  by (auto simp: create_channel_def heartbeat_def set_note_def delete_note_def acquire_lock_def
      release_lock_def Let_def intro!: statements split: prod.splits option.splits)

lemma keeps_run_tool: "keeps I (run_tool x (Some auth) call)"
  by (cases call)
    (auto simp: tool_defs Let_def split: option.splits
      intro!: keeps_reply keeps_with_auth statements keeps_tasks keeps_files keeps_post keeps_read
        keeps_ask keeps_rest)

end

end
