(* ===== verification/Isolation.thy ===== *)
theory Isolation
  imports Statements
begin

text \<open>
  What no tool call can do, whatever its arguments: change anything another team has.
  The part of the database one team sees is a view; every statement the tools run under
  another team's identity leaves it as it is, so every tool does.
\<close>

subsection \<open>Teams do not touch each other\<close>

text \<open>Everything the tables hold for one team, and the tables no tool writes.\<close>

definition team_view ::
  "uuid \<Rightarrow> db \<Rightarrow> channel_row list \<times> message_row list \<times> task_row list \<times> note_row list \<times> lock_row list \<times>
     attachment_row list \<times> delivery_row list \<times> team_row list \<times> agent_row list \<times> token_row list \<times>
     webhook_row list" where
  "team_view u d =
     (filter (\<lambda>r. ch_team r = u) (channels d), filter (\<lambda>r. ms_team r = u) (messages d),
      filter (\<lambda>r. ts_team r = u) (tasks d), filter (\<lambda>r. nt_team r = u) (note_table d),
      filter (\<lambda>r. lk_team r = u) (locks d), filter (\<lambda>r. at_team r = u) (attachments d),
      filter (\<lambda>r. dl_team r = u) (deliveries d), teams d, agents d, tokens d, webhooks d)"

definition elsewhere where
  "elsewhere u v d \<longleftrightarrow> team_view u d = v \<and> distinct (map ts_id (tasks d))"

lemma filter_update_where:
  "(\<And>r. r \<in> set rs \<Longrightarrow> P r \<Longrightarrow> \<not> Q r \<and> \<not> Q (f r)) \<Longrightarrow> filter Q (update_where P f rs) = filter Q rs"
  by (induction rs) auto

lemma foreign_add_deliveries:
  "team \<noteq> u \<Longrightarrow> filter (\<lambda>r. dl_team r = u) (deliveries (add_deliveries now team kind s p ws d)) =
     filter (\<lambda>r. dl_team r = u) (deliveries d)"
  by (induction ws arbitrary: d) (simp_all add: new_delivery_def)

lemma foreign_enqueue:
  "team \<noteq> u \<Longrightarrow> filter (\<lambda>r. dl_team r = u) (deliveries (enqueue_deliveries now team kind s p ch d)) =
     filter (\<lambda>r. dl_team r = u) (deliveries d)"
  by (simp add: enqueue_deliveries_def foreign_add_deliveries)

lemma foreign_fire [simp]:
  "ms_team m \<noteq> u \<Longrightarrow> filter (\<lambda>r. dl_team r = u) (deliveries (fire_message x now m d)) =
     filter (\<lambda>r. dl_team r = u) (deliveries d)"
  "ts_team t \<noteq> u \<Longrightarrow> filter (\<lambda>r. dl_team r = u) (deliveries (fire_task x now old t d)) =
     filter (\<lambda>r. dl_team r = u) (deliveries d)"
  "lk_team l \<noteq> u \<Longrightarrow> filter (\<lambda>r. dl_team r = u) (deliveries (fire_lock x now op l d)) =
     filter (\<lambda>r. dl_team r = u) (deliveries d)"
  "nt_team n \<noteq> u \<Longrightarrow> filter (\<lambda>r. dl_team r = u) (deliveries (fire_note x now n d)) =
     filter (\<lambda>r. dl_team r = u) (deliveries d)"
  by (simp_all add: fire_message_def fire_task_def fire_lock_def fire_note_def publish_def Let_def
      enqueue_message_webhook_def enqueue_task_webhook_def enqueue_lock_webhook_def foreign_enqueue)

lemma elsewhere_write_task:
  assumes "elsewhere u v d" and "t \<in> set (tasks d)" and "ts_team t \<noteq> u"
    and "ts_id new = ts_id t" and "ts_team new = ts_team t"
  shows "elsewhere u v (write_task x now t new d)"
proof -
  have dist: "distinct (map ts_id (tasks d))" using assms(1) by (simp add: elsewhere_def)
  then have "filter (\<lambda>r. ts_team r = u) (update_where (\<lambda>r. ts_id r = ts_id t) (\<lambda>_. new) (tasks d)) =
      filter (\<lambda>r. ts_team r = u) (tasks d)"
    using assms(2,3,5) by (intro filter_update_where) (auto simp: distinct_map inj_on_def)
  moreover have "map ts_id (update_where (\<lambda>r. ts_id r = ts_id t) (\<lambda>_. new) (tasks d)) = map ts_id (tasks d)"
    using assms(4) by (intro map_update_where) simp
  ultimately show ?thesis
    using assms(1,3,5) dist by (simp add: elsewhere_def write_task_def team_view_def)
qed

lemma elsewhere_update_task:
  assumes "elsewhere u v d" and "team \<noteq> u" and "\<And>t. ts_id (f t) = ts_id t \<and> ts_team (f t) = ts_team t"
  shows "elsewhere u v (snd (update_task x team key P f now d))"
proof (cases "find_task d (team, key)")
  case (Some t)
  then have "t \<in> set (tasks d)" "ts_team t = team" by (auto simp: find_task_def task_key_def dest: find_Some_set)
  with assms Some show ?thesis by (auto simp: update_task_def intro!: elsewhere_write_task)
qed (use assms in \<open>simp add: update_task_def\<close>)

lemma filter_others:
  "(\<And>r. r \<in> set rs \<Longrightarrow> Q r \<Longrightarrow> P r) \<Longrightarrow> filter Q (filter P rs) = filter Q rs"
  by (induction rs) auto

lemma elsewhere_claim_next:
  assumes "elsewhere u v d" and "team \<noteq> u"
  shows "elsewhere u v (snd (claim_next_stmt x team agent sess lease now d))"
proof (cases "order_by ts_created (filter (candidate team now d) (tasks d))")
  case (Cons t ts)
  then have "t \<in> set (filter (candidate team now d) (tasks d))"
    by (metis list.set_intros(1) set_order_by)
  then have "t \<in> set (tasks d)" "ts_team t = team" by (auto simp: candidate_def)
  with Cons assms show ?thesis
    by (auto simp: claim_next_stmt_def set_claim_def intro!: elsewhere_write_task)
qed (use assms in \<open>simp add: claim_next_stmt_def\<close>)

lemma elsewhere_acquire:
  assumes "elsewhere u v d" and "team \<noteq> u"
  shows "elsewhere u v (snd (acquire_stmt x team agent sess nm ttl purpose now d))"
proof -
  have "lk_team old = team" if "find_lock d (team, nm) = Some old" for old
    using that by (auto simp: find_lock_def lock_key_def dest: find_Some_set)
  then show ?thesis
    using assms
    by (auto simp: elsewhere_def team_view_def acquire_stmt_def Let_def excluded_lock_def take_over_def
        lock_key_def intro!: filter_update_where split: option.splits)
qed

lemma elsewhere_release:
  assumes "elsewhere u v d" and "team \<noteq> u"
  shows "elsewhere u v (snd (release_stmt x team agent sess nm now d))"
proof -
  let ?mine = "\<lambda>l. lock_key l = (team, nm) \<and> lock_held_by agent sess l"
  have "lk_team old = team" if "List.find ?mine (locks d) = Some old" for old
    using that by (auto simp: lock_key_def dest: find_Some_set)
  moreover have "filter (\<lambda>l. lk_team l = u) (filter (\<lambda>l. \<not> ?mine l) (locks d)) = filter (\<lambda>l. lk_team l = u) (locks d)"
    using assms by (intro filter_others) (auto simp: lock_key_def)
  ultimately show ?thesis
    using assms
    by (cases "List.find ?mine (locks d)") (simp_all add: elsewhere_def team_view_def release_stmt_def)
qed

lemma elsewhere_upsert_note:
  assumes "elsewhere u v d" and "team_id auth \<noteq> u"
    and "upsert_note_stmt x fresh auth sc key val tags now d = Some (i, d')"
  shows "elsewhere u v d'"
proof -
  have "nt_team old = team_id auth" if "find_note d (team_id auth) sc key = Some old" for old
    using find_note_SomeD [OF that] by (simp add: note_key_def)
  then show ?thesis
    using assms
    by (auto simp: elsewhere_def team_view_def upsert_note_stmt_def Let_def note_key_def
        intro!: filter_update_where split: option.splits if_splits)
qed

lemma elsewhere_delete_note:
  assumes "elsewhere u v d" and "team \<noteq> u"
  shows "elsewhere u v (snd (delete_note_stmt team sc key d))"
proof -
  have "filter (\<lambda>n. nt_team n = u) (filter (\<lambda>n. \<not> note_key team sc key n) (note_table d)) =
      filter (\<lambda>n. nt_team n = u) (note_table d)"
    using assms(2) by (intro filter_others) (auto simp: note_key_def)
  with assms(1) show ?thesis
    by (simp add: elsewhere_def team_view_def delete_note_stmt_def Let_def del: filter_filter)
qed

lemma elsewhere_upsert_channel:
  assumes "elsewhere u v d" and "team \<noteq> u"
    and "upsert_channel fresh team name topic by now d = Some (r, d')"
  shows "elsewhere u v d'"
  using assms
  by (auto simp: elsewhere_def team_view_def upsert_channel_def Let_def
      intro!: filter_update_where split: option.splits if_splits)

lemma elsewhere_insert:
  "insert_task_stmt x fresh auth key title desc meta now d = Some (i, d') \<Longrightarrow> team_id auth \<noteq> u \<Longrightarrow>
   elsewhere u v d \<Longrightarrow> elsewhere u v d'"
  "insert_message_stmt x auth tgt body rep meta ann now d = Some (m, d') \<Longrightarrow> team_id auth \<noteq> u \<Longrightarrow>
   elsewhere u v d \<Longrightarrow> elsewhere u v d'"
  "insert_attachment_stmt (team_id auth) mid tid by att now d = Some (a, d') \<Longrightarrow> team_id auth \<noteq> u \<Longrightarrow>
   elsewhere u v d \<Longrightarrow> elsewhere u v d'"
  by (auto simp: elsewhere_def team_view_def insert_task_stmt_def insert_message_stmt_def
      insert_attachment_stmt_def new_message_def Let_def task_by_id_def find_None_iff_set
      split: if_splits prod.splits)

lemma elsewhere_quiet_insert:
  "log_event_stmt i agent ev det now d = Some (p, d') \<Longrightarrow> elsewhere u v d \<Longrightarrow> elsewhere u v d'"
  "insert_dep_stmt i dep now d = Some (p, d') \<Longrightarrow> elsewhere u v d \<Longrightarrow> elsewhere u v d'"
  "insert_revision_stmt i val agent now d = Some (p, d') \<Longrightarrow> elsewhere u v d \<Longrightarrow> elsewhere u v d'"
  "heartbeat_stmt auth status repo branch activity ttl now d = Some (q, d') \<Longrightarrow> elsewhere u v d \<Longrightarrow> elsewhere u v d'"
  "elsewhere u v d \<Longrightarrow> elsewhere u v (upsert_cursor agent scope n d)"
  by (auto simp: elsewhere_def team_view_def log_event_stmt_def insert_dep_stmt_def insert_revision_stmt_def
      heartbeat_stmt_def upsert_presence_def upsert_cursor_def Let_def split: if_splits option.splits prod.splits)

lemma elsewhere_updates:
  assumes "elsewhere u v d" and "team \<noteq> u"
  shows "elsewhere u v (snd (claim_stmt x team agent sess key lease now d))"
    "elsewhere u v (snd (renew_stmt x team agent sess key lease now d))"
    "elsewhere u v (snd (release_task_stmt x team agent sess key now d))"
    "elsewhere u v (snd (complete_stmt x team key res now d))"
  using assms
  by (auto simp: claim_stmt_def renew_stmt_def release_task_stmt_def complete_stmt_def set_claim_def
      intro!: elsewhere_update_task)

lemma elsewhere_act:
  assumes "act x auth d d'" and "team_id auth \<noteq> u" and "elsewhere u v d"
  shows "elsewhere u v d'"
  using assms
  by cases
    (blast intro: elsewhere_updates elsewhere_claim_next elsewhere_acquire elsewhere_release
      elsewhere_delete_note elsewhere_quiet_insert elsewhere_insert elsewhere_upsert_note
      elsewhere_upsert_channel)+

text \<open>The invariant says nothing about the caller's own team.\<close>

interpretation foreign: agent_invariant x auth "\<lambda>d. team_id auth = u \<or> elsewhere u v d" for x auth u v
  by unfold_locales (auto intro: elsewhere_act)

text \<open>
  Teams do not touch each other: whatever tool an agent of one team calls, with
  whatever arguments, and whether or not it fails half way, the channels, messages, tasks,
  notes, locks, attachments and webhook deliveries of every other team stay exactly as they
  were, and so do all teams, agents, tokens and webhooks.
\<close>

lemma elsewhere_run_tool:
  "team_id auth \<noteq> u \<Longrightarrow> keeps (elsewhere u v) (run_tool x (Some auth) call)"
  using foreign.keeps_run_tool [of auth u v x call] by simp

end
