(* ===== verification/Grant.thy ===== *)
theory Grant
  imports Samples
begin

text \<open>
  \<open>dashboard/grant.rs\<close>: HMAC-SHA256 over a parameter for SHA-256, the constant-time
  comparison, and the signed grants \<open>team.expiry.tag\<close> that let a browser see one team's
  dashboard until an instant.
\<close>

unbundle bit_operations_syntax

definition xor_byte :: "nat \<Rightarrow> char \<Rightarrow> char" where
  "xor_byte k c = char_of (code_of c XOR k)"

definition BLOCK :: nat where
  "BLOCK = 64"

definition key_block :: "externals \<Rightarrow> string \<Rightarrow> string" where
  "key_block x key =
     (let k = (if BLOCK < length key then sha256 x key else key)
      in k @ replicate (BLOCK - length k) (char_of (0 :: nat)))"

definition hmac_sha256 :: "externals \<Rightarrow> string \<Rightarrow> string \<Rightarrow> string" where
  "hmac_sha256 x key message =
     (let block = key_block x key;
          ipad = map (xor_byte 0x36) block;
          opad = map (xor_byte 0x5c) block
      in sha256 x (opad @ sha256 x (ipad @ message)))"

definition eq_ct :: "string \<Rightarrow> string \<Rightarrow> bool" where
  "eq_ct a b \<longleftrightarrow> length a = length b \<and>
     fold (\<lambda>(p, q) acc. acc OR (code_of p XOR code_of q)) (zip a b) 0 = 0"

definition grant_payload :: "externals \<Rightarrow> uuid \<Rightarrow> int \<Rightarrow> string" where
  "grant_payload x team expiry = uuid_text x team @ ''.'' @ show_int expiry"

definition issue :: "externals \<Rightarrow> string \<Rightarrow> uuid \<Rightarrow> int \<Rightarrow> int \<Rightarrow> string" where
  "issue x secret team now ttl =
     (let payload = grant_payload x team (now + ttl)
      in payload @ ''.'' @ hex_encode x (hmac_sha256 x secret payload))"

definition verify :: "externals \<Rightarrow> string \<Rightarrow> string \<Rightarrow> int \<Rightarrow> uuid option" where
  "verify x secret grant now =
     Option.bind (rsplit_once (CHR ''.'') grant) (\<lambda>(payload, tag_hex).
     Option.bind (rsplit_once (CHR ''.'') payload) (\<lambda>(team, expiry).
     Option.bind (hex_decode x tag_hex) (\<lambda>presented.
     if \<not> eq_ct (hmac_sha256 x secret payload) presented then None
     else Option.bind (parse_i64 expiry) (\<lambda>e. if e \<le> now then None else uuid_parse x team))))"

subsection \<open>Comparison\<close>

lemma fold_or_zero:
  "fold (\<lambda>(p, q) acc. acc OR (code_of p XOR code_of q)) zs n = 0 \<longleftrightarrow>
     n = 0 \<and> (\<forall>(p, q) \<in> set zs. p = q)" for n :: nat
proof (induction zs arbitrary: n)
  case (Cons z zs)
  obtain p q where z: "z = (p, q)" by (cases z)
  have inj: "code_of p = code_of q \<longleftrightarrow> p = q" by (metis char_of_code_of)
  have "code_of p XOR code_of q = 0 \<longleftrightarrow> code_of p = code_of q"
    by (metis xor_self_eq xor.assoc xor.left_neutral)
  with inj show ?case unfolding z by (simp add: Cons.IH or_eq_0_iff)
qed simp

text \<open>The constant-time comparison folds all differences and decides equality.\<close>
lemma eq_ct_iff: "eq_ct a b \<longleftrightarrow> a = b"
proof -
  have "(\<forall>(p, q) \<in> set (zip a b). p = q) \<longleftrightarrow> a = b" if "length a = length b"
    using that by (induction a b rule: list_induct2) auto
  then show ?thesis unfolding eq_ct_def fold_or_zero by auto
qed

subsection \<open>Grants\<close>

text \<open>
  What the crates promise: decoding inverts encoding, and neither a \<open>Uuid\<close> nor a hex string
  contains a dot.
\<close>

definition dotless_codecs :: "externals \<Rightarrow> bool" where
  "dotless_codecs x \<longleftrightarrow> (\<forall>s. hex_decode x (hex_encode x s) = Some s) \<and>
     (\<forall>s. CHR ''.'' \<notin> set (hex_encode x s)) \<and> (\<forall>u. CHR ''.'' \<notin> set (uuid_text x u))"

lemma rsplit_payload:
  "rsplit_once (CHR ''.'') (grant_payload x team e) = Some (uuid_text x team, show_int e)"
  using rsplit_once_append [OF show_int_no_dot, of "uuid_text x team" e] by (simp add: grant_payload_def)

lemma verify_issued:
  assumes "dotless_codecs x" and "uuid_roundtrip x" and "- (2 ^ 63) \<le> now + ttl" and "now + ttl < 2 ^ 63"
  shows "verify x secret (issue x secret team now ttl) later = (if now + ttl \<le> later then None else Some team)"
proof -
  let ?p = "grant_payload x team (now + ttl)"
  let ?tag = "hex_encode x (hmac_sha256 x secret ?p)"
  have "CHR ''.'' \<notin> set ?tag" "hex_decode x ?tag = Some (hmac_sha256 x secret ?p)"
    using assms(1) by (auto simp: dotless_codecs_def)
  moreover have "rsplit_once (CHR ''.'') (?p @ CHR ''.'' # ?tag) = Some (?p, ?tag)"
    using calculation(1) by (rule rsplit_once_append)
  ultimately show ?thesis
    using assms(2) parse_show_int [OF assms(3,4)]
    by (simp add: verify_def issue_def Let_def rsplit_payload eq_ct_iff uuid_roundtrip_def)
qed

text \<open>
  C38 (roundtrip). A grant is good exactly for its lifetime: it verifies to the team it was
  issued for at every instant before its expiry, and to nothing from the expiry on.
\<close>

theorem grant_roundtrip:
  assumes "dotless_codecs x" and "uuid_roundtrip x" and "- (2 ^ 63) \<le> now + ttl" and "now + ttl < 2 ^ 63"
  shows "verify x secret (issue x secret team now ttl) later = (if later < now + ttl then Some team else None)"
  using verify_issued [OF assms, of secret team later] by auto

lemma nibbles_no_dot: "CHR ''.'' \<notin> set (nibbles s)"
proof (induction s)
  case (Cons c cs)
  have "nibble_char n \<noteq> CHR ''.''" if "n < 16" for n
    using nibble_value_char [OF that] by (auto simp: nibble_value_def code_of_def)
  moreover have "code_of c div 16 < 16" using code_of_less [of c] by linarith
  ultimately show ?case using Cons by (auto dest: sym)
qed simp

lemma demo_codecs: "dotless_codecs demo_ext"
proof -
  have "CHR ''.'' \<notin> set (show_nat n)" for n
    using show_int_no_dot [of "int n"] by (simp add: show_int_def)
  then show ?thesis
    by (simp add: dotless_codecs_def demo_ext_def unnibbles_nibbles nibbles_no_dot)
qed

theorem grant_roundtrip_witness:
  "verify demo_ext ''secret'' (issue demo_ext ''secret'' 7 1000 60) 1030 = Some 7 \<and>
   verify demo_ext ''secret'' (issue demo_ext ''secret'' 7 1000 60) 1060 = None"
  using grant_roundtrip [OF demo_codecs demo_uuid_roundtrip, of 1000 60 "''secret''" 7] by simp

text \<open>
  C39 (safety). Nothing verifies without the secret: whatever string is presented, if it is
  accepted then its tag is the HMAC of the payload in front of it, that payload names the
  team, and it has not expired.
\<close>

theorem verify_sound:
  assumes "verify x secret grant now = Some team"
  shows "\<exists>team_text expiry tag e. grant = team_text @ ''.'' @ expiry @ ''.'' @ tag \<and>
    hex_decode x tag = Some (hmac_sha256 x secret (team_text @ ''.'' @ expiry)) \<and>
    uuid_parse x team_text = Some team \<and> parse_i64 expiry = Some e \<and> now < e"
proof -
  obtain payload tag where g: "rsplit_once (CHR ''.'') grant = Some (payload, tag)"
    using assms by (auto simp: verify_def bind_eq_Some_conv)
  obtain t expiry where p: "rsplit_once (CHR ''.'') payload = Some (t, expiry)"
    using assms g by (auto simp: verify_def bind_eq_Some_conv)
  obtain presented where h: "hex_decode x tag = Some presented"
    using assms g p by (auto simp: verify_def bind_eq_Some_conv)
  have eq: "presented = hmac_sha256 x secret payload"
    using assms g p h by (auto simp: verify_def eq_ct_iff split: if_splits)
  obtain e where "parse_i64 expiry = Some e" "now < e" "uuid_parse x t = Some team"
    using assms g p h by (auto simp: verify_def bind_eq_Some_conv split: if_splits)
  moreover have "grant = payload @ CHR ''.'' # tag" "payload = t @ CHR ''.'' # expiry"
    using g p by (auto simp: rsplit_once_Some)
  ultimately show ?thesis using h eq by auto
qed

theorem verify_sound_witness:
  "\<exists>team_text expiry tag. issue demo_ext ''k'' 7 1000 60 = team_text @ ''.'' @ expiry @ ''.'' @ tag \<and>
    uuid_parse demo_ext team_text = Some 7"
proof -
  have "verify demo_ext ''k'' (issue demo_ext ''k'' 7 1000 60) 1030 = Some 7"
    using verify_issued [OF demo_codecs demo_uuid_roundtrip, of 1000 60 "''k''" 7 1030] by simp
  from verify_sound [OF this] show ?thesis by blast
qed

end
