(* ===== verification/Dashboard.thy ===== *)
theory Dashboard
  imports Grant Locks Messaging Presence
begin

text \<open>
  \<open>dashboard/data.rs\<close> and \<open>dashboard/mod.rs\<close>: what the read-only page shows and who may see
  it. The page is modelled as the escaped texts that its fixed markup surrounds; the markup
  itself and the style sheet are not.
\<close>

subsection \<open>Text\<close>

definition replace_char :: "char \<Rightarrow> string \<Rightarrow> string \<Rightarrow> string" where
  "replace_char c r s = concat (map (\<lambda>d. if d = c then r else [d]) s)"

definition esc :: "string \<Rightarrow> string" where
  "esc s = replace_char (CHR 0x27) ''&#39;'' (replace_char (CHR 0x22) ''&quot;''
     (replace_char (CHR ''>'') ''&gt;'' (replace_char (CHR ''<'') ''&lt;''
       (replace_char (CHR ''&'') ''&amp;'' s))))"

text \<open>\<open>ago\<close> up to its suffix; \<open>num_seconds\<close> of a negative duration is clamped to 0.\<close>

definition ago_span :: "timestamp \<Rightarrow> timestamp \<Rightarrow> string" where
  "ago_span now t =
     (let secs = (if now < t then 0 else nat ((now - t) div 1000000))
      in if secs < 60 then show_nat secs @ ''s''
         else if secs < 3600 then show_nat (secs div 60) @ ''m''
         else if secs < 86400 then show_nat (secs div 3600) @ ''h''
         else show_nat (secs div 86400) @ ''d'')"

definition ago :: "timestamp \<Rightarrow> timestamp \<Rightarrow> string" where
  "ago now t = ago_span now t @ '' ago''"

subsection \<open>What the page reads\<close>

record totals =
  tt_agents_online :: nat
  tt_open :: nat
  tt_claimed :: nat
  tt_messages :: nat

record dash_agent =
  da_name :: string
  da_session :: string
  da_status :: "string option"
  da_repo :: "string option"
  da_branch :: "string option"
  da_activity :: "string option"
  da_updated :: "timestamp option"
  da_online :: bool

record dash_task =
  dt_key :: string
  dt_title :: string
  dt_status :: task_status
  dt_claimed_by :: "string option"
  dt_result :: "string option"
  dt_blocked :: bool
  dt_updated :: timestamp

record dash_message =
  dm_id :: int
  dm_channel :: string
  dm_sender :: string
  dm_announce :: bool
  dm_body :: string
  dm_created :: timestamp

record dash_lock =
  dk_name :: string
  dk_holder :: string
  dk_purpose :: "string option"
  dk_expires :: timestamp

record dash_note =
  dn_scope :: string
  dn_key :: string
  dn_updated_by :: "string option"
  dn_updated :: timestamp

record snapshot =
  sn_team :: string
  sn_totals :: totals
  sn_agents :: "dash_agent list"
  sn_tasks :: "dash_task list"
  sn_messages :: "dash_message list"
  sn_locks :: "dash_lock list"
  sn_notes :: "dash_note list"

definition load_team :: "uuid \<Rightarrow> string io" where
  "load_team team = sql (\<lambda>now d.
     map_option (\<lambda>t. (tm_slug t, d)) (List.find (\<lambda>t. tm_id t = team) (teams d)))"

definition select_totals :: "uuid \<Rightarrow> timestamp \<Rightarrow> db \<Rightarrow> totals" where
  "select_totals team now d =
     \<lparr> tt_agents_online = length (filter (\<lambda>a. ag_team a = team \<and>
         list_ex (\<lambda>p. pr_agent p = ag_id a \<and> now < pr_expires p) (presences d)) (agents d)),
       tt_open = length (filter (\<lambda>t. ts_team t = team \<and> ts_status t = Open) (tasks d)),
       tt_claimed = length (filter (\<lambda>t. ts_team t = team \<and> ts_status t = Claimed) (tasks d)),
       tt_messages = length (filter (\<lambda>m. ms_team m = team \<and> ms_channel m \<noteq> None \<and>
         now - seconds 86400 < ms_created m) (messages d)) \<rparr>"

definition dash_agent_of :: "timestamp \<Rightarrow> roster_row \<Rightarrow> dash_agent" where
  "dash_agent_of now r = (let p = snd r in
     \<lparr> da_name = ag_name (fst r), da_session = coalesce (map_option pr_session p),
       da_status = map_option pr_status p, da_repo = Option.bind p pr_repo,
       da_branch = Option.bind p pr_branch, da_activity = Option.bind p pr_activity,
       da_updated = map_option pr_updated p, da_online = row_online now r \<rparr>)"

definition select_agents :: "uuid \<Rightarrow> timestamp \<Rightarrow> db \<Rightarrow> dash_agent list" where
  "select_agents team now d = map (dash_agent_of now)
     (order_by (\<lambda>r. \<not> row_online now r) (order_by (ag_name \<circ> fst) (order_by (\<lambda>r. snd r = None)
       (order_by last_update (concat (map (left_join d)
         (filter (\<lambda>a. ag_team a = team \<and> ag_disabled a = None) (agents d))))))))"

definition task_rank :: "task_row \<Rightarrow> nat" where
  "task_rank t = (if ts_status t = Claimed then 0 else if ts_status t = Open then 1 else 2)"

definition dash_task_of :: "db \<Rightarrow> task_row \<Rightarrow> dash_task" where
  "dash_task_of d t = \<lparr> dt_key = ts_key t, dt_title = ts_title t, dt_status = ts_status t,
     dt_claimed_by = Option.bind (ts_claimed_by t) (agent_name_of d), dt_result = ts_result t,
     dt_blocked = blocked d (ts_id t), dt_updated = ts_updated t \<rparr>"

definition select_dash_tasks :: "uuid \<Rightarrow> db \<Rightarrow> dash_task list" where
  "select_dash_tasks team d = map (dash_task_of d) (take 30
     (order_by task_rank (order_by (\<lambda>t. - ts_updated t) (filter (\<lambda>t. ts_team t = team) (tasks d)))))"

text \<open>The joins with channel and sender drop a message that lacks either.\<close>

definition dash_message_of :: "db \<Rightarrow> message_row \<Rightarrow> dash_message option" where
  "dash_message_of d m =
     (case (Option.bind (ms_channel m) (channel_name_of d), agent_name_of d (ms_sender m)) of
        (Some ch, Some sender) \<Rightarrow>
          Some \<lparr> dm_id = ms_id m, dm_channel = ch, dm_sender = sender, dm_announce = ms_announce m,
                 dm_body = take 240 (ms_body m), dm_created = ms_created m \<rparr>
      | _ \<Rightarrow> None)"

definition select_dash_messages :: "uuid \<Rightarrow> db \<Rightarrow> dash_message list" where
  "select_dash_messages team d = take 20 (rev (List.map_filter (dash_message_of d)
     (order_by ms_id (filter (\<lambda>m. ms_team m = team) (messages d)))))"

definition dash_lock_of :: "db \<Rightarrow> lock_row \<Rightarrow> dash_lock option" where
  "dash_lock_of d l = map_option (\<lambda>h. \<lparr> dk_name = lk_name l, dk_holder = h,
     dk_purpose = lk_purpose l, dk_expires = lk_expires l \<rparr>) (agent_name_of d (lk_holder l))"

definition select_dash_locks :: "uuid \<Rightarrow> timestamp \<Rightarrow> db \<Rightarrow> dash_lock list" where
  "select_dash_locks team now d = List.map_filter (dash_lock_of d)
     (order_by lk_name (filter (\<lambda>l. lk_team l = team \<and> now < lk_expires l) (locks d)))"

definition select_dash_notes :: "uuid \<Rightarrow> db \<Rightarrow> dash_note list" where
  "select_dash_notes team d = map (\<lambda>n. \<lparr> dn_scope = nt_scope n, dn_key = nt_key n,
       dn_updated_by = Option.bind (nt_updated_by n) (agent_name_of d), dn_updated = nt_updated n \<rparr>)
     (take 15 (order_by (\<lambda>n. - nt_updated n) (filter (\<lambda>n. nt_team n = team) (note_table d))))"

text \<open>The seven queries run concurrently; here in one order.\<close>

definition load :: "uuid \<Rightarrow> snapshot io" where
  "load team =
     bind_io (load_team team) (\<lambda>slug.
     bind_io (query (select_totals team)) (\<lambda>tot.
     bind_io (query (select_agents team)) (\<lambda>as.
     bind_io (query (\<lambda>now. select_dash_tasks team)) (\<lambda>ts.
     bind_io (query (\<lambda>now. select_dash_messages team)) (\<lambda>ms.
     bind_io (query (select_dash_locks team)) (\<lambda>ls.
     bind_io (query (\<lambda>now. select_dash_notes team)) (\<lambda>ns.
     ret \<lparr> sn_team = slug, sn_totals = tot, sn_agents = as, sn_tasks = ts, sn_messages = ms,
           sn_locks = ls, sn_notes = ns \<rparr>)))))))"

subsection \<open>The page\<close>

datatype agent_icon = BlockedIcon | BusyIcon | IdleIcon | ActiveIcon | OfflineIcon

record agent_cells =
  gc_name :: string
  gc_session :: string
  gc_icon :: agent_icon
  gc_place :: string
  gc_activity :: string
  gc_seen :: string

datatype badge = DoneBadge | ClaimedBadge string | CancelledBadge | BlockedBadge | OpenBadge

record task_cells =
  tc_key :: string
  tc_title :: string
  tc_badge :: badge
  tc_detail :: string
  tc_updated :: string

record message_cells =
  mc_when :: string
  mc_channel :: string
  mc_announced :: bool
  mc_sender :: string
  mc_body :: string

record lock_cells =
  lc_name :: string
  lc_holder :: string
  lc_purpose :: string
  lc_expires :: string

record note_cells =
  nc_when :: string
  nc_scope :: string
  nc_key :: string
  nc_by :: string

record page =
  pg_team :: string
  pg_viewer :: string
  pg_totals :: totals
  pg_agents :: "agent_cells list"
  pg_tasks :: "task_cells list"
  pg_locks :: "lock_cells list"
  pg_messages :: "message_cells list"
  pg_notes :: "note_cells list"

definition agent_icon_of :: "dash_agent \<Rightarrow> agent_icon" where
  "agent_icon_of a =
     (if \<not> da_online a then OfflineIcon
      else if da_status a = Some ''blocked'' then BlockedIcon
      else if da_status a = Some ''busy'' then BusyIcon
      else if da_status a = Some ''idle'' then IdleIcon
      else ActiveIcon)"

definition agent_cells_of :: "timestamp \<Rightarrow> dash_agent \<Rightarrow> agent_cells" where
  "agent_cells_of now a =
     \<lparr> gc_name = esc (da_name a), gc_session = esc (da_session a), gc_icon = agent_icon_of a,
       gc_place = (case (da_repo a, da_branch a) of
           (Some r, Some b) \<Rightarrow> esc r @ ''@'' @ esc b
         | (Some r, None) \<Rightarrow> esc r
         | _ \<Rightarrow> []),
       gc_activity = esc (coalesce (da_activity a)),
       gc_seen = (case da_updated a of None \<Rightarrow> [] | Some t \<Rightarrow> ago now t) \<rparr>"

definition badge_of :: "dash_task \<Rightarrow> badge" where
  "badge_of t = (case dt_status t of
       Done \<Rightarrow> DoneBadge
     | Claimed \<Rightarrow> ClaimedBadge (esc (case dt_claimed_by t of None \<Rightarrow> ''?'' | Some n \<Rightarrow> n))
     | Cancelled \<Rightarrow> CancelledBadge
     | Open \<Rightarrow> if dt_blocked t then BlockedBadge else OpenBadge)"

definition task_cells_of :: "timestamp \<Rightarrow> dash_task \<Rightarrow> task_cells" where
  "task_cells_of now t =
     \<lparr> tc_key = esc (dt_key t), tc_title = esc (dt_title t), tc_badge = badge_of t,
       tc_detail = esc (coalesce (dt_result t)), tc_updated = ago now (dt_updated t) \<rparr>"

definition message_cells_of :: "timestamp \<Rightarrow> dash_message \<Rightarrow> message_cells" where
  "message_cells_of now m =
     \<lparr> mc_when = ago now (dm_created m), mc_channel = ''#'' @ esc (dm_channel m),
       mc_announced = dm_announce m, mc_sender = esc (dm_sender m), mc_body = esc (dm_body m) \<rparr>"

text \<open>\<open>ago(l.expires_at).replace(" ago", "")\<close>.\<close>

definition lock_cells_of :: "timestamp \<Rightarrow> dash_lock \<Rightarrow> lock_cells" where
  "lock_cells_of now l =
     \<lparr> lc_name = esc (dk_name l), lc_holder = esc (dk_holder l),
       lc_purpose = esc (coalesce (dk_purpose l)), lc_expires = ''expires '' @ ago_span now (dk_expires l) \<rparr>"

definition note_cells_of :: "timestamp \<Rightarrow> dash_note \<Rightarrow> note_cells" where
  "note_cells_of now n =
     \<lparr> nc_when = ago now (dn_updated n), nc_scope = esc (dn_scope n), nc_key = esc (dn_key n),
       nc_by = esc (coalesce (dn_updated_by n)) \<rparr>"

definition page_of :: "auth_ctx \<Rightarrow> timestamp \<Rightarrow> snapshot \<Rightarrow> page" where
  "page_of auth now s =
     \<lparr> pg_team = esc (sn_team s), pg_viewer = esc (agent_name auth), pg_totals = sn_totals s,
       pg_agents = map (agent_cells_of now) (sn_agents s),
       pg_tasks = map (task_cells_of now) (sn_tasks s),
       pg_locks = map (lock_cells_of now) (sn_locks s),
       pg_messages = map (message_cells_of now) (rev (sn_messages s)),
       pg_notes = map (note_cells_of now) (sn_notes s) \<rparr>"

definition build_page :: "auth_ctx \<Rightarrow> page io" where
  "build_page auth c = (case load (team_id auth) c of
       (Inl e, c1) \<Rightarrow> (Inl e, c1)
     | (Inr s, c1) \<Rightarrow> (Inr (page_of auth (clock c1) s), c1))"

subsection \<open>Requests\<close>

definition COOKIE :: string where
  "COOKIE = ''acs_dashboard''"

definition GRANT_TTL_SECS :: int where
  "GRANT_TTL_SECS = 3600"

definition cookie_value :: "externals \<Rightarrow> headers \<Rightarrow> string \<Rightarrow> string option" where
  "cookie_value x hs name =
     Option.bind (map_of hs ''cookie'') (\<lambda>v.
     Option.bind (header_str x v) (\<lambda>s.
     map_option snd (List.find (\<lambda>kv. fst kv = name)
       (List.map_filter (\<lambda>pair. split_once (CHR ''='') (trim pair)) (split_on (CHR '';'') s)))))"

definition bearer :: "externals \<Rightarrow> headers \<Rightarrow> string option" where
  "bearer x hs =
     (let v = Option.bind (map_of hs ''authorization'') (header_str x);
          t = Option.bind v (\<lambda>s. or_keep (strip_prefix ''Bearer '' s) (strip_prefix ''bearer '' s))
      in non_empty (map_option trim t))"

datatype login_message = PasteToken | TokenRevoked | TokenNotValid | SignIn

datatype body = LoginPage login_message | DashboardPage page | ServerError | Redirected

record response =
  rp_status :: nat
  rp_body :: body
  rp_set_cookie :: "string option"
  rp_no_store :: bool
  rp_no_referrer :: bool

text \<open>\<open>harden\<close> sets both headers on every response.\<close>

definition harden :: "nat \<Rightarrow> body \<Rightarrow> string option \<Rightarrow> response" where
  "harden status b cookie = \<lparr> rp_status = status, rp_body = b, rp_set_cookie = cookie,
     rp_no_store = True, rp_no_referrer = True \<rparr>"

definition login_page :: "nat \<Rightarrow> login_message \<Rightarrow> response" where
  "login_page status message = harden status (LoginPage message) None"

definition unix_time :: "conn \<Rightarrow> int" where
  "unix_time c = clock c div 1000000"

definition secure_request :: "externals \<Rightarrow> headers \<Rightarrow> bool" where
  "secure_request x hs =
     (case Option.bind (map_of hs ''x-forwarded-proto'') (header_str x) of
        None \<Rightarrow> False | Some v \<Rightarrow> lower v = ''https'')"

definition grant_cookie :: "string \<Rightarrow> bool \<Rightarrow> string" where
  "grant_cookie grant secure =
     COOKIE @ ''='' @ grant @ ''; Path=/dashboard; HttpOnly; SameSite=Strict; Max-Age='' @
     show_int GRANT_TTL_SECS @ (if secure then ''; Secure'' else [])"

text \<open>\<open>HeaderValue::from_str\<close>: a tab or a byte from 32 on, except DEL.\<close>

definition header_value_ok :: "string \<Rightarrow> bool" where
  "header_value_ok s = list_all (\<lambda>c. code_of c = 9 \<or> (32 \<le> code_of c \<and> code_of c \<noteq> 127)) s"

definition login :: "externals \<Rightarrow> string \<Rightarrow> headers \<Rightarrow> string option \<Rightarrow> conn \<Rightarrow> response \<times> conn" where
  "login x secret hs token c =
     (case (case token of None \<Rightarrow> None | Some t \<Rightarrow> if trim t = [] then None else Some t) of
        None \<Rightarrow> (login_page 401 PasteToken, c)
      | Some raw \<Rightarrow> (case resolve_token x raw c of
            (Inl e, c1) \<Rightarrow> (login_page 401 TokenRevoked, c1)
          | (Inr auth, c1) \<Rightarrow>
              (let cookie = grant_cookie (issue x secret (team_id auth) (unix_time c1) GRANT_TTL_SECS)
                     (secure_request x hs)
               in (harden 303 Redirected (if header_value_ok cookie then Some cookie else None), c1))))"

definition dashboard_ctx :: "uuid \<Rightarrow> auth_ctx" where
  "dashboard_ctx team = \<lparr> agent_id = 0, agent_name = [], team_id = team, team_slug = [], session = [] \<rparr>"

definition show_page :: "uuid \<Rightarrow> conn \<Rightarrow> response \<times> conn" where
  "show_page team c = (case build_page (dashboard_ctx team) c of
       (Inr p, c1) \<Rightarrow> (harden 200 (DashboardPage p) None, c1)
     | (Inl e, c1) \<Rightarrow> (harden 500 ServerError None, c1))"

definition render :: "externals \<Rightarrow> string \<Rightarrow> headers \<Rightarrow> conn \<Rightarrow> response \<times> conn" where
  "render x secret hs c =
     (case Option.bind (cookie_value x hs COOKIE) (\<lambda>g. verify x secret g (unix_time c)) of
        Some team \<Rightarrow> show_page team c
      | None \<Rightarrow> (case bearer x hs of
            None \<Rightarrow> (login_page 401 SignIn, c)
          | Some raw \<Rightarrow> (case resolve_token x raw c of
                (Inl e, c1) \<Rightarrow> (login_page 401 TokenNotValid, c1)
              | (Inr auth, c1) \<Rightarrow> show_page (team_id auth) c1)))"

subsection \<open>Nothing on the page is markup\<close>

definition plain :: "string \<Rightarrow> bool" where
  "plain s \<longleftrightarrow> set s \<inter> {CHR ''<'', CHR ''>'', CHR 0x22, CHR 0x27} = {}"

lemma set_replace_char: "set (replace_char c r s) \<subseteq> (set s - {c}) \<union> set r"
  by (auto simp: replace_char_def split: if_splits)

lemma plain_append [simp]: "plain (a @ b) \<longleftrightarrow> plain a \<and> plain b"
  by (auto simp: plain_def)

lemma plain_Cons [simp]:
  "plain (c # s) \<longleftrightarrow> c \<notin> {CHR ''<'', CHR ''>'', CHR 0x22, CHR 0x27} \<and> plain s"
  by (auto simp: plain_def)

lemma plain_Nil [simp]: "plain []"
  by (simp add: plain_def)

lemma plain_esc [simp]: "plain (esc s)"
proof -
  let ?a = "replace_char (CHR ''&'') ''&amp;'' s"
  let ?b = "replace_char (CHR ''<'') ''&lt;'' ?a"
  let ?c = "replace_char (CHR ''>'') ''&gt;'' ?b"
  let ?d = "replace_char (CHR 0x22) ''&quot;'' ?c"
  have "CHR ''<'' \<notin> set ?b" using set_replace_char by fastforce
  then have c: "CHR ''<'' \<notin> set ?c" "CHR ''>'' \<notin> set ?c" using set_replace_char by fastforce+
  then have "CHR ''<'' \<notin> set ?d" "CHR ''>'' \<notin> set ?d" "CHR 0x22 \<notin> set ?d"
    using set_replace_char by fastforce+
  then show ?thesis
    unfolding plain_def esc_def using set_replace_char [of "CHR 0x27" "''&#39;''" ?d] by auto
qed

lemma plain_digits: "\<forall>c \<in> set s. is_digit c \<Longrightarrow> plain s"
  by (auto simp: plain_def is_digit_def code_of_def)

lemma plain_show_nat [simp]: "plain (show_nat n)"
  by (rule plain_digits) (use show_nat_digits in auto)

lemma plain_ago_span [simp]: "plain (ago_span now t)"
  by (simp add: ago_span_def Let_def)

lemma plain_ago [simp]: "plain (ago now t)"
  by (simp add: ago_def)

definition badge_texts :: "badge \<Rightarrow> string list" where
  "badge_texts b = (case b of ClaimedBadge s \<Rightarrow> [s] | _ \<Rightarrow> [])"

definition page_texts :: "page \<Rightarrow> string list" where
  "page_texts p = [pg_team p, pg_viewer p]
     @ concat (map (\<lambda>a. [gc_name a, gc_session a, gc_place a, gc_activity a, gc_seen a]) (pg_agents p))
     @ concat (map (\<lambda>t. badge_texts (tc_badge t) @ [tc_key t, tc_title t, tc_detail t, tc_updated t]) (pg_tasks p))
     @ concat (map (\<lambda>l. [lc_name l, lc_holder l, lc_purpose l, lc_expires l]) (pg_locks p))
     @ concat (map (\<lambda>m. [mc_when m, mc_channel m, mc_sender m, mc_body m]) (pg_messages p))
     @ concat (map (\<lambda>n. [nc_when n, nc_scope n, nc_key n, nc_by n]) (pg_notes p))"

lemma plain_cells:
  "list_all plain [gc_name (agent_cells_of now a), gc_session (agent_cells_of now a),
     gc_place (agent_cells_of now a), gc_activity (agent_cells_of now a), gc_seen (agent_cells_of now a)]"
  "list_all plain (badge_texts (badge_of t))"
  "list_all plain [lc_name (lock_cells_of now l), lc_holder (lock_cells_of now l),
     lc_purpose (lock_cells_of now l), lc_expires (lock_cells_of now l)]"
  by (auto simp: agent_cells_of_def badge_of_def badge_texts_def lock_cells_of_def
      split: option.split task_status.split)

text \<open>
  No text on the dashboard can become markup: whatever agents wrote into names,
  titles, bodies or branches, every text the page is built from is free of angle brackets
  and of both quotes.
\<close>

theorem page_is_escaped: "list_all plain (page_texts (page_of auth now s))"
proof -
  have m: "list_all plain [mc_when (message_cells_of now m), mc_channel (message_cells_of now m),
      mc_sender (message_cells_of now m), mc_body (message_cells_of now m)]" for m
    by (simp add: message_cells_of_def)
  have t: "list_all plain [tc_key (task_cells_of now t), tc_title (task_cells_of now t),
      tc_detail (task_cells_of now t), tc_updated (task_cells_of now t)]" for t
    by (simp add: task_cells_of_def)
  have n: "list_all plain [nc_when (note_cells_of now n), nc_scope (note_cells_of now n),
      nc_key (note_cells_of now n), nc_by (note_cells_of now n)]" for n
    by (simp add: note_cells_of_def)
  have b: "tc_badge (task_cells_of now t) = badge_of t" for t by (simp add: task_cells_of_def)
  show ?thesis
    using m t n plain_cells(1,3) [of now] plain_cells(2)
    by (simp add: page_texts_def page_of_def list_all_iff b ball_Un)
qed

subsection \<open>Who sees which team\<close>

lemma dash_message_from:
  "dash_message_of d r = Some m \<Longrightarrow> dm_id m = ms_id r \<and> ms_channel r \<noteq> None"
  by (cases "ms_channel r") (auto simp: dash_message_of_def split: prod.splits option.splits)

lemma select_dash_messages_from:
  assumes "m \<in> set (select_dash_messages team d)"
  shows "\<exists>r \<in> set (messages d). dm_id m = ms_id r \<and> ms_team r = team \<and> ms_channel r \<noteq> None"
proof -
  have "m \<in> set (List.map_filter (dash_message_of d) (order_by ms_id (filter (\<lambda>m. ms_team m = team) (messages d))))"
    using assms set_take_subset by (fastforce simp: select_dash_messages_def)
  then obtain r where "r \<in> set (messages d)" "ms_team r = team" "dash_message_of d r = Some m"
    by (auto simp: List.map_filter_def)
  then show ?thesis using dash_message_from by blast
qed

lemma load_quiet:
  "quiet c \<Longrightarrow> load team c = (case List.find (\<lambda>t. tm_id t = team) (teams (data c)) of
      None \<Rightarrow> (Inl Db, c)
    | Some t \<Rightarrow> (Inr \<lparr> sn_team = tm_slug t, sn_totals = select_totals team (clock c) (data c),
        sn_agents = select_agents team (clock c) (data c), sn_tasks = select_dash_tasks team (data c),
        sn_messages = select_dash_messages team (data c),
        sn_locks = select_dash_locks team (clock c) (data c),
        sn_notes = select_dash_notes team (data c) \<rparr>, c))"
  by (simp add: load_def load_team_def quiet_simps split: option.splits)

lemma show_page_cases:
  assumes "quiet c" and "show_page team c = (r, c')" and "rp_body r = DashboardPage p"
  obtains s where "load team c = (Inr s, c)" "p = page_of (dashboard_ctx team) (clock c) s"
  using assms
  by (auto simp: show_page_def build_page_def load_quiet dashboard_ctx_def harden_def
      split: option.splits sum.splits)

lemma resolve_token_quiet:
  assumes "quiet c" and "resolve_token x raw c = (r, c1)"
  shows "quiet c1 \<and> messages (data c1) = messages (data c) \<and> clock c1 = clock c"
  using assms
  by (auto simp: resolve_token_def quiet_simps attempt_def touch_token_def split: if_splits option.splits)

text \<open>
  C40 (safety). The dashboard of a team is shown only to a browser whose cookie is a grant that
  verifies to that team now, or to a request whose bearer token resolves to an agent of that
  team; and every message on it is a channel message of that team, never a direct one.
\<close>

theorem dashboard_access:
  assumes "quiet c" and "render x secret hs c = (r, c')" and "rp_body r = DashboardPage p"
  shows "\<exists>team s c1. p = page_of (dashboard_ctx team) (clock c) s \<and>
    (Option.bind (cookie_value x hs COOKIE) (\<lambda>g. verify x secret g (unix_time c)) = Some team \<or>
     (\<exists>raw auth. bearer x hs = Some raw \<and> fst (resolve_token x raw c) = Inr auth \<and> team_id auth = team)) \<and>
    load team c1 = (Inr s, c1) \<and>
    (\<forall>m \<in> set (sn_messages s). \<exists>row \<in> set (messages (data c)).
       dm_id m = ms_id row \<and> ms_team row = team \<and> ms_channel row \<noteq> None)"
proof -
  have msgs: "\<forall>m \<in> set (sn_messages s). \<exists>row \<in> set (messages (data c1)).
       dm_id m = ms_id row \<and> ms_team row = team \<and> ms_channel row \<noteq> None"
    if "quiet c1" "load team c1 = (Inr s, c1)" for team s c1
    using that select_dash_messages_from [of _ team "data c1"]
    by (auto simp: load_quiet split: option.splits)
  show ?thesis
  proof (cases "Option.bind (cookie_value x hs COOKIE) (\<lambda>g. verify x secret g (unix_time c))")
    case (Some team)
    then have "show_page team c = (r, c')" using assms(2) by (simp add: render_def)
    from show_page_cases [OF assms(1) this assms(3)] Some msgs [OF assms(1)] show ?thesis by metis
  next
    case None
    then obtain raw where raw: "bearer x hs = Some raw"
      using assms(2,3) by (auto simp: render_def login_page_def harden_def split: option.splits)
    obtain res c1 where res: "resolve_token x raw c = (res, c1)" by force
    then obtain auth where auth: "res = Inr auth"
      using assms(2,3) None raw
      by (cases res) (auto simp: render_def login_page_def harden_def)
    then have "show_page (team_id auth) c1 = (r, c')"
      using assms(2) None raw res by (simp add: render_def)
    moreover have q: "quiet c1" "messages (data c1) = messages (data c)" "clock c1 = clock c"
      using resolve_token_quiet [OF assms(1) res] by auto
    ultimately obtain s where "load (team_id auth) c1 = (Inr s, c1)"
      "p = page_of (dashboard_ctx (team_id auth)) (clock c) s"
      using show_page_cases [OF q(1) _ assms(3)] by metis
    with raw res auth msgs [OF q(1)] q(2) show ?thesis by (metis fst_conv)
  qed
qed

definition cookie_headers :: headers where
  "cookie_headers = [(''cookie'', ''a=b; acs_dashboard='' @ issue demo_ext ''k'' 7 1000 60)]"

definition grant_conn :: conn where
  "grant_conn = demo_conn\<lparr>data := demo_db\<lparr>messages :=
     [\<lparr> ms_id = 3, ms_team = 7, ms_channel = Some 20, ms_recipient = None,
        ms_recipient_session = None, ms_sender = 1, ms_sender_session = None, ms_announce = False,
        ms_body = ''<b>'', ms_reply_to = None, ms_metadata = JNull, ms_created = 0 \<rparr>,
      \<lparr> ms_id = 4, ms_team = 7, ms_channel = None, ms_recipient = Some 2,
        ms_recipient_session = None, ms_sender = 1, ms_sender_session = None, ms_announce = False,
        ms_body = ''secret'', ms_reply_to = None, ms_metadata = JNull, ms_created = 0 \<rparr>]\<rparr>\<rparr>"

lemma quiet_grant_conn [simp]: "quiet grant_conn"
  by (simp add: grant_conn_def quiet_def demo_conn_def)

lemma demo_cookie:
  "cookie_value demo_ext cookie_headers COOKIE = Some (issue demo_ext ''k'' 7 1000 60)"
  by code_simp

lemma demo_page:
  "map mc_body (case rp_body (fst (render demo_ext ''k'' cookie_headers grant_conn)) of
     DashboardPage p \<Rightarrow> pg_messages p | _ \<Rightarrow> []) = [''&lt;b&gt;'']"
  by code_simp

theorem dashboard_access_witness:
  "\<exists>p team s. rp_body (fst (render demo_ext ''k'' cookie_headers grant_conn)) = DashboardPage p \<and>
    map mc_body (pg_messages p) = [''&lt;b&gt;''] \<and>
    p = page_of (dashboard_ctx team) (seconds 1000) s"
proof -
  obtain p where p: "rp_body (fst (render demo_ext ''k'' cookie_headers grant_conn)) = DashboardPage p"
    using demo_page by (auto split: body.splits)
  then have "map mc_body (pg_messages p) = [''&lt;b&gt;'']" using demo_page by simp
  moreover have "clock grant_conn = seconds 1000" by (simp add: grant_conn_def demo_conn_def)
  ultimately show ?thesis
    using dashboard_access [OF quiet_grant_conn surjective_pairing p] p by fastforce
qed

subsection \<open>What the page gets wrong\<close>

text \<open>
  \<open>ago\<close> clamps a future instant to zero, and a listed lock always expires in the future: the
  column reads \<open>expires 0s\<close> for every lock that is shown.
\<close>

lemma lock_expiry_is_zero:
  assumes "l \<in> set (select_dash_locks team now d)"
  shows "lc_expires (lock_cells_of now l) = ''expires 0s''"
proof -
  have "now < dk_expires l"
    using assms by (auto simp: select_dash_locks_def List.map_filter_def dash_lock_of_def)
  moreover have "show_nat 0 = ''0''" by code_simp
  ultimately show ?thesis by (simp add: lock_cells_of_def ago_span_def)
qed

text \<open>The context of a dashboard request carries no agent, so the page is viewed as nobody.\<close>

lemma page_has_no_viewer: "pg_viewer (page_of (dashboard_ctx team) now s) = []"
  by (simp add: page_of_def dashboard_ctx_def esc_def replace_char_def)

text \<open>
  The tile counts a disabled agent that is still present; the agent table below it does not
  list it.
\<close>

definition disabled_db :: db where
  "disabled_db = demo_db\<lparr>agents := [(demo_agent ana)\<lparr>ag_disabled := Some 5\<rparr>],
     presences := [\<lparr> pr_agent = 1, pr_session = [], pr_status = ''active'', pr_repo = None,
       pr_branch = None, pr_activity = None, pr_updated = 0, pr_expires = seconds 60 \<rparr>]\<rparr>"

lemma disabled_agent_counted:
  "tt_agents_online (select_totals 7 0 disabled_db) = 1 \<and> select_agents 7 0 disabled_db = []"
  by code_simp

end
