(* ===== verification/Serve.thy ===== *)
theory Serve
  imports Isolation Dashboard
begin

text \<open>
  \<open>serve.rs\<close>: the HTTP server. A request passes the router, and under \<open>/mcp\<close> the layers
  around the MCP service: the explanation of a refused body, the body limit, and the
  bearer check. tower-http's limit layer and rmcp's decoding of a request are fields of the
  server; the tools a decoded call runs are the model's.
\<close>

subsection \<open>Requests and answers\<close>

datatype http_method = MGet | MHead | MPost | MOther

record http_request =
  rq_method :: http_method
  rq_path :: string
  rq_headers :: headers
  rq_form_token :: "string option"   \<comment> \<open>the login form\<close>
  rq_body :: string

text \<open>What rmcp's service does with an admitted request: run a tool, or answer by itself.\<close>

datatype mcp_step = Calls tool_call | Replies nat

record server =
  sv_limit :: nat                                   \<comment> \<open>\<open>max_request_bytes\<close>\<close>
  sv_secret :: string                               \<comment> \<open>\<open>dashboard_secret\<close>\<close>
  sv_over :: "nat \<Rightarrow> http_request \<Rightarrow> bool"           \<comment> \<open>\<open>RequestBodyLimitLayer\<close> refuses\<close>
  sv_mcp :: "http_request \<Rightarrow> mcp_step"
  sv_round :: "rat \<Rightarrow> rat"

datatype served =
    HealthAnswer bool
  | PageAnswer response
  | BodyTooLarge "nat option"        \<comment> \<open>with the explanation of the limit, or bare\<close>
  | NotAdmitted auth_response
  | ToolAnswer "(error_code \<times> why option) + tool_result"
  | McpAnswer nat
  | NoSuchRoute
  | MethodNotAllowed

definition DEFAULT_MAX_REQUEST_BYTES :: nat where
  "DEFAULT_MAX_REQUEST_BYTES = 8 * 1024 * 1024"

definition DEFAULT_RATE_LIMIT_PER_MINUTE :: nat where
  "DEFAULT_RATE_LIMIT_PER_MINUTE = 600"

subsection \<open>Handlers and layers\<close>

definition health :: "conn \<Rightarrow> served \<times> conn" where
  "health c = (case query (\<lambda>now d. 1 :: int) c of
       (Inr _, c1) \<Rightarrow> (HealthAnswer True, c1)
     | (Inl e, c1) \<Rightarrow> (HealthAnswer False, c1))"

text \<open>A tool's error is an error of the JSON-RPC answer, whose status is 200.\<close>

fun status_of :: "served \<Rightarrow> nat" where
  "status_of (HealthAnswer up) = (if up then 200 else 503)"
| "status_of (PageAnswer r) = rp_status r"
| "status_of (BodyTooLarge _) = 413"
| "status_of (NotAdmitted r) = ar_status r"
| "status_of (ToolAnswer _) = 200"
| "status_of (McpAnswer s) = s"
| "status_of NoSuchRoute = 404"
| "status_of MethodNotAllowed = 405"

definition explain_payload_too_large :: "nat \<Rightarrow> served \<Rightarrow> served" where
  "explain_payload_too_large limit resp =
     (if status_of resp \<noteq> 413 then resp else BodyTooLarge (Some limit))"

definition mcp_service :: "externals \<Rightarrow> server \<Rightarrow> auth_ctx \<Rightarrow> http_request \<Rightarrow> conn \<Rightarrow> served \<times> conn" where
  "mcp_service x sv auth rq c = (case sv_mcp sv rq of
       Calls call \<Rightarrow> (let (r, c1) = call_tool x (Some auth) call c in (ToolAnswer r, c1))
     | Replies s \<Rightarrow> (McpAnswer s, c))"

definition authenticated ::
  "externals \<Rightarrow> server \<Rightarrow> int \<Rightarrow> http_request \<Rightarrow> limiter option \<Rightarrow> conn \<Rightarrow> served \<times> limiter option \<times> conn" where
  "authenticated x sv now rq ml c = (case require_bearer x (sv_round sv) now (rq_headers rq) ml c of
       (Inl e, ml', c1) \<Rightarrow> (NotAdmitted (into_response e), ml', c1)
     | (Inr auth, ml', c1) \<Rightarrow> (let (r, c2) = mcp_service x sv auth rq c1 in (r, ml', c2)))"

definition mcp_routes ::
  "externals \<Rightarrow> server \<Rightarrow> int \<Rightarrow> http_request \<Rightarrow> limiter option \<Rightarrow> conn \<Rightarrow> served \<times> limiter option \<times> conn" where
  "mcp_routes x sv now rq ml c =
     (let (r, ml', c') = (if sv_over sv (sv_limit sv) rq then (BodyTooLarge None, ml, c)
                          else authenticated x sv now rq ml c)
      in (explain_payload_too_large (sv_limit sv) r, ml', c'))"

definition under_mcp :: "string \<Rightarrow> bool" where
  "under_mcp path \<longleftrightarrow> path = ''/mcp'' \<or> starts_with ''/mcp/'' path"

definition dashboard_routes :: "externals \<Rightarrow> server \<Rightarrow> http_request \<Rightarrow> conn \<Rightarrow> served \<times> conn" where
  "dashboard_routes x sv rq c =
     (if rq_path rq = ''/dashboard'' then
        (if rq_method rq \<in> {MGet, MHead}
         then let (r, c1) = render x (sv_secret sv) (rq_headers rq) c in (PageAnswer r, c1)
         else (MethodNotAllowed, c))
      else if rq_path rq = ''/dashboard/login'' then
        (if rq_method rq = MPost
         then let (r, c1) = login x (sv_secret sv) (rq_headers rq) (rq_form_token rq) c in (PageAnswer r, c1)
         else (MethodNotAllowed, c))
      else (NoSuchRoute, c))"

definition serve_request ::
  "externals \<Rightarrow> server \<Rightarrow> int \<Rightarrow> http_request \<Rightarrow> limiter option \<Rightarrow> conn \<Rightarrow> served \<times> limiter option \<times> conn" where
  "serve_request x sv now rq ml c =
     (if under_mcp (rq_path rq) then mcp_routes x sv now rq ml c
      else if rq_path rq = ''/health'' then
        (if rq_method rq \<in> {MGet, MHead} then let (r, c1) = health c in (r, ml, c1)
         else (MethodNotAllowed, ml, c))
      else let (r, c1) = dashboard_routes x sv rq c in (r, ml, c1))"

subsection \<open>What reaches a tool\<close>

text \<open>
  C8 (safety). A tool runs only behind all layers: if a request is answered by a tool, its
  body was within the limit, it carried the token of an enabled agent that was not revoked
  when it was looked up, and the answer and the changed database are those of that
  agent's call, in the session its header names.
\<close>

theorem tool_answers_are_authenticated:
  assumes "serve_request x sv now rq ml c = (ToolAnswer r, ml', c')"
  shows "\<not> sv_over sv (sv_limit sv) rq \<and> (\<exists>call auth raw c0 c1. sv_mcp sv rq = Calls call \<and>
     bearer_token x (rq_headers rq) = Some raw \<and> next_tick c = (False, c0) \<and>
     token_grants x raw (data c0) auth \<and> good_session (session auth) \<and>
     require_bearer x (sv_round sv) now (rq_headers rq) ml c = (Inr auth, ml', c1) \<and>
     call_tool x (Some auth) call c1 = (r, c'))"
proof -
  have "mcp_routes x sv now rq ml c = (ToolAnswer r, ml', c')"
    using assms by (auto simp: serve_request_def health_def dashboard_routes_def split: if_splits prod.splits sum.splits)
  then have over: "\<not> sv_over sv (sv_limit sv) rq" and auth: "authenticated x sv now rq ml c = (ToolAnswer r, ml', c')"
    by (auto simp: mcp_routes_def explain_payload_too_large_def split: if_splits prod.splits)
  then obtain auth c1 where req: "require_bearer x (sv_round sv) now (rq_headers rq) ml c = (Inr auth, ml', c1)"
    and svc: "mcp_service x sv auth rq c1 = (ToolAnswer r, c')"
    by (auto simp: authenticated_def split: prod.splits sum.splits)
  from req show ?thesis
  proof (rule require_bearer_Inr)
    fix raw s ctx0
    assume h: "bearer_token x (rq_headers rq) = Some raw" "session_from_headers x (rq_headers rq) = Inr s"
      "resolve_token x raw c = (Inr ctx0, c1)" "auth = ctx0\<lparr>session := s\<rparr>"
    obtain c0 where "next_tick c = (False, c0)" "token_grants x raw (data c0) ctx0"
      using h(3) by (rule resolve_token_sound)
    then show ?thesis
      using over req svc h session_from_headers_good [OF h(2)]
      by (auto simp: mcp_service_def token_grants_def split: mcp_step.splits prod.splits)
  qed
qed

subsection \<open>Whom a request can touch\<close>

text \<open>
  Everything one team has, and the tables no request writes; of the tokens everything but
  the time of their last use.
\<close>

definition shown where
  "shown u d = (team_view u (d\<lparr>tokens := []\<rparr>), map (\<lambda>t. t\<lparr>tk_last_used := None\<rparr>) (tokens d))"

text \<open>The statements of the other sessions in between are not about this team.\<close>

definition untouched :: "uuid \<Rightarrow> db \<Rightarrow> db \<Rightarrow> bool" where
  "untouched u d d' \<longleftrightarrow> team_view u d' = team_view u d \<and>
     (distinct (map ts_id (tasks d)) \<longrightarrow> distinct (map ts_id (tasks d')))"

definition calm :: "uuid \<Rightarrow> db \<Rightarrow> conn \<Rightarrow> bool" where
  "calm u v c \<longleftrightarrow> rely (untouched u) c \<and> shown u (data c) = shown u v \<and> distinct (map ts_id (tasks (data c)))"

lemma shown_same: "team_view u d' = team_view u d \<Longrightarrow> shown u d' = shown u d"
  by (simp add: shown_def team_view_def)

lemma calm_next_tick:
  assumes "calm u v c" and "next_tick c = (b, c1)"
  shows "calm u v c1"
proof (cases "sched c")
  case (Cons t ts)
  with assms(1) have t: "untouched u (data c) (others t (data c))" and ts: "\<forall>t \<in> set ts. \<forall>d. untouched u d (others t d)"
    by (simp_all add: calm_def rely_def)
  from t have "shown u (others t (data c)) = shown u (data c)"
    by (intro shown_same) (simp add: untouched_def)
  with assms Cons t ts show ?thesis
    by (auto simp: calm_def next_tick_def rely_def untouched_def)
qed (use assms in \<open>simp add: next_tick_def\<close>)

lemma calm_query:
  assumes "calm u v c"
  shows "calm u v (snd (query f c))"
proof (cases "next_tick c")
  case (Pair b c1)
  with calm_next_tick [OF assms Pair] show ?thesis by (simp add: query_def sql_def)
qed

lemma calm_touch:
  assumes "calm u v c"
  shows "calm u v (snd (attempt (execute (touch_token i)) c))"
proof (cases "next_tick c")
  case (Pair b c1)
  have keep: "shown u (snd (touch_token i now d)) = shown u d" for now d
    by (simp add: shown_def touch_token_def team_view_def map_update_where)
  have ids: "tasks (snd (touch_token i now d)) = tasks d" for now d
    by (simp add: touch_token_def)
  have "calm u v (c1\<lparr>data := snd (touch_token i (clock c1) (data c1))\<rparr>)"
    using calm_next_tick [OF assms Pair] by (simp add: calm_def rely_def keep ids)
  with Pair calm_next_tick [OF assms Pair] show ?thesis
    by (auto simp: attempt_def execute_def sql_def split: prod.splits)
qed

lemma calm_resolve: "calm u v c \<Longrightarrow> resolve_token x raw c = (r, c') \<Longrightarrow> calm u v c'"
  using calm_query [of u v c "\<lambda>now. select_token (hash_token x raw)"] calm_touch [of u v]
  by (auto simp: resolve_token_def split: if_splits prod.splits sum.splits option.splits)

lemma calm_require_bearer:
  "calm u v c \<Longrightarrow> require_bearer x rnd now hs ml c = (r, ml', c') \<Longrightarrow> calm u v c'"
  using calm_resolve by (auto simp: require_bearer_def split: option.splits prod.splits sum.splits)

lemma calm_keeps:
  assumes "calm u v c" and "\<And>w. keeps (elsewhere u w) m"
  shows "shown u (data (snd (m c))) = shown u v"
proof -
  have "admissible (elsewhere u (team_view u (data c))) c"
    using assms(1) by (auto simp: calm_def admissible_def elsewhere_def rely_def untouched_def)
  from keeps_data [OF assms(2) this] have "team_view u (data (snd (m c))) = team_view u (data c)"
    by (simp add: elsewhere_def)
  with assms(1) shown_same show ?thesis by (metis calm_def)
qed

lemma keeps_load [keeps_intros]: "keeps I (load team)"
proof -
  have "keeps I (load_team team)" unfolding load_team_def by (rule keeps_sql) auto
  then show ?thesis unfolding load_def by (intro keeps_intros)
qed

lemma shown_page:
  assumes "calm u v c" and "show_page team c = (r, c')"
  shows "shown u (data c') = shown u v"
proof -
  have "c' = snd (load (team_id (dashboard_ctx team)) c)"
    using assms(2) by (auto simp: show_page_def build_page_def split: prod.splits sum.splits)
  with calm_keeps [OF assms(1) keeps_load] show ?thesis by simp
qed

lemma shown_calm: "calm u v c \<Longrightarrow> shown u (data c) = shown u v"
  by (simp add: calm_def)

lemma shown_dashboard:
  assumes "calm u v c" and "dashboard_routes x sv rq c = (r, c')"
  shows "shown u (data c') = shown u v"
proof -
  have "shown u (data c1) = shown u v" if "render x s hs c = (p, c1)" for s hs p c1
    using that shown_page [OF assms(1)] shown_page [OF calm_resolve [OF assms(1)]]
      shown_calm [OF assms(1)] shown_calm [OF calm_resolve [OF assms(1)]]
    by (auto simp: render_def split: option.splits prod.splits sum.splits)
  moreover have "shown u (data c1) = shown u v" if "login x s hs t c = (p, c1)" for s hs t p c1
    using that shown_calm [OF assms(1)] shown_calm [OF calm_resolve [OF assms(1)]]
    by (auto simp: login_def Let_def split: option.splits prod.splits sum.splits if_splits)
  ultimately show ?thesis
    using assms(2) shown_calm [OF assms(1)] by (auto simp: dashboard_routes_def split: if_splits prod.splits)
qed

lemma shown_tool:
  assumes "calm u v c" and "team_id auth \<noteq> u" and "call_tool x (Some auth) call c = (r, c')"
  shows "shown u (data c') = shown u v"
proof -
  have "c' = snd (run_tool x (Some auth) call c)"
    using assms(3) by (auto simp: call_tool_def split: prod.splits sum.splits)
  with calm_keeps [OF assms(1) elsewhere_run_tool [OF assms(2)]] show ?thesis by simp
qed

lemma same_grants:
  assumes "rely (untouched u) c" and "next_tick c = (b, c0)"
  shows "token_grants x raw (data c0) ctx = token_grants x raw (data c) ctx"
proof -
  have "team_view u (data c0) = team_view u (data c)"
    using assms by (auto simp: next_tick_def rely_def untouched_def split: list.splits)
  then show ?thesis by (simp add: token_grants_def team_view_def)
qed


subsection \<open>Worked instances\<close>

definition demo_server :: "tool_call \<Rightarrow> server" where
  "demo_server call = \<lparr> sv_limit = DEFAULT_MAX_REQUEST_BYTES, sv_secret = ''s'',
     sv_over = (\<lambda>limit rq. limit < length (rq_body rq)), sv_mcp = (\<lambda>rq. Calls call), sv_round = id \<rparr>"

definition demo_request :: "headers \<Rightarrow> http_request" where
  "demo_request hs = \<lparr> rq_method = MPost, rq_path = ''/mcp'', rq_headers = hs, rq_form_token = None, rq_body = '''' \<rparr>"

lemma demo_header: "map_of demo_headers ''authorization'' = Some ''Bearer acs_1''"
  by code_simp

theorem tool_answers_are_authenticated_witness:
  "\<exists>auth c1. fst (require_bearer demo_ext id 0 demo_headers None auth_conn) = Inr auth \<and>
     token_grants demo_ext ''acs_1'' (data auth_conn) auth \<and> good_session (session auth) \<and>
     fst (serve_request demo_ext (demo_server ListChannels) 0 (demo_request demo_headers) None auth_conn) =
       ToolAnswer (fst (call_tool demo_ext (Some auth) ListChannels c1))"
proof -
  obtain ml1 c1 where req: "require_bearer demo_ext id 0 demo_headers None auth_conn = (Inr ana_web, ml1, c1)"
    using demo_admitted [OF _ demo_web] by (metis ana_web_def demo_header prod.collapse)
  obtain r c' where call: "call_tool demo_ext (Some ana_web) ListChannels c1 = (r, c')" by force
  have path: "under_mcp ''/mcp''" by (simp add: under_mcp_def)
  have run: "serve_request demo_ext (demo_server ListChannels) 0 (demo_request demo_headers) None auth_conn =
      (ToolAnswer r, ml1, c')"
    using req call path
    by (simp add: serve_request_def mcp_routes_def authenticated_def mcp_service_def demo_server_def
        demo_request_def explain_payload_too_large_def DEFAULT_MAX_REQUEST_BYTES_def)
  have tick: "next_tick auth_conn = (False, auth_conn)"
    by (simp add: next_tick_def auth_conn_def demo_conn_def)
  have raw: "bearer_token demo_ext demo_headers = Some ''acs_1''" by code_simp
  from tool_answers_are_authenticated [OF run] req tick raw
  have "token_grants demo_ext ''acs_1'' (data auth_conn) ana_web \<and> good_session (session ana_web)"
    by (auto simp: demo_server_def demo_request_def)
  moreover have "fst (call_tool demo_ext (Some ana_web) ListChannels c1) = r" using call by simp
  ultimately show ?thesis using req run by (intro exI [of _ ana_web] exI [of _ c1]) simp
qed


end
