(* ===== verification/Client.thy ===== *)
theory Client
  imports Client_Calls Serve
begin

text \<open>
  The console client: \<open>client/mod.rs\<close> runs one subcommand against a server, \<open>client/render.rs\<close>
  turns the structured answer into lines. The server is a parameter; the bus of this
  development is one. Widths count bytes; pretty-printed JSON is kept as the JSON.
\<close>

subsection \<open>Reading an answer\<close>

text \<open>\<open>v[k]\<close> is null where there is nothing; \<open>field\<close> is empty.\<close>

definition ix :: "json \<Rightarrow> string \<Rightarrow> json" where
  "ix v k = (case json_get v k of None \<Rightarrow> JNull | Some j \<Rightarrow> j)"

definition field :: "json \<Rightarrow> string \<Rightarrow> string" where
  "field v k = coalesce (Option.bind (json_get v k) as_str)"

definition elements :: "json \<Rightarrow> string \<Rightarrow> json list" where
  "elements v k = (case as_array (ix v k) of None \<Rightarrow> [] | Some xs \<Rightarrow> xs)"

definition is_true :: "json \<Rightarrow> string \<Rightarrow> bool" where
  "is_true v k = (as_bool (ix v k) = Some True)"

definition pad :: "nat \<Rightarrow> string \<Rightarrow> string" where
  "pad n s = s @ replicate (n - length s) CHR '' ''"

text \<open>\<open>lines().next()\<close>.\<close>

definition first_line :: "string \<Rightarrow> string" where
  "first_line s = (let l = takeWhile (\<lambda>c. c \<noteq> CHR 0x0A) s in
     if length l < length s \<and> l \<noteq> [] \<and> last l = CHR 0x0D then butlast l else l)"

datatype effect =
    Say string
  | SayJson json
  | WroteFile string string
  | SayTools "(string \<times> string) list"

record terminal =
  te_show :: "json \<Rightarrow> string"                \<comment> \<open>the compact text of a JSON value\<close>
  te_parse :: "string \<Rightarrow> json option"
  te_writable :: "string \<Rightarrow> bool"

subsection \<open>Lines\<close>

definition agent_place :: "json \<Rightarrow> string" where
  "agent_place v = (case (as_str (ix v ''repo''), as_str (ix v ''branch'')) of
       (Some r, Some b) \<Rightarrow> '' '' @ r @ ''@'' @ b
     | (Some r, None) \<Rightarrow> '' '' @ r
     | _ \<Rightarrow> '''')"

definition message_target :: "json \<Rightarrow> string" where
  "message_target m = (case as_str (ix m ''channel'') of
       Some c \<Rightarrow> (if is_true m ''announce'' then ''#'' @ c @ '' [announcement]'' else ''#'' @ c)
     | None \<Rightarrow> (case as_str (ix m ''to'') of
           None \<Rightarrow> ''''
         | Some t \<Rightarrow> (case as_str (ix m ''to_session'') of
               Some s \<Rightarrow> ''@'' @ t @ ''/'' @ s
             | None \<Rightarrow> ''@'' @ t)))"

definition message_line :: "terminal \<Rightarrow> json \<Rightarrow> string" where
  "message_line te m =
     (let from = (case as_str (ix m ''from_session'') of
            Some s \<Rightarrow> field m ''from'' @ ''/'' @ s | None \<Rightarrow> field m ''from'')
      in ''['' @ te_show te (ix m ''id'') @ ''] '' @ field m ''created_at'' @ '' '' @ from @ arrow @
         message_target m @ '': '' @ field m ''body'')"

definition render_messages :: "terminal \<Rightarrow> json \<Rightarrow> effect list" where
  "render_messages te v =
     (if elements v ''messages'' = [] then [Say ''(no messages)'']
      else map (Say \<circ> message_line te) (elements v ''messages'') @
        (if is_true v ''truncated'' then [Say ''(truncated at limit; raise --limit to see more)''] else []))"

definition task_line :: "json \<Rightarrow> string" where
  "task_line t =
     (let holder = (case as_str (ix t ''claimed_by'') of
            None \<Rightarrow> ''''
          | Some h \<Rightarrow> (case as_str (ix t ''claimed_session'') of
                Some s \<Rightarrow> '' ('' @ h @ ''/'' @ s @ '')'' | None \<Rightarrow> '' ('' @ h @ '')''));
          expired = (if is_true t ''lease_expired'' then '' [lease expired]'' else '''')
      in pad 24 (field t ''key'') @ '' '' @ pad 8 (field t ''status'') @ holder @ expired @ '' '' @ field t ''title'')"

definition agent_lines :: "json \<Rightarrow> string list" where
  "agent_lines a =
     (let sessions = elements a ''sessions'' in
      if sessions \<noteq> [] then field a ''name'' # map (\<lambda>s. ''  /'' @
          pad 17 (case as_str (ix s ''session'') of None \<Rightarrow> ''(shared)'' | Some n \<Rightarrow> n) @ '' '' @
          pad 8 (field s ''status'') @ agent_place s @ '' '' @ field s ''activity'') sessions
      else [pad 20 (field a ''name'') @ '' '' @ pad 8 (field a ''status'') @ agent_place a @ '' '' @ field a ''activity''])"

definition lock_line :: "json \<Rightarrow> string" where
  "lock_line l =
     (let holder = (case as_str (ix l ''holder_session'') of
            Some s \<Rightarrow> field l ''holder'' @ ''/'' @ s | None \<Rightarrow> field l ''holder'')
      in pad 28 (field l ''name'') @ '' '' @ holder @ '' until '' @ field l ''expires_at'' @ ''  '' @ field l ''purpose'')"

definition note_line :: "json \<Rightarrow> string" where
  "note_line n = field n ''scope'' @ ''/'' @ field n ''key'' @ '': '' @ first_line (field n ''value'')"

definition em_dash :: string where
  "em_dash = map char_of [226 :: nat, 128, 148]"

definition digest_lines :: "terminal \<Rightarrow> json \<Rightarrow> string list" where
  "digest_lines te v =
     [em_dash @ '' last '' @ te_show te (ix v ''hours'') @ ''h '' @ em_dash] @
     concat (map (\<lambda>c. (''#'' @ field c ''name'' @ '': '' @ te_show te (ix c ''message_count'') @ '' msg(s)'') #
         map (\<lambda>m. ''   '' @ field m ''from'' @ '': '' @ field m ''body'') (elements c ''last_messages''))
       (elements v ''channels'')) @
     (if elements v ''tasks_moved'' = [] then []
      else ''tasks:'' # map (\<lambda>t. ''   '' @ field t ''key'' @ arrow @ field t ''status'' @ '' '' @
          (case as_str (ix t ''claimed_by'') of None \<Rightarrow> '''' | Some s \<Rightarrow> ''('' @ s @ '')'')) (elements v ''tasks_moved'')) @
     map (\<lambda>n. ''note '' @ field n ''scope'' @ ''/'' @ field n ''key'' @ '' by '' @ field n ''updated_by'')
       (elements v ''notes_updated'') @
     [''('' @ te_show te (ix v ''open_tasks'') @ '' open, '' @ te_show te (ix v ''claimed_tasks'') @ '' claimed, '' @
      show_nat (length (elements v ''active_locks'')) @ '' lock(s))'']"

definition task_detail_lines :: "json \<Rightarrow> string list" where
  "task_detail_lines v =
     [task_line (ix v ''task'')] @
     (case as_str (ix (ix v ''task'') ''description'') of None \<Rightarrow> [] | Some s \<Rightarrow> [''  '' @ s]) @
     (case as_str (ix (ix v ''task'') ''result'') of None \<Rightarrow> [] | Some s \<Rightarrow> [''  result: '' @ s]) @
     map (\<lambda>e. ''  '' @ field e ''created_at'' @ '' '' @ field e ''event'' @ '' '' @ field e ''agent'' @ '' '' @
         field e ''detail'') (elements v ''history'')"

definition or_line :: "string \<Rightarrow> 'a list \<Rightarrow> ('a \<Rightarrow> string) \<Rightarrow> string list" where
  "or_line none xs f = (if xs = [] then [none] else map f xs)"

fun render_task :: "task_cmd \<Rightarrow> json \<Rightarrow> string list" where
  "render_task (TaskShow k) v = task_detail_lines v"
| "render_task (TaskClaim k l) v =
     (if is_true v ''claimed'' then [''claimed: '' @ task_line (ix v ''task'')]
      else [''not claimed: '' @ (case as_str (ix v ''reason'') of None \<Rightarrow> ''unknown reason'' | Some s \<Rightarrow> s)])"
| "render_task (TaskNext l) v =
     (if is_true v ''claimed'' then [''claimed: '' @ task_line (ix v ''task'')]
      else [''not claimed: '' @ (case as_str (ix v ''reason'') of None \<Rightarrow> ''unknown reason'' | Some s \<Rightarrow> s)])"
| "render_task _ v = [task_line v]"

fun render_note :: "note_cmd \<Rightarrow> json \<Rightarrow> string list" where
  "render_note (NoteSearch q s) v = or_line ''(no notes)'' (elements v ''notes'') note_line"
| "render_note (NoteGet k s) v =
     (if is_true v ''found'' then
        (let n = ix v ''note'' in
         [field n ''scope'' @ ''/'' @ field n ''key'' @ '' (by '' @ field n ''updated_by'' @ '', '' @
            field n ''updated_at'' @ '')'', field n ''value''])
      else [''not found''])"
| "render_note (NoteSet k val s ts) v = [''saved '' @ field v ''scope'' @ ''/'' @ field v ''key'']"
| "render_note (NoteRm k s) v = [field v ''detail'']"

fun render_lock :: "lock_cmd \<Rightarrow> json \<Rightarrow> string list" where
  "render_lock LockList v = or_line ''(no locks held)'' (elements v ''locks'') lock_line"
| "render_lock (LockAcquire n t p) v =
     (if is_true v ''acquired'' then
        (let l = ix v ''lock'' in [''acquired '' @ field l ''name'' @ '' until '' @ field l ''expires_at''])
      else [''not acquired: '' @ field v ''reason''])"
| "render_lock (LockRelease n) v = [field v ''detail'']"

definition download :: "externals \<Rightarrow> terminal \<Rightarrow> string option \<Rightarrow> json \<Rightarrow> client_error + effect list" where
  "download x te out v = (case b64_decode x (field v ''data_base64'') of
       None \<Rightarrow> Inl InvalidBase64
     | Some bytes \<Rightarrow>
         (let path = or_default (field v ''filename'') out in
          if \<not> te_writable te path then Inl (CannotWrite path)
          else Inr [WroteFile path bytes, Say (''wrote '' @ path @ '' ('' @ te_show te (ix v ''size_bytes'') @
            '' bytes, '' @ field v ''content_type'' @ '')'')]))"

fun render_answer :: "externals \<Rightarrow> terminal \<Rightarrow> client_cmd \<Rightarrow> json \<Rightarrow> client_error + effect list" where
  "render_answer x te CmdWhoami v = Inr [Say (field v ''agent'' @ '' @ '' @ field v ''team'' @ '' '' @ em_dash @ '' '' @
     te_show te (ix v ''unread_direct_messages'') @ '' unread DM(s), '' @
     te_show te (ix v ''open_claimed_tasks'') @ '' claimed task(s)'')]"
| "render_answer x te (CmdRead sc h l al) v = Inr (render_messages te v)"
| "render_answer x te (CmdSearch q l) v = Inr (render_messages te v)"
| "render_answer x te (CmdSend f) v = Inr [Say (''sent ['' @ te_show te (ix (ix v ''message'') ''id'') @ ''] to '' @
     te_show te (ix v ''delivered_to''))]"
| "render_answer x te (CmdAsk to q t r) v = Inr (map Say
     (if is_true v ''answered''
      then [field (ix v ''answer'') ''from'' @ '': '' @ field (ix v ''answer'') ''body'']
      else [''(no answer yet)'', field v ''suggestion'']))"
| "render_answer x te (CmdAttach task p ct) v = Inr [Say (''attached ['' @ te_show te (ix v ''id'') @ ''] '' @
     field v ''filename'' @ '' ('' @ te_show te (ix v ''size_bytes'') @ '' bytes)'')]"
| "render_answer x te (CmdDownload i out) v = download x te out v"
| "render_answer x te (CmdChannelCreate n t) v = Inr [Say (''channel #'' @ field v ''name'' @ '' ready'')]"
| "render_answer x te CmdChannels v = Inr (map Say (or_line ''(no channels yet)'' (elements v ''channels'')
     (\<lambda>c. ''#'' @ pad 20 (field c ''name'') @ '' '' @ te_show te (ix c ''message_count'') @ '' msg(s)  '' @
        field c ''topic'')))"
| "render_answer x te (CmdAgents on) v = Inr (map Say (concat (map agent_lines (elements v ''agents'')) @
     [''('' @ te_show te (ix v ''online_count'') @ '' online)'']))"
| "render_answer x te (CmdTasks st mine) v = Inr (map Say (or_line ''(no tasks)'' (elements v ''tasks'') task_line @
     [''('' @ te_show te (ix v ''open'') @ '' open, '' @ te_show te (ix v ''claimed'') @ '' claimed)'']))"
| "render_answer x te (CmdTask t) v = Inr (map Say (render_task t v))"
| "render_answer x te (CmdNotes s tg) v = Inr (map Say (or_line ''(no notes)'' (elements v ''notes'') note_line))"
| "render_answer x te (CmdNote n) v = Inr (map Say (render_note n v))"
| "render_answer x te (CmdBeat a) v = Inr [Say (''presence updated: '' @ field v ''status'' @ '' '' @ field v ''activity'')]"
| "render_answer x te (CmdWait t ks al) v = Inr (map Say
     ((if is_true v ''woke''
       then map (\<lambda>e. ''['' @ field e ''kind'' @ ''] '' @ field e ''summary'') (elements v ''events'')
       else [''(nothing happened)'']) @ [field v ''suggestion'']))"
| "render_answer x te (CmdLock l) v = Inr (map Say (render_lock l v))"
| "render_answer x te (CmdDigest h al) v = Inr (map Say (digest_lines te v))"
| "render_answer x te CmdTools v = Inr [SayJson v]"
| "render_answer x te (CmdCall t a) v = Inr [SayJson v]"

subsection \<open>Running a subcommand\<close>

datatype call_reply =
    CallRefused                                \<comment> \<open>no connection, or a JSON-RPC error\<close>
  | Reply bool "json option"                   \<comment> \<open>\<open>is_error\<close> and the structured content\<close>

type_synonym 's remote = "string \<Rightarrow> arguments \<Rightarrow> 's \<Rightarrow> call_reply \<times> 's"

fun call_of :: "externals \<Rightarrow> machine \<Rightarrow> terminal \<Rightarrow> client_cmd \<Rightarrow> client_error + string \<times> json" where
  "call_of x m te (CmdCall tool raw) = (case te_parse te raw of
       None \<Rightarrow> Inl (ArgsNotJson raw)
     | Some (JObj kvs) \<Rightarrow> Inr (tool, JObj kvs)
     | Some _ \<Rightarrow> Inl ArgsNotObject)"
| "call_of x m te cmd = (case to_call x m cmd of
       Inl e \<Rightarrow> Inl e | Inr None \<Rightarrow> Inl NoToolMapping | Inr (Some call) \<Rightarrow> Inr call)"

fun as_object :: "json \<Rightarrow> arguments option" where
  "as_object (JObj kvs) = Some kvs"
| "as_object _ = None"

definition run_command ::
  "externals \<Rightarrow> machine \<Rightarrow> terminal \<Rightarrow> (string \<times> string) list option \<Rightarrow> 's remote \<Rightarrow> bool \<Rightarrow>
     client_cmd \<Rightarrow> 's \<Rightarrow> (client_error + effect list) \<times> 's" where
  "run_command x m te tools remote raw_json cmd s =
     (if cmd = CmdTools then
        (case tools of
           None \<Rightarrow> (Inl (CallFailed ''tools''), s)
         | Some ts \<Rightarrow> (Inr (if raw_json then [SayTools ts]
               else map (\<lambda>(n, d). Say (pad 20 n @ '' '' @ trim d)) ts), s))
      else (case call_of x m te cmd of
          Inl e \<Rightarrow> (Inl e, s)
        | Inr (tool, args) \<Rightarrow> (case as_object args of
              None \<Rightarrow> (Inl ArgsNotObject, s)
            | Some kvs \<Rightarrow> (case remote tool kvs s of
                  (CallRefused, s1) \<Rightarrow> (Inl (CallFailed tool), s1)
                | (Reply failed content, s1) \<Rightarrow>
                    if failed then (Inl (ToolError tool), s1)
                    else (let v = or_default (JObj [(''ok'', JBool True)]) content in
                      (if raw_json then Inr [SayJson v] else render_answer x te cmd v, s1))))))"

text \<open>\<open>run\<close>: the headers every request carries.\<close>

definition client_headers :: "string \<Rightarrow> string option \<Rightarrow> string + headers" where
  "client_headers token sess =
     (let auth = (''authorization'', ''Bearer '' @ token) in
      case non_empty (map_option trim sess) of
        None \<Rightarrow> Inr [auth]
      | Some s \<Rightarrow> if header_value_ok s then Inr [auth, (SESSION_HEADER, s)] else Inl s)"

subsection \<open>Against this bus\<close>

text \<open>
  The answers as JSON: what serde derives for \<open>AttachmentMeta\<close> and \<open>AttachmentContent\<close>; the
  text of an instant and the JSON of the other answers are parameters.
\<close>

definition meta_json :: "attachment_meta \<Rightarrow> json" where
  "meta_json a = JObj [(''id'', JNum (am_id a)), (''filename'', JStr (am_filename a)),
     (''content_type'', JStr (am_type a)), (''size_bytes'', JNum (am_size a))]"

definition content_json :: "(timestamp \<Rightarrow> string) \<Rightarrow> attachment_content \<Rightarrow> json" where
  "content_json ts a = JObj [(''id'', JNum (ac_id a)), (''filename'', JStr (ac_filename a)),
     (''content_type'', JStr (ac_type a)), (''size_bytes'', JNum (ac_size a)),
     (''uploaded_by'', JStr (ac_uploaded_by a)), (''created_at'', JStr (ts (ac_created a))),
     (''data_base64'', JStr (ac_data_base64 a))]"

definition result_json :: "(timestamp \<Rightarrow> string) \<Rightarrow> (tool_result \<Rightarrow> json) \<Rightarrow> tool_result \<Rightarrow> json" where
  "result_json ts other r = (case r of
       MetaIs a \<Rightarrow> meta_json a | ContentIs a \<Rightarrow> content_json ts a | _ \<Rightarrow> other r)"

definition this_bus ::
  "externals \<Rightarrow> (tool_result \<Rightarrow> json) \<Rightarrow> auth_ctx \<Rightarrow> uuid \<Rightarrow> (int \<Rightarrow> recv list) \<Rightarrow> conn remote" where
  "this_bus x enc auth fresh arrives tool args c = (case parse_call fresh arrives tool args of
       None \<Rightarrow> (CallRefused, c)
     | Some call \<Rightarrow> (case call_tool x (Some auth) call c of
           (Inl e, c1) \<Rightarrow> (CallRefused, c1)
         | (Inr r, c1) \<Rightarrow> (Reply False (Some (enc r)), c1)))"

subsection \<open>A file from one console to another\<close>

text \<open>What the base64 codec promises: decoding undoes encoding, and the text has no space around it.\<close>

definition base64_laws :: "externals \<Rightarrow> bool" where
  "base64_laws x \<longleftrightarrow> (\<forall>s. b64_decode x (b64_encode x s) = Some s \<and> trim (b64_encode x s) = b64_encode x s)"

definition upload_name :: "machine \<Rightarrow> string \<Rightarrow> string" where
  "upload_name m path = trim (or_default ''file'' (to_str m (file_name path)))"

definition upload :: "machine \<Rightarrow> string \<Rightarrow> string option \<Rightarrow> string \<Rightarrow> new_attachment" where
  "upload m path ct bytes = \<lparr> na_filename = upload_name m path,
     na_type = (case non_empty (map_option trim (Some (or_default (guess_content_type m path) ct))) of
         None \<Rightarrow> ''application/octet-stream'' | Some t \<Rightarrow> t),
     na_data = bytes \<rparr>"

lemma client_decodes_upload:
  assumes "base64_laws x" and "upload_name m path \<noteq> []" and "length (upload_name m path) \<le> 255"
    and "bytes \<noteq> []" and "length bytes \<le> MAX_ATTACHMENT_BYTES"
  shows "decode_input x (or_default ''file'' (to_str m (file_name path)))
      (Some (or_default (guess_content_type m path) ct)) (b64_encode x bytes) = Inr (upload m path ct bytes)"
  using assms
  by (simp add: decode_input_def base64_laws_def upload_name_def upload_def Let_def)

lemma run_command_call:
  assumes "to_call x m cmd = Inr (Some (tool, JObj kvs))" and "\<And>t a. cmd \<noteq> CmdCall t a"
    and "parse_call fresh arrives tool kvs = Some call"
    and "call_tool x (Some auth) call c = (Inr r, c1)"
  shows "run_command x m te tools (this_bus x enc auth fresh arrives) False cmd c = (render_answer x te cmd (enc r), c1)"
proof -
  have "cmd \<noteq> CmdTools" using assms(1) by (auto simp: to_call_def)
  moreover have "call_of x m te cmd = Inr (tool, JObj kvs)"
    using assms(1,2) by (cases cmd) auto
  ultimately show ?thesis
    using assms(3,4) by (simp add: run_command_def this_bus_def or_default_def)
qed

text \<open>
  C13 (roundtrip). A file travels whole from one console to another: what \<open>client attach\<close> read
  from one machine, \<open>client download\<close> of a teammate writes byte for byte, through the arguments
  and answers in JSON, base64 both ways, the server's checks and the quota, provided the
  file is not empty, at most 256 KiB, and named within 255 bytes.
\<close>

theorem file_survives_the_bus:
  assumes "quiet c" and "find_task (data c) (team_id auth, trim task) = Some t"
    and "length (filter (\<lambda>a. at_task a = Some (ts_id t)) (attachments (data c))) < MAX_ATTACHMENTS_PER_TARGET"
    and "team_limit (team_id auth) (data c) = Some quota"
    and "has_room (team_id auth) (int (length bytes)) (data c)"
    and "\<forall>a \<in> set (attachments (data c)). at_id a < attachment_seq (data c)"
    and "agent_name_of (data c) (agent_id auth) = Some me" and "team_id reader = team_id auth"
    and "base64_laws x" and "mc_read m path = Some bytes" and "bytes \<noteq> []"
    and "length bytes \<le> MAX_ATTACHMENT_BYTES"
    and "upload_name m path \<noteq> []" and "length (upload_name m path) \<le> 255" and "te_writable te' dest"
  shows "\<exists>out c1 line. run_command x m te tools (this_bus x (result_json ts other) auth fresh arrives) False
       (CmdAttach task path ct) c = (Inr out, c1) \<and>
     run_command x m' te' tools' (this_bus x (result_json ts other) reader fresh' arrives') False
       (CmdDownload (attachment_seq (data c)) (Some dest)) c1 = (Inr [WroteFile dest bytes, Say line], c1)"
proof -
  let ?att = "upload m path ct bytes"
  have att: "na_data ?att = bytes" by (simp add: upload_def)
  obtain c1 where attach: "attach_to_task auth task ?att c = (Inr (new_meta ?att (attachment_seq (data c))), c1)"
    and get: "get_attachment x reader (attachment_seq (data c)) c1 =
      (Inr \<lparr> ac_id = attachment_seq (data c), ac_filename = na_filename ?att, ac_type = na_type ?att,
             ac_size = int (length bytes), ac_uploaded_by = me, ac_created = clock c,
             ac_data_base64 = b64_encode x bytes \<rparr>, c1)"
    using attach_then_get [OF assms(1-4), of ?att me reader x] assms(5-8,11) att by auto
  let ?file = "\<lparr> fa_filename = or_default ''file'' (to_str m (file_name path)),
      fa_type = Some (or_default (guess_content_type m path) ct), fa_data = b64_encode x bytes \<rparr>"
  have up: "call_tool x (Some auth) (AttachFile \<lparr> af_task = Some task, af_message = None, af_file = ?file \<rparr>) c =
      (Inr (MetaIs (new_meta ?att (attachment_seq (data c)))), c1)"
    using client_decodes_upload [OF assms(9,13,14,11,12), of ct] attach
    by (simp add: call_tool_def reply_def tool_attach_file_def with_auth_def bind_io_def lift_def ret_def)
  have down: "call_tool x (Some reader) (GetAttachment (attachment_seq (data c))) c1 =
      (Inr (ContentIs \<lparr> ac_id = attachment_seq (data c), ac_filename = na_filename ?att, ac_type = na_type ?att,
             ac_size = int (length bytes), ac_uploaded_by = me, ac_created = clock c,
             ac_data_base64 = b64_encode x bytes \<rparr>), c1)"
    using get by (simp add: call_tool_def reply_def tool_get_attachment_def with_auth_def bind_io_def ret_def)
  have "means x m fresh arrives (CmdAttach task path ct) =
      Some (AttachFile \<lparr> af_task = Some task, af_message = None, af_file = ?file \<rparr>)"
    using assms(10) by (simp add: read_file_def)
  then obtain t1 k1 where call1: "to_call x m (CmdAttach task path ct) = Inr (Some (t1, JObj k1))"
      "parse_call fresh arrives t1 k1 = Some (AttachFile \<lparr> af_task = Some task, af_message = None, af_file = ?file \<rparr>)"
    by (rule call_of_meaning)
  have "means x m' fresh' arrives' (CmdDownload (attachment_seq (data c)) (Some dest)) =
      Some (GetAttachment (attachment_seq (data c)))" by simp
  then obtain t2 k2 where call2: "to_call x m' (CmdDownload (attachment_seq (data c)) (Some dest)) = Inr (Some (t2, JObj k2))"
      "parse_call fresh' arrives' t2 k2 = Some (GetAttachment (attachment_seq (data c)))"
    by (rule call_of_meaning)
  show ?thesis
    using run_command_call [OF call1(1) _ call1(2) up] run_command_call [OF call2(1) _ call2(2) down] assms(9,15)
    by (simp add: result_json_def content_json_def download_def field_def base64_laws_def or_default_def)
qed

definition ana_machine :: machine where
  "ana_machine = \<lparr> mc_read = [''/tmp/fix.diff'' \<mapsto> ''hi''], mc_utf8 = (\<lambda>s. True) \<rparr>"

definition demo_terminal :: terminal where
  "demo_terminal = \<lparr> te_show = (\<lambda>j. ''''), te_parse = (\<lambda>s. None), te_writable = (\<lambda>p. True) \<rparr>"

lemma nibbles_no_space: "c \<in> set (nibbles s) \<Longrightarrow> \<not> is_space c"
proof (induction s)
  case (Cons d ds)
  have "\<not> is_space (nibble_char n)" if "n < 16" for n
    using nibble_value_char [OF that] by (auto simp: nibble_value_def is_space_def)
  moreover have "code_of d div 16 < 16" using code_of_less [of d] by linarith
  ultimately show ?case using Cons by auto
qed simp

lemma trim_nibbles: "trim (nibbles s) = nibbles s"
  using nibbles_no_space [of _ s] by (cases "nibbles s") (auto intro!: trim_unchanged)

theorem file_survives_the_bus_witness:
  "\<exists>out c1 line. run_command demo_ext ana_machine demo_terminal None
       (this_bus demo_ext (result_json (\<lambda>t. '''') (\<lambda>r. JNull)) ana 0 (\<lambda>n. [])) False
       (CmdAttach ''build'' ''/tmp/fix.diff'' None) file_conn = (Inr out, c1) \<and>
     run_command demo_ext ana_machine demo_terminal None
       (this_bus demo_ext (result_json (\<lambda>t. '''') (\<lambda>r. JNull)) bob 0 (\<lambda>n. [])) False
       (CmdDownload (attachment_seq (data file_conn)) (Some ''copy'')) c1 = (Inr [WroteFile ''copy'' ''hi'', Say line], c1)"
proof -
  have q: "quiet file_conn" by (simp add: file_conn_def)
  have t: "find_task (data file_conn) (team_id ana, trim ''build'') = Some file_task" by code_simp
  have n: "length (filter (\<lambda>a. at_task a = Some (ts_id file_task)) (attachments (data file_conn)))
      < MAX_ATTACHMENTS_PER_TARGET" by code_simp
  have l: "team_limit (team_id ana) (data file_conn) = Some None" by code_simp
  then have r: "has_room (team_id ana) (int (length ''hi'')) (data file_conn)"
    by (simp add: has_room_def)
  have s: "\<forall>a \<in> set (attachments (data file_conn)). at_id a < attachment_seq (data file_conn)"
    by code_simp
  have me: "agent_name_of (data file_conn) (agent_id ana) = Some ''ana''" by code_simp
  have team: "team_id bob = team_id ana" by (simp add: ana_def bob_def)
  have laws: "base64_laws demo_ext"
    by (simp add: base64_laws_def demo_ext_def unnibbles_nibbles trim_nibbles)
  have upl: "mc_read ana_machine ''/tmp/fix.diff'' = Some ''hi''" by (simp add: ana_machine_def)
  have name: "upload_name ana_machine ''/tmp/fix.diff'' = ''fix.diff''"
    unfolding upload_name_def to_str_def ana_machine_def by code_simp
  show ?thesis
    by (rule file_survives_the_bus [OF q t n l r s me team laws upl])
      (simp_all add: name MAX_ATTACHMENT_BYTES_def demo_terminal_def)
qed

end
