(* ===== verification/Commands.thy ===== *)
theory Commands
  imports Admin Client
begin

text \<open>
  \<open>main.rs\<close>: the command line as a datatype, which commands need a database, and the
  dispatch of the others. Fresh ids and the bytes of a new token are a record, migrations
  and the running server are parameters.
\<close>

subsection \<open>Commands\<close>

datatype team_cmd =
    TeamQuota string "int option"
  | TeamUsage string
  | TeamPrune string int bool
  | TeamCreate string "string option"
  | TeamList

datatype agent_cmd =
    AgentAdd string string "string option" bool
  | AgentList string
  | AgentDisable string string

datatype token_cmd =
    TokenIssue string string "string option"
  | TokenList string
  | TokenRevoke uuid

datatype webhook_cmd =
    WebhookAdd string string string string "string option"
  | WebhookList string
  | WebhookRemove uuid

record serve_args =
  sg_bind :: string
  sg_hosts :: string
  sg_origins :: string
  sg_auto_migrate :: bool
  sg_max_bytes :: nat
  sg_rate :: nat
  sg_secret :: "string option"

datatype command_line =
    Migrate
  | Serve serve_args
  | Team team_cmd
  | Agent agent_cmd
  | Token token_cmd
  | Webhook webhook_cmd
  | OpenClient client_cmd
  | McpConfig string string "string option"

record serve_options =
  so_bind :: string
  so_hosts :: "string list"
  so_origins :: "string list"
  so_max_bytes :: nat
  so_rate :: nat
  so_secret :: string

subsection \<open>Dispatch\<close>

definition split_csv :: "string \<Rightarrow> string list" where
  "split_csv s = (if trim s = ''*'' then []
     else filter (\<lambda>v. v \<noteq> []) (map trim (split_on (CHR '','') s)))"

record operator =
  op_fresh :: uuid
  op_fresh_token :: uuid
  op_bytes :: string
  op_round :: "rat \<Rightarrow> rat"
  op_migrate :: "unit command"
  op_serve :: "serve_options \<Rightarrow> unit command"

definition dashboard_secret :: "externals \<Rightarrow> string \<Rightarrow> string option \<Rightarrow> string" where
  "dashboard_secret x bytes given = (case given of
       Some s \<Rightarrow> if trim s \<noteq> [] then s else generate_token x bytes
     | None \<Rightarrow> generate_token x bytes)"

definition serve_options_of :: "externals \<Rightarrow> string \<Rightarrow> serve_args \<Rightarrow> serve_options" where
  "serve_options_of x bytes a =
     \<lparr> so_bind = sg_bind a, so_hosts = split_csv (sg_hosts a), so_origins = split_csv (sg_origins a),
       so_max_bytes = sg_max_bytes a, so_rate = sg_rate a,
       so_secret = dashboard_secret x bytes (sg_secret a) \<rparr>"

fun team_command :: "operator \<Rightarrow> team_cmd \<Rightarrow> unit command" where
  "team_command op (TeamCreate slug name) = team_create (op_fresh op) slug name"
| "team_command op TeamList = team_list"
| "team_command op (TeamQuota team bytes) = team_quota (op_round op) team bytes"
| "team_command op (TeamUsage team) = team_usage_report (op_round op) team"
| "team_command op (TeamPrune team days apply) = team_prune (op_round op) team days apply"

fun agent_command :: "externals \<Rightarrow> operator \<Rightarrow> agent_cmd \<Rightarrow> unit command" where
  "agent_command x op (AgentAdd team name display with_token) =
     agent_add x (op_fresh op) (op_fresh_token op) (op_bytes op) team name display with_token"
| "agent_command x op (AgentList team) = agent_listing team"
| "agent_command x op (AgentDisable team name) = agent_disable team name"

fun token_command :: "externals \<Rightarrow> operator \<Rightarrow> token_cmd \<Rightarrow> unit command" where
  "token_command x op (TokenIssue team agent label) =
     token_issue x (op_fresh_token op) (op_bytes op) team agent label"
| "token_command x op (TokenList team) = token_list team"
| "token_command x op (TokenRevoke i) = token_revoke i"

fun webhook_command :: "operator \<Rightarrow> webhook_cmd \<Rightarrow> unit command" where
  "webhook_command op (WebhookAdd team url kind events channel) =
     webhook_add (op_fresh op) team url kind events channel"
| "webhook_command op (WebhookList team) = webhook_list team"
| "webhook_command op (WebhookRemove i) = webhook_remove i"

text \<open>\<open>None\<close> is the \<open>unreachable!\<close> of the two commands that need no database.\<close>

fun dispatch :: "externals \<Rightarrow> operator \<Rightarrow> command_line \<Rightarrow> unit command option" where
  "dispatch x op (McpConfig url token sess) = None"
| "dispatch x op (OpenClient cmd) = None"
| "dispatch x op Migrate = Some (op_migrate op)"
| "dispatch x op (Serve a) = Some (bind_cmd (if sg_auto_migrate a then op_migrate op else finish ())
     (\<lambda>_. op_serve op (serve_options_of x (op_bytes op) a)))"
| "dispatch x op (Team cmd) = Some (team_command op cmd)"
| "dispatch x op (Agent cmd) = Some (agent_command x op cmd)"
| "dispatch x op (Token cmd) = Some (token_command x op cmd)"
| "dispatch x op (Webhook cmd) = Some (webhook_command op cmd)"

datatype plan =
    PrintConfig json
  | TalkToServer client_cmd
  | NoDatabaseUrl
  | WithDatabase string "unit command"

definition main :: "externals \<Rightarrow> operator \<Rightarrow> string option \<Rightarrow> command_line \<Rightarrow> plan option" where
  "main x op database_url cmd = (case cmd of
       McpConfig url token sess \<Rightarrow> Some (PrintConfig (mcp_config url token sess))
     | OpenClient c \<Rightarrow> Some (TalkToServer c)
     | _ \<Rightarrow> (case database_url of
           None \<Rightarrow> Some NoDatabaseUrl
         | Some url \<Rightarrow> map_option (WithDatabase url) (dispatch x op cmd)))"

lemma main_total: "main x op url cmd \<noteq> None"
  by (cases cmd) (auto simp: main_def split: option.splits)

lemma split_csv_clean: "v \<in> set (split_csv s) \<Longrightarrow> v \<noteq> [] \<and> trim v = v"
  by (auto simp: split_csv_def split: if_splits)

subsection \<open>From the operator's terminal to an admitted console\<close>

definition visible :: "string \<Rightarrow> bool" where
  "visible s \<longleftrightarrow> list_all (\<lambda>c. 32 \<le> code_of c \<and> code_of c < 127) s"

text \<open>
  What the codecs promise: visible ASCII is a legal header value that reads as itself, and
  hexadecimal text is visible and has no space.
\<close>

definition header_laws :: "externals \<Rightarrow> bool" where
  "header_laws x \<longleftrightarrow> (\<forall>s. visible s \<longrightarrow> header_str x s = Some s) \<and>
     (\<forall>s. visible (hex_encode x s) \<and> list_all (\<lambda>c. \<not> is_space c) (hex_encode x s))"

lemma token_text:
  assumes "header_laws x"
  shows "visible (generate_token x bytes)" "trim (generate_token x bytes) = generate_token x bytes"
    "generate_token x bytes \<noteq> []"
proof -
  have "list_all (\<lambda>c. \<not> is_space c) (generate_token x bytes)"
    using assms by (simp add: header_laws_def generate_token_def TOKEN_PREFIX_def is_space_def code_of_def)
  then show "trim (generate_token x bytes) = generate_token x bytes"
    by (cases "generate_token x bytes = []") (auto intro!: trim_unchanged simp: list_all_iff)
  show "visible (generate_token x bytes)"
    using assms by (simp add: header_laws_def visible_def generate_token_def TOKEN_PREFIX_def code_of_def)
  show "generate_token x bytes \<noteq> []" by (simp add: generate_token_def TOKEN_PREFIX_def)
qed

lemma client_bearer:
  assumes "header_laws x" and "visible token" and "trim token = token" and "token \<noteq> []"
    and "map_of hs ''authorization'' = Some (''Bearer '' @ token)"
  shows "bearer_token x hs = Some token"
proof -
  have "visible (''Bearer '' @ token)" using assms(2) by (simp add: visible_def code_of_def)
  then have "header_str x (''Bearer '' @ token) = Some (''Bearer '' @ token)"
    using assms(1) by (simp add: header_laws_def)
  moreover have "strip_prefix ''Bearer '' (''Bearer '' @ token) = Some token"
    by (simp add: strip_prefix_def starts_with_def)
  ultimately show ?thesis
    using assms(3-5) by (simp add: bearer_token_def non_empty_def or_keep_def)
qed

lemma client_session:
  assumes "header_laws x" and "pred_option visible sess"
  obtains hs where "client_headers token sess = Inr hs"
    "map_of hs ''authorization'' = Some (''Bearer '' @ token)"
    "session_from_headers x hs = map_sum BadSession id (normalize_session (coalesce sess))"
proof (cases "non_empty (map_option trim sess)")
  case None
  then have "trim (coalesce sess) = []"
    by (cases sess) (auto simp: non_empty_def coalesce_def split: if_splits)
  then have "normalize_session (coalesce sess) = Inr []" by (simp add: normalize_session_def)
  with None that show ?thesis
    by (simp add: client_headers_def session_from_headers_def SESSION_HEADER_def)
next
  case (Some s)
  then have s: "s = trim (coalesce sess)" "visible (coalesce sess)"
    using assms(2) by (cases sess; auto simp: non_empty_def coalesce_def split: if_splits)+
  have vis: "visible s"
    using s(2) set_trim [of "coalesce sess"] by (auto simp: visible_def list_all_iff s(1))
  then have "header_value_ok s" by (auto simp: visible_def header_value_ok_def list_all_iff)
  moreover have "header_str x s = Some s" using assms(1) vis by (simp add: header_laws_def)
  moreover have "normalize_session s = normalize_session (coalesce sess)"
    by (simp add: normalize_session_def s(1))
  ultimately show ?thesis
    using Some that
    by (simp add: client_headers_def session_from_headers_def SESSION_HEADER_def split: sum.split)
qed

text \<open>
  C12 (liveness). From the operator to a working console: the token \<open>token issue\<close> prints, given
  to the console client with any printable session name, is accepted by the server at once
  as the agent it was issued for, in the session the name normalises to; only a name the
  session rules reject is refused, with that rule, and only the rate limiter may delay it.
\<close>

theorem console_is_admitted:
  assumes "quiet c" and "find_team (data c) team = Some tid"
    and "find_agent (data c) tid (trim agent) = Some i"
    and "token_room x (op_fresh_token op) (generate_token x (op_bytes op)) (data c)"
    and "\<forall>a \<in> set (agents (data c)). ag_id a = i \<longrightarrow> ag_disabled a = None"
    and "header_laws x" and "pred_option visible sess"
    and "fst (charge rnd now (hex_encode x (hash_token x (generate_token x (op_bytes op)))) ml) = None"
  shows "\<exists>cmd c' token hs. dispatch x op (Token (TokenIssue team agent label)) = Some cmd \<and>
     cmd c = (([TokenShown agent team token], Inr ()), c') \<and> client_headers token sess = Inr hs \<and>
     (case normalize_session (coalesce sess) of
        Inl why \<Rightarrow> fst (require_bearer x rnd now hs ml c') = Inl (BadSession why)
      | Inr s \<Rightarrow> \<exists>ctx. fst (require_bearer x rnd now hs ml c') = Inr ctx \<and>
          agent_id ctx = i \<and> team_id ctx = tid \<and> agent_name ctx = trim agent \<and> session ctx = s)"
proof -
  let ?raw = "generate_token x (op_bytes op)"
  let ?run = "token_issue x (op_fresh_token op) (op_bytes op) team agent label c"
  obtain slug where sel: "select_token (hash_token x ?raw) (data (snd ?run)) = Some
      \<lparr> au_token = op_fresh_token op, au_agent = i, au_name = trim agent, au_disabled = False,
        au_team = tid, au_slug = slug \<rparr>" and q: "quiet (snd ?run)"
    by (rule issued_selected [OF assms(1-5)])
  obtain hs where hs: "client_headers ?raw sess = Inr hs"
    "map_of hs ''authorization'' = Some (''Bearer '' @ ?raw)"
    "session_from_headers x hs = map_sum BadSession id (normalize_session (coalesce sess))"
    by (rule client_session [OF assms(6,7)])
  have bearer: "bearer_token x hs = Some ?raw" by (rule client_bearer [OF assms(6) token_text [OF assms(6)] hs(2)])
  have res: "fst (resolve_token x ?raw (snd ?run)) = Inr \<lparr> agent_id = i, agent_name = trim agent, team_id = tid,
      team_slug = slug, session = [] \<rparr>"
    using resolve_cases [OF q generated_prefix] sel by simp
  obtain ml' where lim: "charge rnd now (hex_encode x (hash_token x ?raw)) ml = (None, ml')"
    using assms(8) by (metis prod.collapse)
  have "?run = (([TokenShown agent team ?raw], Inr ()), snd ?run)"
    by (simp add: token_issue_run [OF assms(1-4)])
  moreover have "case normalize_session (coalesce sess) of
        Inl why \<Rightarrow> fst (require_bearer x rnd now hs ml (snd ?run)) = Inl (BadSession why)
      | Inr s \<Rightarrow> \<exists>ctx. fst (require_bearer x rnd now hs ml (snd ?run)) = Inr ctx \<and>
          agent_id ctx = i \<and> team_id ctx = tid \<and> agent_name ctx = trim agent \<and> session ctx = s"
    using bearer lim hs(3) res
    by (auto simp: require_bearer_def split: sum.split prod.split)
  ultimately show ?thesis using hs(1) by auto
qed

definition demo_operator :: operator where
  "demo_operator = \<lparr> op_fresh = 80, op_fresh_token = 90, op_bytes = two_bytes, op_round = id,
     op_migrate = finish (), op_serve = (\<lambda>opts. finish ()) \<rparr>"

lemma demo_header_laws: "header_laws demo_ext"
proof -
  have "visible (nibbles s)" for s
  proof (induction s)
    case (Cons d ds)
    have "32 \<le> code_of (nibble_char n) \<and> code_of (nibble_char n) < 127" if "n < 16" for n
      using that by (auto simp: nibble_char_def)
    moreover have "code_of d div 16 < 16" using code_of_less [of d] by linarith
    ultimately show ?case using Cons by (simp add: visible_def)
  qed (simp add: visible_def)
  moreover have "list_all is_ascii s" if "visible s" for s
    using that by (fastforce simp: visible_def is_ascii_def list_all_iff)
  ultimately show ?thesis
    using nibbles_no_space by (auto simp: header_laws_def demo_ext_def list_all_iff [of "\<lambda>c. \<not> is_space c"])
qed

theorem console_is_admitted_witness:
  "\<exists>token hs c' ctx.
     token_issue demo_ext 90 two_bytes ''t'' ''ana'' None demo_conn = (([TokenShown ''ana'' ''t'' token], Inr ()), c') \<and>
     client_headers token (Some '' API '') = Inr hs \<and>
     fst (require_bearer demo_ext id 0 hs None c') = Inr ctx \<and> agent_id ctx = 1 \<and> session ctx = ''api''"
proof -
  have facts: "find_team (data demo_conn) ''t'' = Some 7" "find_agent (data demo_conn) 7 (trim ''ana'') = Some 1"
    by code_simp+
  have room: "token_room demo_ext (op_fresh_token demo_operator) (generate_token demo_ext (op_bytes demo_operator)) (data demo_conn)"
    by (simp add: token_room_def demo_simps)
  have on: "\<forall>a \<in> set (agents (data demo_conn)). ag_id a = 1 \<longrightarrow> ag_disabled a = None" by (simp add: demo_simps)
  have vis: "pred_option visible (Some '' API '')" by (simp add: visible_def code_of_def)
  have free: "fst (charge id 0 (hex_encode demo_ext (hash_token demo_ext
      (generate_token demo_ext (op_bytes demo_operator)))) None) = None" by (simp add: charge_def)
  have norm: "normalize_session '' API '' = Inr ''api''" by code_simp
  from console_is_admitted [OF quiet_demo_conn(1) facts room on demo_header_laws vis free, of None]
  show ?thesis
    by (auto simp: norm demo_operator_def)
qed

end
