(* ===== verification/Spec2Isabelle.thy ===== *)
theory Spec2Isabelle
  imports Locks Task_Queue Ask Notes Commands
begin

text \<open>
  Verification development for \<open>ai-crew-sync\<close>, a coordination bus for a team of AI coding
  agents: a Rust server over Postgres that offers messaging, a task queue, advisory locks,
  presence, shared notes and attachments as MCP tools, plus a dashboard, outgoing webhooks, an
  operator's command line and a console client. Paths below are relative to \<open>src/src/\<close>.

  \<^bold>\<open>Parts and how they interact.\<close>
  A request passes the HTTP layers of \<open>serve.rs\<close> (body limit, rate limit and bearer check of
  \<open>ratelimit.rs\<close> and \<open>auth.rs\<close>), is dispatched to a tool (\<open>tools/*.rs\<close>), and the tool calls
  the store (\<open>store/*.rs\<close>), which runs SQL statements. Triggers of the database announce every
  change (\<open>events.rs\<close>) to the blocking tools, and enqueue webhook deliveries, which
  \<open>webhooks.rs\<close> sends. \<open>dashboard/*.rs\<close> shows a team's state for a signed grant,
  \<open>admin.rs\<close> administers teams, agents and tokens, \<open>main.rs\<close> dispatches the command line,
  and \<open>client/*.rs\<close> is the console.

  \<^bold>\<open>State and effects.\<close>
  \<^item> \<open>Schema\<close>: the tables of \<open>migrations/*.sql\<close> as lists of records in insertion order, the
    sequences, the log of notifications, and the triggers as functions that every statement of
    the model calls where the database would fire them.
  \<^item> \<open>Store_Monad\<close>: a handler is a function from a connection to a result (a \<open>BusError\<close> or a
    value) and a connection. A connection holds the database, the clock and a schedule; every
    statement takes one tick of the schedule, in which time passes, the other sessions change
    the database, and the statement may fail. So a theorem about every schedule covers
    interleavings and failures between any two statements; a quiet connection (the empty
    schedule) is the sequential case. A transaction works on a snapshot and commits all or
    nothing. \<open>keeps I m\<close> is the invariant rule for every schedule whose other sessions keep
    \<open>I\<close>; \<open>valid R P m Q\<close> is the rely-guarantee triple.
  \<^item> \<open>Errors\<close>: \<open>BusError\<close> with one constructor for every place of the source that builds a
    message; the prose is not modelled. \<open>Prelude\<close>: strings as bytes, \<open>trim\<close>, \<open>lower\<close>,
    splitting, decimal numbers, tables updated by key. \<open>Samples\<close>: a concrete team and concrete
    third-party functions, on which the witnesses run.

  \<^bold>\<open>Components.\<close>
  \<^item> \<open>Common\<close> (\<open>store/mod.rs\<close>): normalisers and name lookups; the locale \<open>canonical_names\<close>
    (normalising twice is normalising once), interpreted for text fields, lock names, task keys,
    session labels and note scopes. Channel names do not satisfy it, which is a finding.
  \<^item> \<open>Leases\<close>: the locale \<open>lease_table\<close>, the contract locks and task claims share. Its lemmas
    (a holder keeps its resource until the expiry, under any statements of the others) are
    proved once and interpreted in \<open>Locks\<close> and \<open>Tasks\<close>.
  \<^item> \<open>Locks\<close> (\<open>store/locks.rs\<close>), \<open>Tasks\<close> and \<open>Task_Queue\<close> (\<open>store/tasks.rs\<close>): every
    statement and handler; mutual exclusion, the answers on every branch, \<open>claim_next_task\<close> as
    a refinement of \<open>claim_task\<close>, acyclic dependencies, progress of the queue, and that no call
    reopens a finished task.
  \<^item> \<open>Attachments\<close> (\<open>store/attachments.rs\<close>, \<open>store/quota.rs\<close>): validation, quota, visibility,
    retention. The quota is kept under every schedule by the two transactional paths, and not
    by the third, which is a finding.
  \<^item> \<open>Messaging\<close>, \<open>Reading\<close> (\<open>store/messaging.rs\<close>), \<open>Ask\<close> (\<open>tools/messaging.rs\<close>),
    \<open>Events\<close> (\<open>events.rs\<close>, \<open>tools/events.rs\<close>): posting all or nothing, incremental reads that
    never repeat a message, privacy of direct messages, the wake rules of the blocking tools
    and that no answer is missed. What arrives on the event stream is an input.
  \<^item> \<open>Presence\<close>, \<open>Notes\<close>, \<open>Digest\<close> (\<open>store/presence.rs\<close>, \<open>notes.rs\<close>, \<open>digest.rs\<close>).
  \<^item> \<open>RateLimit\<close>, \<open>Auth\<close> (\<open>ratelimit.rs\<close>, \<open>auth.rs\<close>): token buckets over rationals with a
    rounding function in the place of \<open>f64\<close> rounding; who is admitted.
  \<^item> \<open>Grant\<close>, \<open>Dashboard\<close> (\<open>dashboard/*.rs\<close>): HMAC grants over a parameter for SHA-256; the
    seven queries, every text on the page escaped, who sees which page.
  \<^item> \<open>Webhooks\<close> (\<open>webhooks.rs\<close>): claiming, sending, backoff and retention of deliveries, and the
    dispatcher's loop over an input of wake-ups, with fuel \<open>n\<close>: a poll needs one unit per
    batch and one more, so \<open>(deliveries + 1) * (wake-ups + 1)\<close> is enough, which the liveness
    theorem states and proves.
  \<^item> \<open>Tools\<close>, \<open>Isolation\<close>, \<open>Wire\<close> (\<open>tools/*.rs\<close>): every tool as a wrapper around the store; the
    decoders of the argument structs; one function from a call to its answer. \<open>Isolation\<close> shows
    that no call changes what another team has.
  \<^item> \<open>Serve\<close> (\<open>serve.rs\<close>): routes and layers; a request is answered by a tool only behind all
    of them, and a request without a valid token of a team changes nothing that team has.
  \<^item> \<open>Admin\<close> (\<open>admin.rs\<close>, \<open>webhooks.rs\<close>), \<open>Commands\<close> (\<open>main.rs\<close>): the operator's commands;
    the life of a token, and that a console given a printed token is admitted.
  \<^item> \<open>Client_Calls\<close>, \<open>Client\<close> (\<open>client/*.rs\<close>): subcommands to JSON calls, running one, and the
    lines printed; the server decodes what the client meant, and a file survives the bus.

  \<^bold>\<open>Loops.\<close> All functions are total. Recursion is structural except for \<open>ask_loop\<close> (measure: the
  events still to come), \<open>compact\<close> (size of the JSON value) and the webhook dispatcher (fuel).

  \<^bold>\<open>Modelling choices.\<close>
  Timestamps are instants in microseconds and stay instants where the code formats them. A
  string is its bytes, so SQL's \<open>left(body, n)\<close> and the padding of the console count bytes here.
  Ids that Postgres or the random generator makes are arguments. Full-text matching, base64,
  hex, SHA-256, UUID parsing and the size of serialised JSON are fields of \<open>externals\<close>, with
  the laws a theorem needs as named hypotheses. Rows locked by other transactions under
  \<open>SKIP LOCKED\<close>, HTTP answers, received events and wake-ups are arguments. Queries the dashboard
  runs concurrently, and the posts of one batch of webhooks, run in one order; the lemma
  \<open>send_order_irrelevant\<close> of \<open>Webhooks\<close> shows that the order of posts does not matter.

  \<^bold>\<open>Not modelled.\<close>
  The prose of messages, the HTML and style sheet around the dashboard's texts, log output,
  clap's parsing, rmcp's transport and JSON schemas, Tokio's broadcast channel and timers, the
  connection pool, spawning and shutdown in \<open>serve.rs\<close>, and sqlx's migrator: third-party
  code or pure input and output. The tests under \<open>src/tests\<close> and in the modules are not part of
  the program. Serialisation to JSON is modelled for the notifications, for the arguments of
  calls and for attachments; the other answers keep their records.
\<close>

end
